(* ===== verification/WsPrelude.thy ===== *)
theory WsPrelude
  imports Complex_Main "HOL-Library.Word" "HOL-Library.AList"
begin

text \<open>
  Shared vocabulary of the development: the machine integers of the crate, the outcome of
  code that can panic, checked and saturating arithmetic, the contract of
  \<^verbatim>\<open>std::collections::HashMap\<close>, and three generic locales (invariant machines, machines
  whose state is partitioned by a key, codecs) that the component theories interpret on the
  model of the code.
\<close>

section \<open>Machine integers\<close>

type_synonym u8 = "8 word"
type_synonym u16 = "16 word"
type_synonym u32 = "32 word"
type_synonym u64 = "64 word"
type_synonym usize = "64 word"
type_synonym bytes = "u8 list"

text \<open>
  Instants and durations of the monotonic clock are natural numbers of nanoseconds.
\<close>

type_synonym instant = nat
type_synonym duration = nat

abbreviation secs :: "nat \<Rightarrow> duration" where
  "secs n \<equiv> n * 1000000000"

abbreviation millis :: "nat \<Rightarrow> duration" where
  "millis n \<equiv> n * 1000000"

text \<open>
  \<^verbatim>\<open>Duration::as_millis\<close> drops the part below a millisecond; \<^verbatim>\<open>Instant::elapsed\<close> is the
  saturating difference to the clock.
\<close>

definition as_millis :: "duration \<Rightarrow> nat" where
  "as_millis d = d div 1000000"

definition elapsed :: "instant \<Rightarrow> instant \<Rightarrow> duration" where
  "elapsed now t = now - t"

section \<open>Panics\<close>

text \<open>
  A call of code that can panic (an \<^verbatim>\<open>assert!\<close>, an \<^verbatim>\<open>expect\<close>, an arithmetic overflow in a
  build with overflow checks) is a value of this type.
\<close>

datatype 'a outcome = Ret 'a | Panic

primrec bind_outcome :: "'a outcome \<Rightarrow> ('a \<Rightarrow> 'b outcome) \<Rightarrow> 'b outcome" where
  "bind_outcome (Ret x) f = f x"
| "bind_outcome Panic f = Panic"

lemma bind_outcome_Ret_iff:
  "bind_outcome m f = Ret y \<longleftrightarrow> (\<exists>x. m = Ret x \<and> f x = Ret y)"
  by (cases m) auto

lemma bind_outcome_Panic_iff:
  "bind_outcome m f = Panic \<longleftrightarrow> m = Panic \<or> (\<exists>x. m = Ret x \<and> f x = Panic)"
  by (cases m) auto

lemma outcome_not_Panic: "m \<noteq> Panic \<longleftrightarrow> (\<exists>x. m = Ret x)"
  by (cases m) auto

text \<open>
  An operation on a state that can panic half way: the state it leaves behind and its outcome.
\<close>

type_synonym ('s, 'a) op = "'s \<Rightarrow> 's \<times> 'a outcome"

definition op_then :: "('s, 'a) op \<Rightarrow> ('a \<Rightarrow> ('s, 'b) op) \<Rightarrow> ('s, 'b) op" where
  "op_then f g s = (case f s of (s1, Ret a) \<Rightarrow> g a s1 | (s1, Panic) \<Rightarrow> (s1, Panic))"

definition op_return :: "'a \<Rightarrow> ('s, 'a) op" where
  "op_return a s = (s, Ret a)"

definition op_update :: "('s \<Rightarrow> 's) \<Rightarrow> ('s, unit) op" where
  "op_update f s = (f s, Ret ())"

section \<open>Checked and saturating arithmetic\<close>

text \<open>
  Rust's \<^verbatim>\<open>+\<close> and \<^verbatim>\<open>-\<close> on machine integers panic on overflow when the crate is built with
  overflow checks (debug builds, \<open>ck = True\<close>) and wrap otherwise (release builds).
\<close>

definition add_ck :: "bool \<Rightarrow> 'a::len word \<Rightarrow> 'a word \<Rightarrow> 'a word outcome" where
  "add_ck ck a b =
     (if ck \<and> unat a + unat b \<ge> 2 ^ LENGTH('a) then Panic else Ret (a + b))"

definition sub_ck :: "bool \<Rightarrow> 'a::len word \<Rightarrow> 'a word \<Rightarrow> 'a word outcome" where
  "sub_ck ck a b = (if ck \<and> a < b then Panic else Ret (a - b))"

definition sat_add :: "'a::len word \<Rightarrow> 'a word \<Rightarrow> 'a word" where
  "sat_add a b = (if unat a + unat b < 2 ^ LENGTH('a) then a + b else - 1)"

definition sat_sub :: "'a::len word \<Rightarrow> 'a word \<Rightarrow> 'a word" where
  "sat_sub a b = (if b \<le> a then a - b else 0)"

named_theorems machine_arith \<open>reading machine arithmetic as arithmetic on natural numbers\<close>

lemma unat_add_fits:
  fixes a b :: "'a::len word"
  shows "unat a + unat b < 2 ^ LENGTH('a) \<Longrightarrow> unat (a + b) = unat a + unat b"
  by (simp add: unat_word_ariths)

lemma add_ck_fits [machine_arith]:
  fixes a b :: "'a::len word"
  shows "unat a + unat b < 2 ^ LENGTH('a) \<Longrightarrow> add_ck ck a b = Ret (a + b)"
  by (simp add: add_ck_def)

lemma add_ck_release: "add_ck False a b = Ret (a + b)"
  by (simp add: add_ck_def)

lemma unat_minus_one_eq: "unat (- 1 :: 'a::len word) = 2 ^ LENGTH('a) - 1"
  by (simp add: unsigned_minus_1_eq_mask mask_eq_exp_minus_1)

lemma unat_sat_add [machine_arith]:
  fixes a b :: "'a::len word"
  shows "unat (sat_add a b) = min (unat a + unat b) (2 ^ LENGTH('a) - 1)"
  by (auto simp: sat_add_def unat_minus_one_eq unat_word_ariths min_def)

lemma unat_sat_sub [machine_arith]: "unat (sat_sub a b) = unat a - unat b"
  by (auto simp: sat_sub_def unat_sub word_le_nat_alt)

lemma sat_sub_le: "sat_sub a b \<le> a"
  by (simp add: word_le_nat_alt unat_sat_sub)

lemma unat_min [machine_arith]: "unat (min a b) = min (unat a) (unat b)"
  by (simp add: min_def word_le_nat_alt)

lemma unat_max [machine_arith]: "unat (max a b) = max (unat a) (unat b)"
  by (simp add: max_def word_le_nat_alt)

lemma unat_less_two_power [simp]: "unat (a :: 'a::len word) < 2 ^ LENGTH('a)"
  by (rule unsigned_less)

lemma sat_add_zero [simp]: "sat_add a 0 = a"
  unfolding sat_add_def by (simp del: unsigned_less)

text \<open>\<open>field += n\<close> on a machine integer of the state.\<close>

definition op_add ::
  "bool \<Rightarrow> ('s \<Rightarrow> 'a::len word) \<Rightarrow> (('a word \<Rightarrow> 'a word) \<Rightarrow> 's \<Rightarrow> 's) \<Rightarrow> 'a word \<Rightarrow> ('s, unit) op" where
  "op_add ck get upd n s =
     (case add_ck ck (get s) n of Ret v \<Rightarrow> (upd (\<lambda>_. v) s, Ret ()) | Panic \<Rightarrow> (s, Panic))"

lemma op_add_fits:
  fixes get :: "'s \<Rightarrow> 'a::len word"
  shows "unat (get s) + unat n < 2 ^ LENGTH('a) \<Longrightarrow>
     op_add ck get upd n s = (upd (\<lambda>_. get s + n) s, Ret ())"
  by (simp add: op_add_def add_ck_fits)

lemma op_then_simps [simp]:
  "op_then (op_return a) g s = g a s"
  "op_then (op_update f) h s = h () (f s)"
  by (simp_all add: op_then_def op_return_def op_update_def)

lemma op_then_Ret: "f s = (s1, Ret a) \<Longrightarrow> op_then f g s = g a s1"
  by (simp add: op_then_def)

lemma op_then_Panic: "f s = (s1, Panic) \<Longrightarrow> op_then f g s = (s1, Panic)"
  by (simp add: op_then_def)

text \<open>An operation on one field of a larger state.\<close>

definition op_on :: "('s \<Rightarrow> 'x) \<Rightarrow> (('x \<Rightarrow> 'x) \<Rightarrow> 's \<Rightarrow> 's) \<Rightarrow> ('x, 'a) op \<Rightarrow> ('s, 'a) op" where
  "op_on get upd f s = (case f (get s) of (x, r) \<Rightarrow> (upd (\<lambda>_. x) s, r))"

lemma op_on_eq: "f (get s) = (x, r) \<Longrightarrow> op_on get upd f s = (upd (\<lambda>_. x) s, r)"
  by (simp add: op_on_def)

lemma op_then_fst: "fst (op_then f g s) = (case snd (f s) of Ret a \<Rightarrow> fst (g a (fst (f s))) | Panic \<Rightarrow> fst (f s))"
  by (simp add: op_then_def case_prod_beta split: outcome.splits)

lemma op_on_fst: "fst (op_on get upd f s) = upd (\<lambda>_. fst (f (get s))) s"
  by (simp add: op_on_def case_prod_beta)

text \<open>\<^verbatim>\<open>usize::div_ceil\<close>; the divisor is positive wherever the code calls it.\<close>

definition div_ceil :: "nat \<Rightarrow> nat \<Rightarrow> nat" where
  "div_ceil a b = a div b + (if 0 < a mod b then 1 else 0)"

section \<open>Slices in chunks\<close>

text \<open>\<^verbatim>\<open>slice::chunks\<close>; a chunk size of zero panics in Rust and does not occur.\<close>

function chunks :: "nat \<Rightarrow> 'a list \<Rightarrow> 'a list list" where
  "chunks n xs = (if n = 0 \<or> xs = [] then [] else take n xs # chunks n (drop n xs))"
  by pat_completeness auto
termination
  by (relation "measure (\<lambda>(n, xs). length xs)") auto

declare chunks.simps [simp del]

lemma chunks_Nil [simp]: "chunks n [] = []"
  by (simp add: chunks.simps)

lemma chunks_step: "0 < n \<Longrightarrow> xs \<noteq> [] \<Longrightarrow> chunks n xs = take n xs # chunks n (drop n xs)"
  by (simp add: chunks.simps [of n xs])

lemma concat_chunks: "0 < n \<Longrightarrow> concat (chunks n xs) = xs"
proof (induction n xs rule: chunks.induct)
  case (1 n xs)
  then show ?case by (cases "xs = []") (simp_all add: chunks_step [of n xs])
qed

lemma chunks_bounds: "c \<in> set (chunks n xs) \<Longrightarrow> 0 < length c \<and> length c \<le> n"
proof (induction n xs rule: chunks.induct)
  case (1 n xs)
  show ?case
  proof (cases "n = 0 \<or> xs = []")
    case True
    with "1.prems" show ?thesis by (simp add: chunks.simps [of n xs])
  next
    case False
    then have "c = take n xs \<or> c \<in> set (chunks n (drop n xs))"
      using "1.prems" by (simp add: chunks_step [of n xs])
    with "1.IH" False show ?thesis by auto
  qed
qed

lemma div_ceil_step: "0 < n \<Longrightarrow> 0 < a \<Longrightarrow> div_ceil a n = Suc (div_ceil (a - n) n)"
proof -
  assume n: "0 < n" and a: "0 < a"
  show ?thesis
  proof (cases "a < n")
    case True
    with a show ?thesis by (simp add: div_ceil_def)
  next
    case False
    with n show ?thesis
      by (simp add: div_ceil_def le_div_geq le_mod_geq)
  qed
qed

lemma length_chunks: "0 < n \<Longrightarrow> length (chunks n xs) = div_ceil (length xs) n"
proof (induction n xs rule: chunks.induct)
  case (1 n xs)
  show ?case
  proof (cases "xs = []")
    case True
    then show ?thesis by (simp add: div_ceil_def)
  next
    case False
    with "1.prems" have "length (chunks n (drop n xs)) = div_ceil (length xs - n) n"
      using "1.IH" by simp
    with False "1.prems" show ?thesis
      by (simp add: chunks_step [of n xs] div_ceil_step)
  qed
qed

lemma div_ceil_ge_two: "0 < n \<Longrightarrow> n < a \<Longrightarrow> 2 \<le> div_ceil a n"
  by (simp add: div_ceil_step)

section \<open>Big-endian bytes\<close>

text \<open>\<^verbatim>\<open>to_be_bytes\<close> of an \<open>n\<close>-byte unsigned integer and \<^verbatim>\<open>from_be_bytes\<close>.\<close>

primrec to_be :: "nat \<Rightarrow> nat \<Rightarrow> bytes" where
  "to_be 0 v = []"
| "to_be (Suc n) v = to_be n (v div 256) @ [of_nat (v mod 256)]"

definition from_be :: "bytes \<Rightarrow> nat" where
  "from_be bs = foldl (\<lambda>a b. a * 256 + unat b) 0 bs"

lemma length_to_be [simp]: "length (to_be n v) = n"
  by (induction n arbitrary: v) simp_all

lemma from_be_snoc [simp]: "from_be (bs @ [b]) = from_be bs * 256 + unat b"
  by (simp add: from_be_def)

lemma from_be_to_be: "v < 256 ^ n \<Longrightarrow> from_be (to_be n v) = v"
proof (induction n arbitrary: v)
  case 0
  then show ?case by (simp add: from_be_def)
next
  case (Suc n)
  then have "v div 256 < 256 ^ n" by (simp add: less_mult_imp_div_less mult.commute)
  moreover have "unat (of_nat (v mod 256) :: u8) = v mod 256" by (simp add: unat_of_nat)
  ultimately show ?case using Suc.IH by simp
qed

lemma from_be_bound: "from_be bs < 256 ^ length bs"
proof (induction bs rule: rev_induct)
  case Nil
  then show ?case by (simp add: from_be_def)
next
  case (snoc b bs)
  have "unat b < 256" using unat_less_two_power [of b] by simp
  with snoc show ?case by simp
qed

lemma to_be_from_be: "length bs = n \<Longrightarrow> to_be n (from_be bs) = bs"
proof (induction n arbitrary: bs)
  case 0
  then show ?case by simp
next
  case (Suc n)
  then obtain bs' b where bs: "bs = bs' @ [b]" "length bs' = n"
    by (metis append_butlast_last_id length_append_singleton length_greater_0_conv nat.inject zero_less_Suc)
  have b: "unat b < 256" using unat_less_two_power [of b] by simp
  with Suc.IH [OF bs(2)] show ?case by (simp add: bs(1))
qed

section \<open>The contract of \<^verbatim>\<open>HashMap\<close>\<close>

text \<open>
  A hash map is an association list with one entry per key. The order of the list stands
  for the unspecified iteration order of \<^verbatim>\<open>HashMap\<close>.
\<close>

type_synonym ('k, 'v) hmap = "('k \<times> 'v) list"

definition hm_wf :: "('k, 'v) hmap \<Rightarrow> bool" where
  "hm_wf m \<longleftrightarrow> distinct (map fst m)"

definition hm_empty :: "('k, 'v) hmap" where
  "hm_empty = []"

definition hm_get :: "('k, 'v) hmap \<Rightarrow> 'k \<Rightarrow> 'v option" where
  "hm_get m k = map_of m k"

definition hm_insert :: "'k \<Rightarrow> 'v \<Rightarrow> ('k, 'v) hmap \<Rightarrow> ('k, 'v) hmap" where
  "hm_insert k v m = AList.update k v m"

definition hm_remove :: "'k \<Rightarrow> ('k, 'v) hmap \<Rightarrow> ('k, 'v) hmap" where
  "hm_remove k m = AList.delete k m"

definition hm_retain :: "('k \<Rightarrow> 'v \<Rightarrow> bool) \<Rightarrow> ('k, 'v) hmap \<Rightarrow> ('k, 'v) hmap" where
  "hm_retain P m = filter (\<lambda>(k, v). P k v) m"

definition hm_values :: "('k, 'v) hmap \<Rightarrow> 'v list" where
  "hm_values m = map snd m"

definition hm_len :: "('k, 'v) hmap \<Rightarrow> nat" where
  "hm_len m = length m"

text \<open>What the crate relies on, as an interface; \<open>lookup\<close>, \<open>insert\<close> and \<open>remove\<close> are its
  operations and \<open>ok\<close> the provider's invariant.\<close>

locale key_value_map =
  fixes mt :: "'m"
    and lookup :: "'m \<Rightarrow> 'k \<Rightarrow> 'v option"
    and insert :: "'k \<Rightarrow> 'v \<Rightarrow> 'm \<Rightarrow> 'm"
    and remove :: "'k \<Rightarrow> 'm \<Rightarrow> 'm"
    and size :: "'m \<Rightarrow> nat"
    and ok :: "'m \<Rightarrow> bool"
  assumes lookup_empty: "lookup mt k = None"
    and lookup_insert: "lookup (insert k v m) k' = (if k' = k then Some v else lookup m k')"
    and lookup_remove: "lookup (remove k m) k' = (if k' = k then None else lookup m k')"
    and ok_empty: "ok mt"
    and ok_insert: "ok m \<Longrightarrow> ok (insert k v m)"
    and ok_remove: "ok m \<Longrightarrow> ok (remove k m)"
    and size_insert: "ok m \<Longrightarrow> size (insert k v m) = (if lookup m k = None then Suc (size m) else size m)"
    and size_remove: "ok m \<Longrightarrow> size (remove k m) = (if lookup m k = None then size m else size m - 1)"
begin

lemma lookup_insert_same [simp]: "lookup (insert k v m) k = Some v"
  by (simp add: lookup_insert)

lemma lookup_insert_other [simp]: "k' \<noteq> k \<Longrightarrow> lookup (insert k v m) k' = lookup m k'"
  by (simp add: lookup_insert)

lemma lookup_remove_same [simp]: "lookup (remove k m) k = None"
  by (simp add: lookup_remove)

lemma lookup_remove_other [simp]: "k' \<noteq> k \<Longrightarrow> lookup (remove k m) k' = lookup m k'"
  by (simp add: lookup_remove)

lemma size_insert_le: "ok m \<Longrightarrow> size (insert k v m) \<le> Suc (size m)"
  by (simp add: size_insert)

lemma size_remove_le: "ok m \<Longrightarrow> size (remove k m) \<le> size m"
  by (simp add: size_remove)

lemma lookup_fold_insert_other:
  "k \<notin> fst ` set kvs \<Longrightarrow> lookup (fold (\<lambda>(k, v). insert k v) kvs m) k = lookup m k"
  by (induction kvs arbitrary: m) auto

lemma ok_fold_insert: "ok m \<Longrightarrow> ok (fold (\<lambda>(k, v). insert k v) kvs m)"
  by (induction kvs arbitrary: m) (auto intro: ok_insert)

end

lemma length_delete_distinct:
  "distinct (map fst m) \<Longrightarrow>
     length (AList.delete k m) = (if map_of m k = None then length m else length m - 1)"
proof (induction m)
  case Nil
  then show ?case by simp
next
  case (Cons p m)
  then have IH: "length (AList.delete k m) = (if map_of m k = None then length m else length m - 1)"
    by simp
  have "map_of m k = None" if "fst p = k"
    using Cons.prems that by (simp add: map_of_eq_None_iff)
  moreover have "0 < length m" if "map_of m k \<noteq> None"
    using that by (cases m) auto
  ultimately show ?case
    using IH by (cases p) auto
qed

lemma length_update:
  "length (AList.update k v m) = (if map_of m k = None then Suc (length m) else length m)"
  by (induction m) auto

interpretation hm: key_value_map hm_empty hm_get hm_insert hm_remove hm_len hm_wf
  by unfold_locales
    (auto simp: hm_empty_def hm_get_def hm_insert_def hm_remove_def hm_len_def hm_wf_def
      update_conv' delete_conv' length_update length_delete_distinct
      intro: distinct_update distinct_delete)

lemma hm_insert_same: "hm_get m k = Some v \<Longrightarrow> hm_insert k v m = m"
  unfolding hm_get_def hm_insert_def by (induction m) auto

lemma hm_wf_retain: "hm_wf m \<Longrightarrow> hm_wf (hm_retain P m)"
  unfolding hm_wf_def hm_retain_def by (rule distinct_map_filter)

lemma hm_get_retain:
  "hm_wf m \<Longrightarrow>
     hm_get (hm_retain P m) k =
       (case hm_get m k of None \<Rightarrow> None | Some v \<Rightarrow> if P k v then Some v else None)"
  unfolding hm_wf_def hm_retain_def hm_get_def
proof (induction m)
  case Nil
  then show ?case by simp
next
  case (Cons p m)
  then show ?case
    by (cases p) (auto simp: map_of_eq_None_iff split: option.splits)
qed

lemma hm_get_empty [simp]: "hm_get hm_empty k = None"
  by (simp add: hm_empty_def hm_get_def)

lemma hm_wf_map_values: "hm_wf (map (\<lambda>(k, v). (k, f k v)) m) = hm_wf m"
  by (simp add: hm_wf_def case_prod_beta comp_def)

lemma hm_get_map_values: "hm_get (map (\<lambda>(k, v). (k, f k v)) m) k = map_option (f k) (hm_get m k)"
  by (induction m) (auto simp: hm_get_def)

lemma hm_values_mem: "hm_get m k = Some v \<Longrightarrow> v \<in> set (hm_values m)"
  unfolding hm_get_def hm_values_def by (force dest: map_of_SomeD)

lemma hm_values_insert: "set (hm_values (hm_insert k v m)) \<subseteq> Set.insert v (set (hm_values m))"
  unfolding hm_values_def hm_insert_def by (induction m) auto

lemma hm_keys_insert: "fst ` set (hm_insert k v m) \<subseteq> Set.insert k (fst ` set m)"
  unfolding hm_insert_def by (induction m) auto

lemma hm_keys_remove: "fst ` set (hm_remove k m) \<subseteq> fst ` set m"
  unfolding hm_remove_def by (auto simp: AList.delete_eq)

lemma hm_values_remove: "set (hm_values (hm_remove k m)) \<subseteq> set (hm_values m)"
  unfolding hm_values_def hm_remove_def by (auto simp: AList.delete_eq)

lemma hm_values_retain: "set (hm_values (hm_retain P m)) \<subseteq> set (hm_values m)"
  unfolding hm_values_def hm_retain_def by auto

section \<open>Machines with an invariant\<close>

text \<open>
  A component whose operations all keep an invariant keeps it over any sequence of calls.
\<close>

locale invariant_machine =
  fixes step :: "'e \<Rightarrow> 's \<Rightarrow> 's"
    and inv :: "'s \<Rightarrow> bool"
  assumes step_inv: "inv s \<Longrightarrow> inv (step e s)"
begin

lemma run_inv: "inv s \<Longrightarrow> inv (fold step es s)"
  by (induction es arbitrary: s) (auto intro: step_inv)

lemma run_prefix_inv: "inv s \<Longrightarrow> inv (fold step (take n es) s)"
  by (rule run_inv)

end

section \<open>Machines partitioned by a key\<close>

text \<open>
  Several components keep one state per connection, per rate-limit type or per server in one
  shared map. \<open>run_keyed\<close> runs a trace of calls tagged with their key and collects the
  answers; \<open>proj_key\<close> is what one key sees of a trace.
\<close>

fun run_keyed :: "('k \<Rightarrow> 'e \<Rightarrow> 's \<Rightarrow> 's \<times> 'o) \<Rightarrow> ('k \<times> 'e) list \<Rightarrow> 's \<Rightarrow> 's \<times> ('k \<times> 'o) list" where
  "run_keyed f [] s = (s, [])"
| "run_keyed f ((k, e) # tr) s =
     (case f k e s of (s1, a) \<Rightarrow>
       (case run_keyed f tr s1 of (s2, as) \<Rightarrow> (s2, (k, a) # as)))"

fun run_local :: "('e \<Rightarrow> 'v \<Rightarrow> 'v \<times> 'o) \<Rightarrow> 'e list \<Rightarrow> 'v \<Rightarrow> 'v \<times> 'o list" where
  "run_local f [] v = (v, [])"
| "run_local f (e # es) v =
     (case f e v of (v1, a) \<Rightarrow> (case run_local f es v1 of (v2, as) \<Rightarrow> (v2, a # as)))"

definition proj_key :: "'k \<Rightarrow> ('k \<times> 'a) list \<Rightarrow> 'a list" where
  "proj_key k tr = map snd (filter (\<lambda>p. fst p = k) tr)"

lemma proj_key_simps [simp]:
  "proj_key k [] = []"
  "proj_key k ((k', x) # tr) = (if k' = k then x # proj_key k tr else proj_key k tr)"
  by (simp_all add: proj_key_def)

lemma run_local_append:
  "run_local f (xs @ ys) v =
     (case run_local f xs v of (v1, as) \<Rightarrow> (case run_local f ys v1 of (v2, bs) \<Rightarrow> (v2, as @ bs)))"
  by (induction xs arbitrary: v) (auto split: prod.splits)

lemma length_run_local: "length (snd (run_local f es v)) = length es"
proof (induction es arbitrary: v)
  case Nil
  then show ?case by simp
next
  case (Cons e es)
  from Cons.IH [of "fst (f e v)"] show ?case by (simp add: case_prod_beta)
qed

locale keyed_machine =
  fixes step :: "'k \<Rightarrow> 'e \<Rightarrow> 's \<Rightarrow> 's \<times> 'o"
    and view :: "'k \<Rightarrow> 's \<Rightarrow> 'v"
    and vstep :: "'k \<Rightarrow> 'e \<Rightarrow> 'v \<Rightarrow> 'v \<times> 'o"
  assumes step_own: "view k (fst (step k e s)) = fst (vstep k e (view k s))"
    and step_out: "snd (step k e s) = snd (vstep k e (view k s))"
    and step_other: "k' \<noteq> k \<Longrightarrow> view k' (fst (step k e s)) = view k' s"
begin

lemma isolation:
  "view k (fst (run_keyed step tr s)) = fst (run_local (vstep k) (proj_key k tr) (view k s)) \<and>
   proj_key k (snd (run_keyed step tr s)) = snd (run_local (vstep k) (proj_key k tr) (view k s))"
proof (induction tr arbitrary: s)
  case Nil
  then show ?case by simp
next
  case (Cons p tr)
  obtain k' e where p: "p = (k', e)" by (cases p)
  obtain s1 a where st: "step k' e s = (s1, a)" by (cases "step k' e s")
  show ?case
  proof (cases "k' = k")
    case True
    with st have "vstep k e (view k s) = (view k s1, a)"
      using step_own [of k e s] step_out [of k e s] by (simp add: prod_eq_iff)
    with True st p Cons.IH [of s1] show ?thesis
      by (simp add: case_prod_beta)
  next
    case False
    with st have "view k s1 = view k s"
      using step_other [of k k' e s] by simp
    with False st p Cons.IH [of s1] show ?thesis
      by (simp add: case_prod_beta)
  qed
qed

lemmas isolated_state = isolation [THEN conjunct1]
lemmas isolated_answers = isolation [THEN conjunct2]

text \<open>Two traces that look alike to a key cannot be told apart by it.\<close>

lemma same_projection:
  assumes "proj_key k tr = proj_key k tr'" and "view k s = view k s'"
  shows "proj_key k (snd (run_keyed step tr s)) = proj_key k (snd (run_keyed step tr' s'))"
  using assms by (simp add: isolated_answers)

end

section \<open>Codecs\<close>

text \<open>An encoder and a partial decoder that recovers every valid value.\<close>

locale codec =
  fixes enc :: "'a \<Rightarrow> 'b"
    and dec :: "'b \<Rightarrow> 'a option"
    and valid :: "'a \<Rightarrow> bool"
  assumes dec_enc: "valid x \<Longrightarrow> dec (enc x) = Some x"
begin

lemma enc_inject: "valid x \<Longrightarrow> valid y \<Longrightarrow> enc x = enc y \<longleftrightarrow> x = y"
  by (metis dec_enc option.inject)

lemma inj_on_enc: "inj_on enc {x. valid x}"
  using enc_inject by (intro inj_onI) blast

end

text \<open>Big-endian encoding of a fixed width is such a codec, in both directions.\<close>

definition decode_be :: "nat \<Rightarrow> bytes \<Rightarrow> nat option" where
  "decode_be n bs = (if length bs = n then Some (from_be bs) else None)"

interpretation be: codec "to_be n" "decode_be n" "\<lambda>v. v < 256 ^ n" for n
  by unfold_locales (simp add: decode_be_def from_be_to_be)

end
