(* ===== verification/RustStr.thy ===== *)
theory RustStr
  imports WsPrelude
begin

text \<open>
  Rust strings. A \<^verbatim>\<open>str\<close> is the list of its Unicode scalar values; its bytes are the UTF-8
  encoding of that list. Below are the operations of \<^verbatim>\<open>str\<close>, \<^verbatim>\<open>String\<close> and \<^verbatim>\<open>char\<close> the crate
  uses: UTF-8 encoding and validation, byte slicing, trimming, splitting, joining, lower
  casing, decimal and hexadecimal formatting. Outside ASCII, alphanumericity and lower casing
  are tables of the standard library: they are arguments (\<open>ua\<close>, \<open>ul\<close>) of the operations.
\<close>

type_synonym rstr = "nat list"

section \<open>Literals and characters\<close>

definition lit :: "string \<Rightarrow> rstr" where
  "lit s = map of_char s"

definition is_scalar :: "nat \<Rightarrow> bool" where
  "is_scalar c \<longleftrightarrow> c < 0xD800 \<or> (0xE000 \<le> c \<and> c < 0x110000)"

definition str_ok :: "rstr \<Rightarrow> bool" where
  "str_ok s \<longleftrightarrow> list_all is_scalar s"

definition ascii_alnum :: "nat \<Rightarrow> bool" where
  "ascii_alnum c \<longleftrightarrow> (48 \<le> c \<and> c \<le> 57) \<or> (65 \<le> c \<and> c \<le> 90) \<or> (97 \<le> c \<and> c \<le> 122)"

definition is_alphanumeric :: "(nat \<Rightarrow> bool) \<Rightarrow> nat \<Rightarrow> bool" where
  "is_alphanumeric ua c = (if c < 128 then ascii_alnum c else ua c)"

definition is_ascii_control :: "nat \<Rightarrow> bool" where
  "is_ascii_control c \<longleftrightarrow> c < 32 \<or> c = 127"

text \<open>The code points with the Unicode property White\_Space, used by \<^verbatim>\<open>str::trim\<close>.\<close>

definition is_whitespace :: "nat \<Rightarrow> bool" where
  "is_whitespace c \<longleftrightarrow>
     (9 \<le> c \<and> c \<le> 13) \<or> c = 32 \<or> c = 0x85 \<or> c = 0xA0 \<or> c = 0x1680 \<or>
     (0x2000 \<le> c \<and> c \<le> 0x200A) \<or> c = 0x2028 \<or> c = 0x2029 \<or> c = 0x202F \<or>
     c = 0x205F \<or> c = 0x3000"

text \<open>White space and alphanumeric characters are disjoint, in ASCII and in the tables.\<close>

definition alnum_table_ok :: "(nat \<Rightarrow> bool) \<Rightarrow> bool" where
  "alnum_table_ok ua \<longleftrightarrow> (\<forall>c. is_whitespace c \<longrightarrow> \<not> ua c)"

lemma ascii_alnum_not_whitespace: "ascii_alnum c \<Longrightarrow> \<not> is_whitespace c"
  unfolding ascii_alnum_def is_whitespace_def by linarith

lemma alnum_not_whitespace: "alnum_table_ok ua \<Longrightarrow> is_alphanumeric ua c \<Longrightarrow> \<not> is_whitespace c"
  by (cases "c < 128") (auto simp: alnum_table_ok_def is_alphanumeric_def ascii_alnum_not_whitespace)

definition ascii_lower :: "nat \<Rightarrow> nat" where
  "ascii_lower c = (if 65 \<le> c \<and> c \<le> 90 then c + 32 else c)"

definition to_lowercase :: "(rstr \<Rightarrow> rstr) \<Rightarrow> rstr \<Rightarrow> rstr" where
  "to_lowercase ul s = (if list_all (\<lambda>c. c < 128) s then map ascii_lower s else ul s)"

lemma ascii_lower_idem [simp]: "ascii_lower (ascii_lower c) = ascii_lower c"
  by (auto simp: ascii_lower_def)

lemma ascii_lower_ascii: "c < 128 \<Longrightarrow> ascii_lower c < 128"
  by (auto simp: ascii_lower_def)

lemma to_lowercase_ascii: "list_all (\<lambda>c. c < 128) s \<Longrightarrow> to_lowercase ul s = map ascii_lower s"
  by (simp add: to_lowercase_def)

lemma to_lowercase_idem:
  "list_all (\<lambda>c. c < 128) s \<Longrightarrow> to_lowercase ul (to_lowercase ul s) = to_lowercase ul s"
  by (auto simp: to_lowercase_def list_all_iff ascii_lower_ascii)

section \<open>UTF-8\<close>

definition utf8_char :: "nat \<Rightarrow> bytes" where
  "utf8_char c =
     (if c < 0x80 then [of_nat c]
      else if c < 0x800 then [of_nat (0xC0 + c div 64), of_nat (0x80 + c mod 64)]
      else if c < 0x10000 then
        [of_nat (0xE0 + c div 4096), of_nat (0x80 + c div 64 mod 64), of_nat (0x80 + c mod 64)]
      else
        [of_nat (0xF0 + c div 262144), of_nat (0x80 + c div 4096 mod 64),
         of_nat (0x80 + c div 64 mod 64), of_nat (0x80 + c mod 64)])"

definition utf8_encode :: "rstr \<Rightarrow> bytes" where
  "utf8_encode s = concat (map utf8_char s)"

text \<open>\<^verbatim>\<open>str::len\<close> counts bytes.\<close>

definition str_len :: "rstr \<Rightarrow> nat" where
  "str_len s = length (utf8_encode s)"

definition in_range :: "nat \<Rightarrow> nat \<Rightarrow> u8 \<Rightarrow> bool" where
  "in_range lo hi b \<longleftrightarrow> lo \<le> unat b \<and> unat b \<le> hi"

text \<open>The payload of a continuation byte.\<close>

definition cont6 :: "u8 \<Rightarrow> nat" where
  "cont6 b = unat b - 0x80"

text \<open>
  \<^verbatim>\<open>String::from_utf8\<close>: the well-formed byte sequences of the Unicode standard (no overlong
  forms, no surrogates, nothing above U+10FFFF).
\<close>

fun utf8_decode :: "bytes \<Rightarrow> rstr option" where
  "utf8_decode [] = Some []"
| "utf8_decode (b # bs) =
     (let n = unat b in
      if n < 0x80 then map_option ((#) n) (utf8_decode bs)
      else if 0xC2 \<le> n \<and> n \<le> 0xDF then
        (case bs of
           b1 # r \<Rightarrow>
             if in_range 0x80 0xBF b1
             then map_option ((#) ((n - 0xC0) * 64 + cont6 b1)) (utf8_decode r) else None
         | _ \<Rightarrow> None)
      else if 0xE0 \<le> n \<and> n \<le> 0xEF then
        (case bs of
           b1 # b2 # r \<Rightarrow>
             if in_range (if n = 0xE0 then 0xA0 else 0x80) (if n = 0xED then 0x9F else 0xBF) b1
                \<and> in_range 0x80 0xBF b2
             then map_option ((#) ((n - 0xE0) * 4096 + cont6 b1 * 64 + cont6 b2)) (utf8_decode r)
             else None
         | _ \<Rightarrow> None)
      else if 0xF0 \<le> n \<and> n \<le> 0xF4 then
        (case bs of
           b1 # b2 # b3 # r \<Rightarrow>
             if in_range (if n = 0xF0 then 0x90 else 0x80) (if n = 0xF4 then 0x8F else 0xBF) b1
                \<and> in_range 0x80 0xBF b2 \<and> in_range 0x80 0xBF b3
             then map_option
               ((#) ((n - 0xF0) * 262144 + cont6 b1 * 4096 + cont6 b2 * 64 + cont6 b3))
               (utf8_decode r)
             else None
         | _ \<Rightarrow> None)
      else None)"

declare utf8_decode.simps(2) [simp del]

lemma utf8_decode_1:
  "unat b < 0x80 \<Longrightarrow> utf8_decode (b # r) = map_option ((#) (unat b)) (utf8_decode r)"
  by (simp add: utf8_decode.simps(2))

lemma utf8_decode_2:
  "0xC2 \<le> unat b \<Longrightarrow> unat b \<le> 0xDF \<Longrightarrow> in_range 0x80 0xBF b1 \<Longrightarrow>
   utf8_decode (b # b1 # r) = map_option ((#) ((unat b - 0xC0) * 64 + cont6 b1)) (utf8_decode r)"
  by (simp add: utf8_decode.simps(2))

lemma utf8_decode_3:
  "0xE0 \<le> unat b \<Longrightarrow> unat b \<le> 0xEF \<Longrightarrow>
   in_range (if unat b = 0xE0 then 0xA0 else 0x80) (if unat b = 0xED then 0x9F else 0xBF) b1 \<Longrightarrow>
   in_range 0x80 0xBF b2 \<Longrightarrow>
   utf8_decode (b # b1 # b2 # r) =
     map_option ((#) ((unat b - 0xE0) * 4096 + cont6 b1 * 64 + cont6 b2)) (utf8_decode r)"
  by (simp add: utf8_decode.simps(2))

lemma utf8_decode_4:
  "0xF0 \<le> unat b \<Longrightarrow> unat b \<le> 0xF4 \<Longrightarrow>
   in_range (if unat b = 0xF0 then 0x90 else 0x80) (if unat b = 0xF4 then 0x8F else 0xBF) b1 \<Longrightarrow>
   in_range 0x80 0xBF b2 \<Longrightarrow> in_range 0x80 0xBF b3 \<Longrightarrow>
   utf8_decode (b # b1 # b2 # b3 # r) =
     map_option ((#) ((unat b - 0xF0) * 262144 + cont6 b1 * 4096 + cont6 b2 * 64 + cont6 b3))
       (utf8_decode r)"
  by (simp add: utf8_decode.simps(2))

lemma unat_byte: "n < 256 \<Longrightarrow> unat (of_nat n :: u8) = n"
  by (simp add: unat_of_nat)

lemma unat_cont:
  "k < 64 \<Longrightarrow> unat (of_nat (0x80 + k) :: u8) = 0x80 + k"
  by (rule unat_byte) simp

text \<open>Reading back a sequence written from its six-bit groups.\<close>

lemma utf8_decode_groups:
  assumes "k0 < 64" "k1 < 64" "k2 < 64"
  shows
    "2 \<le> h \<Longrightarrow> h < 32 \<Longrightarrow>
     utf8_decode (of_nat (0xC0 + h) # of_nat (0x80 + k0) # r) =
       map_option ((#) (h * 64 + k0)) (utf8_decode r)"
    "h < 16 \<Longrightarrow> (h = 0 \<Longrightarrow> 32 \<le> k1) \<Longrightarrow> (h = 13 \<Longrightarrow> k1 < 32) \<Longrightarrow>
     utf8_decode (of_nat (0xE0 + h) # of_nat (0x80 + k1) # of_nat (0x80 + k0) # r) =
       map_option ((#) (h * 4096 + k1 * 64 + k0)) (utf8_decode r)"
    "h < 5 \<Longrightarrow> (h = 0 \<Longrightarrow> 16 \<le> k2) \<Longrightarrow> (h = 4 \<Longrightarrow> k2 < 16) \<Longrightarrow>
     utf8_decode (of_nat (0xF0 + h) # of_nat (0x80 + k2) # of_nat (0x80 + k1) # of_nat (0x80 + k0) # r) =
       map_option ((#) (h * 262144 + k2 * 4096 + k1 * 64 + k0)) (utf8_decode r)"
proof -
  note mb = assms [THEN unat_cont]
  have c0: "unat (of_nat (0xC0 + h) :: u8) = 0xC0 + h" if "h < 32" for h
    using that by (intro unat_byte) simp
  have e0: "unat (of_nat (0xE0 + h) :: u8) = 0xE0 + h" if "h < 16" for h
    using that by (intro unat_byte) simp
  have f0: "unat (of_nat (0xF0 + h) :: u8) = 0xF0 + h" if "h < 5" for h
    using that by (intro unat_byte) simp
  show "2 \<le> h \<Longrightarrow> h < 32 \<Longrightarrow>
     utf8_decode (of_nat (0xC0 + h) # of_nat (0x80 + k0) # r) =
       map_option ((#) (h * 64 + k0)) (utf8_decode r)"
    using assms by (subst utf8_decode_2) (simp_all only: c0 mb in_range_def cont6_def, simp_all)
  show "h < 16 \<Longrightarrow> (h = 0 \<Longrightarrow> 32 \<le> k1) \<Longrightarrow> (h = 13 \<Longrightarrow> k1 < 32) \<Longrightarrow>
     utf8_decode (of_nat (0xE0 + h) # of_nat (0x80 + k1) # of_nat (0x80 + k0) # r) =
       map_option ((#) (h * 4096 + k1 * 64 + k0)) (utf8_decode r)"
    using assms by (subst utf8_decode_3) (simp_all only: e0 mb in_range_def cont6_def, auto)
  show "h < 5 \<Longrightarrow> (h = 0 \<Longrightarrow> 16 \<le> k2) \<Longrightarrow> (h = 4 \<Longrightarrow> k2 < 16) \<Longrightarrow>
     utf8_decode (of_nat (0xF0 + h) # of_nat (0x80 + k2) # of_nat (0x80 + k1) # of_nat (0x80 + k0) # r) =
       map_option ((#) (h * 262144 + k2 * 4096 + k1 * 64 + k0)) (utf8_decode r)"
    using assms by (subst utf8_decode_4) (simp_all only: f0 mb in_range_def cont6_def, auto)
qed

lemma split_base64:
  "c div 64 * 64 + c mod 64 = (c::nat)"
  "c div 4096 * 4096 + c div 64 mod 64 * 64 + c mod 64 = c"
  "c div 262144 * 262144 + c div 4096 mod 64 * 4096 + c div 64 mod 64 * 64 + c mod 64 = c"
proof -
  have join2: "q1 * 4096 + m1 * 64 + m0 = x" if "q1 * 64 + m1 = q" "q * 64 + m0 = x" for q1 m1 q m0 x :: nat
    using that by linarith
  have join3: "q2 * 262144 + m2 * 4096 + m1 * 64 + m0 = x"
    if "q2 * 64 + m2 = q1" "q1 * 4096 + m1 * 64 + m0 = x" for q2 m2 q1 m1 m0 x :: nat
    using that by linarith
  have d: "c div 4096 = c div 64 div 64" "c div 262144 = c div 4096 div 64"
    by (simp_all flip: div_mult2_eq)
  show "c div 64 * 64 + c mod 64 = c" by (rule div_mult_mod_eq)
  show *: "c div 4096 * 4096 + c div 64 mod 64 * 64 + c mod 64 = c"
    unfolding d(1) by (rule join2 [OF div_mult_mod_eq div_mult_mod_eq])
  show "c div 262144 * 262144 + c div 4096 mod 64 * 4096 + c div 64 mod 64 * 64 + c mod 64 = c"
    unfolding d(2) by (rule join3 [OF div_mult_mod_eq *])
qed

lemma utf8_decode_char:
  assumes "is_scalar c"
  shows "utf8_decode (utf8_char c @ bs) = map_option ((#) c) (utf8_decode bs)"
proof -
  have m: "c mod 64 < 64" "c div 64 mod 64 < 64" "c div 4096 mod 64 < 64" by simp_all
  note groups = utf8_decode_groups [OF m]
  consider (one) "c < 0x80" | (two) "0x80 \<le> c" "c < 0x800"
    | (three) "0x800 \<le> c" "c < 0x10000" | (four) "0x10000 \<le> c" "c < 0x110000"
    using assms by (fastforce simp: is_scalar_def)
  then show ?thesis
  proof cases
    case one
    then have "unat (of_nat c :: u8) = c" by (intro unat_byte) simp
    with one show ?thesis by (simp add: utf8_char_def utf8_decode_1)
  next
    case two
    then have d: "2 \<le> c div 64" "c div 64 < 32"
      using m split_base64(1) [of c] by linarith+
    have "utf8_char c = [of_nat (0xC0 + c div 64), of_nat (0x80 + c mod 64)]"
      using two by (simp only: utf8_char_def) simp
    then show ?thesis
      using groups(1) [OF d, of bs] by (simp only: append.simps split_base64)
  next
    case three
    then have "c div 4096 < 16" using m split_base64(2) [of c] by linarith
    moreover have "c div 4096 = 0 \<Longrightarrow> 32 \<le> c div 64 mod 64"
      and "c div 4096 = 13 \<Longrightarrow> c div 64 mod 64 < 32"
      using three assms m split_base64(2) [of c] unfolding is_scalar_def by linarith+
    moreover have "utf8_char c =
        [of_nat (0xE0 + c div 4096), of_nat (0x80 + c div 64 mod 64), of_nat (0x80 + c mod 64)]"
      using three by (simp only: utf8_char_def) simp
    ultimately show ?thesis
      using groups(2) [of "c div 4096" bs] by (simp only: append.simps split_base64)
  next
    case four
    then have "c div 262144 < 5" using m split_base64(3) [of c] by linarith
    moreover have "c div 262144 = 0 \<Longrightarrow> 16 \<le> c div 4096 mod 64"
      and "c div 262144 = 4 \<Longrightarrow> c div 4096 mod 64 < 16"
      using four m split_base64(3) [of c] by linarith+
    moreover have "utf8_char c =
        [of_nat (0xF0 + c div 262144), of_nat (0x80 + c div 4096 mod 64),
         of_nat (0x80 + c div 64 mod 64), of_nat (0x80 + c mod 64)]"
      using four by (simp only: utf8_char_def) simp
    ultimately show ?thesis
      using groups(3) [of "c div 262144" bs] by (simp only: append.simps split_base64)
  qed
qed

lemma utf8_roundtrip: "str_ok s \<Longrightarrow> utf8_decode (utf8_encode s) = Some s"
  by (induction s) (simp_all add: utf8_encode_def str_ok_def utf8_decode_char)

lemma utf8_char_nonempty: "0 < length (utf8_char c)"
  by (simp add: utf8_char_def)

text \<open>And only encodings are accepted: what \<^verbatim>\<open>from_utf8\<close> reads is written back byte for byte.\<close>

lemma utf8_char_groups:
  assumes "k0 < 64" "k1 < 64" "k2 < 64"
  shows "2 \<le> h \<Longrightarrow> h < 32 \<Longrightarrow> utf8_char (h * 64 + k0) = [of_nat (0xC0 + h), of_nat (0x80 + k0)]"
    and "h < 16 \<Longrightarrow> (h = 0 \<Longrightarrow> 32 \<le> k1) \<Longrightarrow>
      utf8_char (h * 4096 + k1 * 64 + k0) = [of_nat (0xE0 + h), of_nat (0x80 + k1), of_nat (0x80 + k0)]"
    and "h < 5 \<Longrightarrow> (h = 0 \<Longrightarrow> 16 \<le> k2) \<Longrightarrow>
      utf8_char (h * 262144 + k2 * 4096 + k1 * 64 + k0) =
        [of_nat (0xF0 + h), of_nat (0x80 + k2), of_nat (0x80 + k1), of_nat (0x80 + k0)]"
proof -
  have one: "(h * 64 + k0) div 64 = h" "(h * 64 + k0) mod 64 = k0" for h
    using assms(1) by simp_all
  have two: "(h * 4096 + k1 * 64 + k0) div 4096 = h" "(h * 4096 + k1 * 64 + k0) div 64 mod 64 = k1"
      "(h * 4096 + k1 * 64 + k0) mod 64 = k0" for h
    using assms(1,2) one [of "h * 64 + k1"] by (simp_all add: algebra_simps div_mult2_eq [of _ 64 64, simplified])
  have three: "(h * 262144 + k2 * 4096 + k1 * 64 + k0) div 262144 = h"
      "(h * 262144 + k2 * 4096 + k1 * 64 + k0) div 4096 mod 64 = k2"
      "(h * 262144 + k2 * 4096 + k1 * 64 + k0) div 64 mod 64 = k1"
      "(h * 262144 + k2 * 4096 + k1 * 64 + k0) mod 64 = k0" for h
    using assms two [of "h * 64 + k2"]
    by (simp_all add: algebra_simps div_mult2_eq [of _ 4096 64, simplified])
  show "2 \<le> h \<Longrightarrow> h < 32 \<Longrightarrow> utf8_char (h * 64 + k0) = [of_nat (0xC0 + h), of_nat (0x80 + k0)]"
    using assms(1) one [of h] by (simp add: utf8_char_def)
  show "h < 16 \<Longrightarrow> (h = 0 \<Longrightarrow> 32 \<le> k1) \<Longrightarrow>
      utf8_char (h * 4096 + k1 * 64 + k0) = [of_nat (0xE0 + h), of_nat (0x80 + k1), of_nat (0x80 + k0)]"
  proof -
    assume h: "h < 16" "h = 0 \<Longrightarrow> 32 \<le> k1"
    have "0x800 \<le> h * 4096 + k1 * 64 + k0" using h(2) by (cases "h = 0") simp_all
    moreover have "h * 4096 + k1 * 64 + k0 < 0x10000" using h(1) assms by simp
    ultimately show ?thesis unfolding utf8_char_def two by simp
  qed
  show "h < 5 \<Longrightarrow> (h = 0 \<Longrightarrow> 16 \<le> k2) \<Longrightarrow>
      utf8_char (h * 262144 + k2 * 4096 + k1 * 64 + k0) =
        [of_nat (0xF0 + h), of_nat (0x80 + k2), of_nat (0x80 + k1), of_nat (0x80 + k0)]"
  proof -
    assume h: "h < 5" "h = 0 \<Longrightarrow> 16 \<le> k2"
    have "0x10000 \<le> h * 262144 + k2 * 4096 + k1 * 64 + k0" using h(2) by (cases "h = 0") simp_all
    then show ?thesis unfolding utf8_char_def three by simp
  qed
qed

lemma byte_from: "lo \<le> unat b \<Longrightarrow> of_nat (lo + (unat b - lo)) = (b :: u8)"
  by simp

lemma cont_byte:
  assumes "in_range 0x80 0xBF b"
  shows "cont6 b < 64" and "of_nat (0x80 + cont6 b) = b"
  using assms byte_from [of "0x80" b] by (auto simp: in_range_def cont6_def)

lemma in_range_mono: "in_range lo hi b \<Longrightarrow> lo' \<le> lo \<Longrightarrow> hi \<le> hi' \<Longrightarrow> in_range lo' hi' b"
  by (simp add: in_range_def)

lemma utf8_decode_first:
  assumes "utf8_decode (b # bs) = Some s"
  shows "\<exists>c r t. b # bs = utf8_char c @ r \<and> is_scalar c \<and> s = c # t \<and> utf8_decode r = Some t"
proof -
  let ?n = "unat b"
  consider (one) "?n < 0x80"
    | (two) b1 r where "0xC2 \<le> ?n" "?n \<le> 0xDF" "bs = b1 # r" "in_range 0x80 0xBF b1"
    | (three) b1 b2 r where "0xE0 \<le> ?n" "?n \<le> 0xEF" "bs = b1 # b2 # r"
        "in_range (if ?n = 0xE0 then 0xA0 else 0x80) (if ?n = 0xED then 0x9F else 0xBF) b1" "in_range 0x80 0xBF b2"
    | (four) b1 b2 b3 r where "0xF0 \<le> ?n" "?n \<le> 0xF4" "bs = b1 # b2 # b3 # r"
        "in_range (if ?n = 0xF0 then 0x90 else 0x80) (if ?n = 0xF4 then 0x8F else 0xBF) b1"
        "in_range 0x80 0xBF b2" "in_range 0x80 0xBF b3"
    using assms by (auto simp: utf8_decode.simps(2) Let_def split: if_splits list.splits)
  then show ?thesis
  proof cases
    case one
    then have "utf8_char ?n = [b]" and "is_scalar ?n" by (simp_all add: utf8_char_def is_scalar_def)
    with assms one show ?thesis by (auto simp: utf8_decode_1)
  next
    case two
    let ?c = "(?n - 0xC0) * 64 + cont6 b1"
    note c1 = cont_byte [OF two(4)]
    have "utf8_char ?c = [b, b1]"
      using utf8_char_groups(1) [OF c1(1) c1(1) c1(1), of "?n - 0xC0"] byte_from [of "0xC0" b] two(1,2)
      unfolding c1(2) by simp
    moreover have "is_scalar ?c" using two(1,2) c1(1) unfolding is_scalar_def by linarith
    moreover obtain t where "s = ?c # t" "utf8_decode r = Some t"
      using assms unfolding two(3) utf8_decode_2 [OF two(1,2,4)] by auto
    ultimately show ?thesis using two(3) by auto
  next
    case three
    let ?c = "(?n - 0xE0) * 4096 + cont6 b1 * 64 + cont6 b2"
    have b1: "in_range 0x80 0xBF b1" using three(4) by (rule in_range_mono) simp_all
    note c1 = cont_byte [OF b1] and c2 = cont_byte [OF three(5)]
    have low: "?n - 0xE0 = 0 \<Longrightarrow> 32 \<le> cont6 b1" and high: "?n = 0xED \<Longrightarrow> cont6 b1 < 32"
      using three(1,4) by (auto simp: in_range_def cont6_def)
    have "utf8_char ?c = [b, b1, b2]"
      using utf8_char_groups(2) [OF c2(1) c1(1) c1(1), of "?n - 0xE0"] low byte_from [of "0xE0" b] three(1,2)
      unfolding c1(2) c2(2) by simp
    moreover have "is_scalar ?c"
    proof -
      have "?c < 0xD800 \<or> 0xE000 \<le> ?c"
      proof (cases "?n = 0xED")
        case True
        with high c2(1) show ?thesis by simp
      next
        case False
        then have "?n - 0xE0 \<le> 12 \<or> 14 \<le> ?n - 0xE0" by linarith
        then show ?thesis
        proof
          assume "?n - 0xE0 \<le> 12"
          then have "(?n - 0xE0) * 4096 \<le> 12 * 4096" by (rule mult_right_mono) simp
          with c1(1) c2(1) show ?thesis by linarith
        next
          assume "14 \<le> ?n - 0xE0"
          then have "14 * 4096 \<le> (?n - 0xE0) * 4096" by (rule mult_right_mono) simp
          then show ?thesis by linarith
        qed
      qed
      moreover have "(?n - 0xE0) * 4096 \<le> 15 * 4096" using three(2) by (intro mult_right_mono) simp_all
      ultimately show ?thesis using c1(1) c2(1) by (auto simp: is_scalar_def)
    qed
    moreover obtain t where "s = ?c # t" "utf8_decode r = Some t"
      using assms unfolding three(3) utf8_decode_3 [OF three(1,2,4,5)] by auto
    ultimately show ?thesis using three(3) by auto
  next
    case four
    let ?c = "(?n - 0xF0) * 262144 + cont6 b1 * 4096 + cont6 b2 * 64 + cont6 b3"
    have b1: "in_range 0x80 0xBF b1" using four(4) by (rule in_range_mono) simp_all
    note c1 = cont_byte [OF b1] and c2 = cont_byte [OF four(5)] and c3 = cont_byte [OF four(6)]
    have low: "?n - 0xF0 = 0 \<Longrightarrow> 16 \<le> cont6 b1" and high: "?n = 0xF4 \<Longrightarrow> cont6 b1 < 16"
      using four(1,4) by (auto simp: in_range_def cont6_def)
    have "utf8_char ?c = [b, b1, b2, b3]"
      using utf8_char_groups(3) [OF c3(1) c2(1) c1(1), of "?n - 0xF0"] low byte_from [of "0xF0" b] four(1,2)
      unfolding c1(2) c2(2) c3(2) by simp
    moreover have "is_scalar ?c"
    proof -
      have "0x10000 \<le> ?c"
      proof (cases "?n = 0xF0")
        case False
        with four(1) have "1 \<le> ?n - 0xF0" by simp
        then have "1 * 262144 \<le> (?n - 0xF0) * 262144" by (rule mult_right_mono) simp
        then show ?thesis by linarith
      qed (use low in simp)
      moreover have "?c < 0x110000"
      proof (cases "?n = 0xF4")
        case True
        with high c2(1) c3(1) show ?thesis by simp
      next
        case False
        with four(2) have "?n - 0xF0 \<le> 3" by simp
        then have "(?n - 0xF0) * 262144 \<le> 3 * 262144" by (rule mult_right_mono) simp
        with c1(1) c2(1) c3(1) show ?thesis by linarith
      qed
      ultimately show ?thesis by (simp add: is_scalar_def)
    qed
    moreover obtain t where "s = ?c # t" "utf8_decode r = Some t"
      using assms unfolding four(3) utf8_decode_4 [OF four(1,2,4,5,6)] by auto
    ultimately show ?thesis using four(3) by auto
  qed
qed

lemma utf8_decode_exact: "utf8_decode bs = Some s \<longleftrightarrow> str_ok s \<and> bs = utf8_encode s"
proof
  assume "utf8_decode bs = Some s"
  then show "str_ok s \<and> bs = utf8_encode s"
  proof (induction "length bs" arbitrary: bs s rule: less_induct)
    case less
    show ?case
    proof (cases bs)
      case Nil
      with less.prems show ?thesis by (simp add: str_ok_def utf8_encode_def)
    next
      case (Cons b bs')
      with less.prems utf8_decode_first [of b bs' s] obtain c r t where
        bs: "bs = utf8_char c @ r" "is_scalar c" "s = c # t" "utf8_decode r = Some t" by auto
      have "length r < length bs" using utf8_char_nonempty [of c] by (simp add: bs(1))
      from less.hyps [OF this bs(4)] bs show ?thesis by (simp add: str_ok_def utf8_encode_def)
    qed
  qed
qed (simp add: utf8_roundtrip)

interpretation utf8: codec utf8_encode utf8_decode str_ok
  by unfold_locales (rule utf8_roundtrip)

section \<open>Byte slices of a string\<close>

text \<open>
  \<^verbatim>\<open>&s[..n]\<close> panics when the byte offset \<open>n\<close> is past the end or inside a character.
\<close>

fun slice_to :: "nat \<Rightarrow> rstr \<Rightarrow> rstr outcome" where
  "slice_to n [] = (if n = 0 then Ret [] else Panic)"
| "slice_to n (c # s) =
     (if n = 0 then Ret []
      else if length (utf8_char c) \<le> n
        then bind_outcome (slice_to (n - length (utf8_char c)) s) (\<lambda>t. Ret (c # t))
      else Panic)"

lemma utf8_char_ascii [simp]: "c < 128 \<Longrightarrow> length (utf8_char c) = 1"
  by (simp add: utf8_char_def)

lemma utf8_char_pos: "0 < length (utf8_char c)"
  by (simp add: utf8_char_def)

lemma str_len_simps [simp]:
  "str_len [] = 0"
  "str_len (c # s) = length (utf8_char c) + str_len s"
  "str_len (s @ t) = str_len s + str_len t"
  by (simp_all add: str_len_def utf8_encode_def)

lemma str_len_ascii: "list_all (\<lambda>c. c < 128) s \<Longrightarrow> str_len s = length s"
  by (induction s) simp_all

lemma slice_to_iff:
  "slice_to n s \<noteq> Panic \<longleftrightarrow> (\<exists>k \<le> length s. str_len (take k s) = n)"
proof (induction n s rule: slice_to.induct)
  case (1 n)
  then show ?case by simp
next
  case (2 n c s)
  show ?case
  proof (cases "n = 0")
    case True
    then have "str_len (take 0 (c # s)) = n" by simp
    with True show ?thesis by (metis le0 outcome.distinct(1) slice_to.simps(2))
  next
    case False
    have "(\<exists>k \<le> length (c # s). str_len (take k (c # s)) = n) \<longleftrightarrow>
        (\<exists>k \<le> length s. length (utf8_char c) + str_len (take k s) = n)"
    proof
      assume "\<exists>k \<le> length (c # s). str_len (take k (c # s)) = n"
      then obtain k where k: "k \<le> length (c # s)" "str_len (take k (c # s)) = n" by blast
      with False obtain j where "k = Suc j" by (cases k) simp_all
      with k show "\<exists>k \<le> length s. length (utf8_char c) + str_len (take k s) = n" by auto
    next
      assume "\<exists>k \<le> length s. length (utf8_char c) + str_len (take k s) = n"
      then obtain k where "k \<le> length s" "length (utf8_char c) + str_len (take k s) = n" by blast
      then show "\<exists>k \<le> length (c # s). str_len (take k (c # s)) = n"
        by (intro exI [of _ "Suc k"]) simp
    qed
    also have "\<dots> \<longleftrightarrow> length (utf8_char c) \<le> n \<and>
        (\<exists>k \<le> length s. str_len (take k s) = n - length (utf8_char c))"
      by auto
    finally show ?thesis
      using False 2 by (auto simp: outcome_not_Panic bind_outcome_Ret_iff)
  qed
qed

lemma slice_to_ascii:
  "list_all (\<lambda>c. c < 128) s \<Longrightarrow> n \<le> length s \<Longrightarrow> slice_to n s = Ret (take n s)"
proof (induction n s rule: slice_to.induct)
  case (1 n)
  then show ?case by simp
next
  case (2 n c s)
  then show ?case by (cases n) simp_all
qed

section \<open>Trimming, splitting, joining\<close>

definition trim :: "rstr \<Rightarrow> rstr" where
  "trim s = rev (dropWhile is_whitespace (rev (dropWhile is_whitespace s)))"

lemma dropWhile_none: "list_all (\<lambda>c. \<not> P c) s \<Longrightarrow> dropWhile P s = s"
  by (cases s) simp_all

lemma trim_none: "list_all (\<lambda>c. \<not> is_whitespace c) s \<Longrightarrow> trim s = s"
  by (simp add: trim_def dropWhile_none list_all_iff)

lemma trim_Cons_whitespace: "is_whitespace c \<Longrightarrow> trim (c # s) = trim s"
  by (simp add: trim_def)

lemma set_trim: "set (trim s) \<subseteq> set s"
  unfolding trim_def by (auto dest!: set_dropWhileD)

lemma dropWhile_hd: "s \<noteq> [] \<Longrightarrow> \<not> P (hd s) \<Longrightarrow> dropWhile P s = s"
  by (cases s) simp_all

lemma trim_idem [simp]: "trim (trim s) = trim s"
proof (cases "trim s = []")
  case True
  have "trim [] = []" by (simp add: trim_def)
  with True show ?thesis by simp
next
  case False
  let ?u = "dropWhile is_whitespace s"
  have u: "?u = trim s @ rev (takeWhile is_whitespace (rev ?u))"
    by (metis trim_def rev_append rev_rev_ident takeWhile_dropWhile_id)
  then have "?u \<noteq> []" and "hd ?u = hd (trim s)" using False by (metis append_is_Nil_conv, metis hd_append)
  with hd_dropWhile [of is_whitespace s] have "\<not> is_whitespace (hd (trim s))"
    by simp
  moreover have "\<not> is_whitespace (hd (rev (trim s)))"
    using False hd_dropWhile [of is_whitespace "rev ?u"] by (simp add: trim_def)
  ultimately show ?thesis
    using False unfolding trim_def [of "trim s"] by (simp add: dropWhile_hd)
qed

fun split_on :: "nat \<Rightarrow> rstr \<Rightarrow> rstr list" where
  "split_on d [] = [[]]"
| "split_on d (c # cs) =
     (if c = d then [] # split_on d cs
      else (case split_on d cs of [] \<Rightarrow> [[c]] | p # ps \<Rightarrow> (c # p) # ps))"

fun join_with :: "rstr \<Rightarrow> rstr list \<Rightarrow> rstr" where
  "join_with sep [] = []"
| "join_with sep [s] = s"
| "join_with sep (s # t # ts) = s @ sep @ join_with sep (t # ts)"

lemma split_on_not_Nil: "split_on d s \<noteq> []"
  by (cases s) (auto split: list.splits)

lemma split_on_none: "d \<notin> set s \<Longrightarrow> split_on d s = [s]"
  by (induction s) auto

lemma split_on_append: "d \<notin> set s \<Longrightarrow> split_on d (s @ d # t) = s # split_on d t"
  by (induction s) auto

lemma map_split_on_join:
  assumes "\<forall>s \<in> set ps. d \<notin> set s" and "ps \<noteq> []"
  shows "split_on d (join_with (d # sep) ps) =
    hd ps # (if tl ps = [] then [] else split_on d (sep @ join_with (d # sep) (tl ps)))"
  using assms by (cases ps; cases "tl ps") (auto simp: split_on_none split_on_append)

section \<open>Searching\<close>

text \<open>\<^verbatim>\<open>str::contains\<close> with a string pattern.\<close>

fun str_contains :: "rstr \<Rightarrow> rstr \<Rightarrow> bool" where
  "str_contains [] pat = (pat = [])"
| "str_contains (c # s) pat = (take (length pat) (c # s) = pat \<or> str_contains s pat)"

lemma str_contains_iff: "str_contains s pat \<longleftrightarrow> (\<exists>a b. s = a @ pat @ b)"
proof (induction s)
  case Nil
  then show ?case by simp
next
  case (Cons c s)
  have "take (length pat) (c # s) = pat \<longleftrightarrow> (\<exists>b. c # s = pat @ b)"
    by (metis append_eq_conv_conj append_take_drop_id)
  then show ?case using Cons by (auto simp: Cons_eq_append_conv)
qed

section \<open>Formatting numbers\<close>

text \<open>\<^verbatim>\<open>{}\<close> for an unsigned integer and \<^verbatim>\<open>{:02X}\<close> for a byte.\<close>

fun show_nat :: "nat \<Rightarrow> rstr" where
  "show_nat n = (if n < 10 then [48 + n] else show_nat (n div 10) @ [48 + n mod 10])"

declare show_nat.simps [simp del]

definition hex_digit :: "nat \<Rightarrow> nat" where
  "hex_digit n = (if n < 10 then 48 + n else 55 + n)"

definition show_hex2 :: "nat \<Rightarrow> rstr" where
  "show_hex2 n = [hex_digit (n div 16 mod 16), hex_digit (n mod 16)]"

lemma show_nat_digits: "\<forall>c \<in> set (show_nat n). 48 \<le> c \<and> c \<le> 57"
proof (induction n rule: show_nat.induct)
  case (1 n)
  then show ?case by (subst show_nat.simps) auto
qed

text \<open>Reading digits back; \<^verbatim>\<open>str::parse\<close> on a string of decimal digits.\<close>

definition digits_value :: "rstr \<Rightarrow> nat" where
  "digits_value s = foldl (\<lambda>a c. a * 10 + (c - 48)) 0 s"

lemma digits_value_show: "digits_value (show_nat n) = n"
proof (induction n rule: show_nat.induct)
  case (1 n)
  then show ?case
    by (cases "n < 10") (simp_all add: digits_value_def show_nat.simps [of n])
qed

interpretation decimal: codec show_nat "\<lambda>s. Some (digits_value s)" "\<lambda>n. True"
  by unfold_locales (simp add: digits_value_show)

end
