(* ===== verification/Errors.thy ===== *)
theory Errors
  imports RustStr
begin

text \<open>
  \<^verbatim>\<open>src/src/error.rs\<close>: the error type of the crate, its constructors, the classification of
  errors for retrying and reconnecting, and its \<^verbatim>\<open>Display\<close>. \<^verbatim>\<open>Result<T>\<close> is a sum with the
  error on the left. \<^verbatim>\<open>RateLimitType\<close> of \<^verbatim>\<open>src/src/ratelimit.rs\<close> stands here because an
  error carries it.
\<close>

section \<open>Rate-limit types\<close>

datatype rate_limit_type = RL_Message | RL_Byte | RL_Operation

text \<open>\<^verbatim>\<open>RateLimitType::all\<close>.\<close>

definition rate_limit_types_all :: "rate_limit_type list" where
  "rate_limit_types_all = [RL_Message, RL_Byte, RL_Operation]"

instantiation rate_limit_type :: enum
begin

definition enum_rate_limit_type :: "rate_limit_type list" where
  "enum_rate_limit_type = rate_limit_types_all"

definition enum_all_rate_limit_type :: "(rate_limit_type \<Rightarrow> bool) \<Rightarrow> bool" where
  "enum_all_rate_limit_type P \<longleftrightarrow> P RL_Message \<and> P RL_Byte \<and> P RL_Operation"

definition enum_ex_rate_limit_type :: "(rate_limit_type \<Rightarrow> bool) \<Rightarrow> bool" where
  "enum_ex_rate_limit_type P \<longleftrightarrow> P RL_Message \<or> P RL_Byte \<or> P RL_Operation"

lemma UNIV_rate_limit_type: "UNIV = {RL_Message, RL_Byte, RL_Operation}"
  by (auto intro: rate_limit_type.exhaust)

instance
  by standard
    (simp_all add: enum_rate_limit_type_def rate_limit_types_all_def UNIV_rate_limit_type
      enum_all_rate_limit_type_def enum_ex_rate_limit_type_def)

end

section \<open>The error type\<close>

text \<open>
  \<open>Io\<close> carries the rendered \<^verbatim>\<open>io::Error\<close>, \<open>Utf8Error\<close> the bytes that are not UTF-8 (as
  \<^verbatim>\<open>FromUtf8Error\<close> does), \<open>RateLimitExceeded\<close> the type and the duration to wait.
\<close>

datatype ws_error =
    ConnectionFailed rstr
  | ConnectionClosed
  | ReconnectTimeout
  | InvalidFrame rstr
  | MessageTooLarge nat nat
  | Utf8Error bytes
  | ProtocolViolation rstr
  | HandshakeFailed rstr
  | Io rstr
  | WebSocket rstr
  | InvalidUrl rstr
  | BufferFull
  | BackpressureTimeout
  | AuthenticationFailed rstr
  | Tls rstr
  | NotSupported rstr
  | InvalidState rstr
  | Timeout
  | InvalidSubprotocol rstr
  | SubprotocolNegotiationFailed rstr
  | RateLimitExceeded rate_limit_type duration
  | ConnectionLimitExceeded u64 u64

type_synonym 'a result = "ws_error + 'a"

abbreviation Ok :: "'a \<Rightarrow> 'a result" where
  "Ok \<equiv> Inr"

abbreviation Err :: "ws_error \<Rightarrow> 'a result" where
  "Err \<equiv> Inl"

text \<open>The \<^verbatim>\<open>?\<close> operator.\<close>

definition try_then :: "'a result \<Rightarrow> ('a \<Rightarrow> 'b result) \<Rightarrow> 'b result" where
  "try_then r f = (case r of Inl e \<Rightarrow> Inl e | Inr x \<Rightarrow> f x)"

lemma try_then_simps [simp]:
  "try_then (Err e) f = Err e"
  "try_then (Ok x) f = f x"
  by (simp_all add: try_then_def)

lemma try_then_Ok_iff: "try_then r f = Ok y \<longleftrightarrow> (\<exists>x. r = Ok x \<and> f x = Ok y)"
  by (cases r) auto

definition is_retryable :: "ws_error \<Rightarrow> bool" where
  "is_retryable e =
     (case e of Io _ \<Rightarrow> True | ConnectionClosed \<Rightarrow> True | Timeout \<Rightarrow> True | Tls _ \<Rightarrow> True | _ \<Rightarrow> False)"

definition should_reconnect_error :: "ws_error \<Rightarrow> bool" where
  "should_reconnect_error e =
     (case e of Io _ \<Rightarrow> True | ConnectionClosed \<Rightarrow> True | Timeout \<Rightarrow> True | _ \<Rightarrow> False)"

lemma should_reconnect_retryable:
  "should_reconnect_error e \<longleftrightarrow> is_retryable e \<and> \<not> (\<exists>m. e = Tls m)"
  by (cases e) (simp_all add: should_reconnect_error_def is_retryable_def)

text \<open>The constructor helpers.\<close>

definition connection_failed :: "rstr \<Rightarrow> ws_error" where
  "connection_failed msg = ConnectionFailed msg"

definition invalid_frame :: "rstr \<Rightarrow> ws_error" where
  "invalid_frame msg = InvalidFrame msg"

definition protocol_violation :: "rstr \<Rightarrow> ws_error" where
  "protocol_violation msg = ProtocolViolation msg"

definition handshake_failed :: "rstr \<Rightarrow> ws_error" where
  "handshake_failed msg = HandshakeFailed msg"

definition invalid_url :: "rstr \<Rightarrow> ws_error" where
  "invalid_url msg = InvalidUrl msg"

definition authentication_failed :: "rstr \<Rightarrow> ws_error" where
  "authentication_failed msg = AuthenticationFailed msg"

definition tls_error :: "rstr \<Rightarrow> ws_error" where
  "tls_error msg = Tls msg"

definition not_supported :: "rstr \<Rightarrow> ws_error" where
  "not_supported msg = NotSupported msg"

definition invalid_state :: "rstr \<Rightarrow> ws_error" where
  "invalid_state msg = InvalidState msg"

section \<open>Display\<close>

definition show_rate_limit_type :: "rate_limit_type \<Rightarrow> rstr" where
  "show_rate_limit_type t =
     (case t of RL_Message \<Rightarrow> lit ''Message'' | RL_Byte \<Rightarrow> lit ''Byte'' | RL_Operation \<Rightarrow> lit ''Operation'')"

text \<open>
  The rendering of a \<^verbatim>\<open>FromUtf8Error\<close> (\<open>um\<close>) and the \<^verbatim>\<open>Debug\<close> form of a \<^verbatim>\<open>Duration\<close>
  (\<open>dd\<close>) are the standard library's.
\<close>

definition error_display :: "(bytes \<Rightarrow> rstr) \<Rightarrow> (duration \<Rightarrow> rstr) \<Rightarrow> ws_error \<Rightarrow> rstr" where
  "error_display um dd e =
     (case e of
        ConnectionFailed m \<Rightarrow> lit ''Connection failed: '' @ m
      | ConnectionClosed \<Rightarrow> lit ''Connection closed''
      | ReconnectTimeout \<Rightarrow> lit ''Reconnection timeout''
      | InvalidFrame m \<Rightarrow> lit ''Invalid frame: '' @ m
      | MessageTooLarge sz mx \<Rightarrow>
          lit ''Message too large: '' @ show_nat sz @ lit '' bytes (max '' @ show_nat mx @ lit '' bytes)''
      | Utf8Error b \<Rightarrow> lit ''UTF-8 error: '' @ um b
      | ProtocolViolation m \<Rightarrow> lit ''Protocol violation: '' @ m
      | HandshakeFailed m \<Rightarrow> lit ''Handshake failed: '' @ m
      | Io m \<Rightarrow> lit ''I/O error: '' @ m
      | WebSocket m \<Rightarrow> lit ''WebSocket error: '' @ m
      | InvalidUrl m \<Rightarrow> lit ''Invalid URL: '' @ m
      | BufferFull \<Rightarrow> lit ''Buffer full''
      | BackpressureTimeout \<Rightarrow> lit ''Backpressure timeout''
      | AuthenticationFailed m \<Rightarrow> lit ''Authentication failed: '' @ m
      | Tls m \<Rightarrow> lit ''TLS error: '' @ m
      | NotSupported m \<Rightarrow> lit ''Operation not supported: '' @ m
      | InvalidState m \<Rightarrow> lit ''Invalid state: '' @ m
      | Timeout \<Rightarrow> lit ''Operation timed out''
      | InvalidSubprotocol m \<Rightarrow> lit ''Invalid subprotocol: '' @ m
      | SubprotocolNegotiationFailed m \<Rightarrow> lit ''Subprotocol negotiation failed: '' @ m
      | RateLimitExceeded t d \<Rightarrow>
          lit ''Rate limit exceeded for '' @ show_rate_limit_type t @ lit '', retry after '' @ dd d
      | ConnectionLimitExceeded current limit \<Rightarrow>
          lit ''Connection limit exceeded: '' @ show_nat (unat current) @
          lit '' connections (max '' @ show_nat (unat limit) @ lit '')'')"

end
