(* ===== verification/Messages.thy ===== *)
theory Messages
  imports Errors
begin

text \<open>
  \<^verbatim>\<open>src/src/message.rs\<close>: message types, messages, frames, and the rendering of a message.
  A payload (\<^verbatim>\<open>Bytes\<close>) is a list of bytes.
\<close>

section \<open>Message types\<close>

datatype message_type = Text | Binary | Ping | Pong | Close | Continuation

definition show_message_type :: "message_type \<Rightarrow> rstr" where
  "show_message_type t =
     (case t of
        Text \<Rightarrow> lit ''text''
      | Binary \<Rightarrow> lit ''binary''
      | Ping \<Rightarrow> lit ''ping''
      | Pong \<Rightarrow> lit ''pong''
      | Close \<Rightarrow> lit ''close''
      | Continuation \<Rightarrow> lit ''continuation'')"

section \<open>Messages\<close>

record message =
  msg_type :: message_type
  payload :: bytes

definition message_text :: "rstr \<Rightarrow> message" where
  "message_text s = \<lparr>msg_type = Text, payload = utf8_encode s\<rparr>"

definition message_binary :: "bytes \<Rightarrow> message" where
  "message_binary b = \<lparr>msg_type = Binary, payload = b\<rparr>"

definition message_ping :: "bytes \<Rightarrow> message" where
  "message_ping b = \<lparr>msg_type = Ping, payload = b\<rparr>"

definition message_pong :: "bytes \<Rightarrow> message" where
  "message_pong b = \<lparr>msg_type = Pong, payload = b\<rparr>"

definition message_close :: "u16 option \<Rightarrow> rstr option \<Rightarrow> message" where
  "message_close code reason =
     \<lparr>msg_type = Close,
      payload =
        (case code of
           None \<Rightarrow> []
         | Some c \<Rightarrow>
             to_be 2 (unat c) @ (case reason of None \<Rightarrow> [] | Some r \<Rightarrow> utf8_encode r))\<rparr>"

definition as_text :: "message \<Rightarrow> rstr result" where
  "as_text m =
     (if msg_type m \<noteq> Text
      then Err (InvalidFrame (lit ''Expected text message, got '' @ show_message_type (msg_type m)))
      else (case utf8_decode (payload m) of
              None \<Rightarrow> Err (Utf8Error (payload m))
            | Some s \<Rightarrow> Ok s))"

definition is_text :: "message \<Rightarrow> bool" where
  "is_text m \<longleftrightarrow> msg_type m = Text"

definition is_binary :: "message \<Rightarrow> bool" where
  "is_binary m \<longleftrightarrow> msg_type m = Binary"

definition is_ping :: "message \<Rightarrow> bool" where
  "is_ping m \<longleftrightarrow> msg_type m = Ping"

definition is_pong :: "message \<Rightarrow> bool" where
  "is_pong m \<longleftrightarrow> msg_type m = Pong"

definition is_close :: "message \<Rightarrow> bool" where
  "is_close m \<longleftrightarrow> msg_type m = Close"

definition message_len :: "message \<Rightarrow> nat" where
  "message_len m = length (payload m)"

definition message_is_empty :: "message \<Rightarrow> bool" where
  "message_is_empty m \<longleftrightarrow> payload m = []"

text \<open>
  JSON goes through \<^verbatim>\<open>serde_json\<close>, which is not part of the repository: \<open>ser\<close> and \<open>de\<close>
  are its serialiser and parser, each with the rendered error on the left.
\<close>

definition message_json :: "('a \<Rightarrow> rstr + rstr) \<Rightarrow> 'a \<Rightarrow> message result" where
  "message_json ser v =
     (case ser v of
        Inl e \<Rightarrow> Err (InvalidFrame (lit ''JSON serialization failed: '' @ e))
      | Inr json \<Rightarrow> Ok (message_text json))"

definition parse_json :: "(bytes \<Rightarrow> rstr + 'a) \<Rightarrow> message \<Rightarrow> 'a result" where
  "parse_json de m =
     (if msg_type m \<noteq> Text
      then Err (InvalidFrame (lit ''Cannot parse '' @ show_message_type (msg_type m) @ lit '' as JSON''))
      else (case de (payload m) of
              Inl e \<Rightarrow> Err (InvalidFrame (lit ''JSON deserialization failed: '' @ e))
            | Inr v \<Rightarrow> Ok v))"

text \<open>\<^verbatim>\<open>Display for Message\<close>: the preview slices the text at byte 50.\<close>

definition message_display :: "message \<Rightarrow> rstr outcome" where
  "message_display m =
     (let head = show_message_type (msg_type m) @ lit '' ('' @ show_nat (message_len m) @ lit '' bytes)'' in
      if is_text m then
        (case as_text m of
           Inl _ \<Rightarrow> Ret head
         | Inr text \<Rightarrow>
             bind_outcome
               (if 50 < str_len text
                then bind_outcome (slice_to 50 text) (\<lambda>p. Ret (p @ lit ''...''))
                else Ret text)
               (\<lambda>preview. Ret (head @ lit '': '' @ preview)))
      else Ret head)"

definition message_binary_from_slice :: "bytes \<Rightarrow> message" where
  "message_binary_from_slice b = \<lparr>msg_type = Binary, payload = b\<rparr>"

definition as_bytes :: "message \<Rightarrow> bytes" where
  "as_bytes m = payload m"

definition message_payload :: "message \<Rightarrow> bytes" where
  "message_payload m = payload m"

definition message_msg_type :: "message \<Rightarrow> message_type" where
  "message_msg_type m = msg_type m"

text \<open>The conversions with \<^verbatim>\<open>From\<close>.\<close>

definition message_from_string :: "rstr \<Rightarrow> message" where
  "message_from_string s = message_text s"

definition message_from_str :: "rstr \<Rightarrow> message" where
  "message_from_str s = message_text s"

definition message_from_vec :: "bytes \<Rightarrow> message" where
  "message_from_vec b = message_binary b"

definition message_from_slice :: "bytes \<Rightarrow> message" where
  "message_from_slice b = message_binary_from_slice b"

section \<open>Frames\<close>

record frame =
  fin :: bool
  rsv1 :: bool
  rsv2 :: bool
  rsv3 :: bool
  opcode :: u8
  frame_payload :: bytes

definition frame_new :: "bool \<Rightarrow> u8 \<Rightarrow> bytes \<Rightarrow> frame" where
  "frame_new f op p =
     \<lparr>fin = f, rsv1 = False, rsv2 = False, rsv3 = False, opcode = op, frame_payload = p\<rparr>"

definition with_compression :: "bool \<Rightarrow> frame \<Rightarrow> frame" where
  "with_compression c f = f\<lparr>rsv1 := c\<rparr>"

definition is_compressed :: "frame \<Rightarrow> bool" where
  "is_compressed f = rsv1 f"

definition frame_len :: "frame \<Rightarrow> nat" where
  "frame_len f = length (frame_payload f)"

definition frame_is_empty :: "frame \<Rightarrow> bool" where
  "frame_is_empty f \<longleftrightarrow> frame_payload f = []"

definition is_final :: "frame \<Rightarrow> bool" where
  "is_final f = fin f"

lemma frame_new_simps [simp]:
  "fin (frame_new f op p) = f"
  "opcode (frame_new f op p) = op"
  "frame_payload (frame_new f op p) = p"
  by (simp_all add: frame_new_def)

definition frame_opcode :: "frame \<Rightarrow> u8" where
  "frame_opcode f = opcode f"

section \<open>Properties\<close>

lemma as_text_message_text: "str_ok s \<Longrightarrow> as_text (message_text s) = Ok s"
  by (simp add: as_text_def message_text_def utf8_roundtrip)

lemma as_text_exact: "as_text m = Ok t \<longleftrightarrow> str_ok t \<and> m = message_text t"
proof -
  have "as_text m = Ok t \<longleftrightarrow> msg_type m = Text \<and> utf8_decode (payload m) = Some t"
    by (cases "utf8_decode (payload m)") (simp_all add: as_text_def)
  then show ?thesis by (cases m) (auto simp: utf8_decode_exact message_text_def)
qed

text \<open>A message reads as a text exactly when it is the text message of that text (no other type
  and no other bytes do), and different texts are different messages; a close message carries its code big-endian in the first two
  bytes and its reason in the others.\<close>

theorem message_text_roundtrip:
  assumes "str_ok s" and "str_ok s'"
  shows "as_text (message_text s) = Ok s \<and>
         (message_text s = message_text s' \<longleftrightarrow> s = s') \<and>
         (\<forall>m t. as_text m = Ok t \<longleftrightarrow> str_ok t \<and> m = message_text t) \<and>
         decode_be 2 (take 2 (payload (message_close (Some c) (Some s)))) = Some (unat c) \<and>
         utf8_decode (drop 2 (payload (message_close (Some c) (Some s)))) = Some s"
proof -
  have "unat c < 256 ^ 2" using unat_less_two_power [of c] by simp
  then have "decode_be 2 (to_be 2 (unat c)) = Some (unat c)" by (rule be.dec_enc)
  then show ?thesis
    using assms utf8.enc_inject [of s s']
    by (auto simp: as_text_exact message_close_def utf8_roundtrip) (simp_all add: message_text_def)
qed

theorem message_text_roundtrip_witness:
  "as_text (message_text [104, 233, 0x1F600]) = Ok [104, 233, 0x1F600]"
  using message_text_roundtrip [of "[104, 233, 0x1F600]" "[]"]
  by (simp add: str_ok_def is_scalar_def)

text \<open>Rendering a message panics exactly for a text of more than 50 bytes that has no character
  boundary at byte 50.\<close>

theorem message_display_panics:
  "message_display m = Panic \<longleftrightarrow>
     (\<exists>s. as_text m = Ok s \<and> 50 < str_len s \<and> (\<forall>k \<le> length s. str_len (take k s) \<noteq> 50))"
proof (cases "as_text m")
  case (Inl e)
  then show ?thesis by (simp add: message_display_def Let_def)
next
  case (Inr s)
  then have "is_text m" by (auto simp: as_text_def is_text_def split: if_splits)
  with Inr slice_to_iff [of 50 s] show ?thesis
    by (auto simp: message_display_def Let_def bind_outcome_Panic_iff)
qed

theorem message_display_panics_witness:
  "message_display (message_text (97 # replicate 25 233)) = Panic"
proof -
  let ?s = "97 # replicate 25 (233 :: nat)"
  have "str_ok ?s" by (simp add: str_ok_def is_scalar_def list_all_iff)
  then have t: "as_text (message_text ?s) = Ok ?s" by (rule as_text_message_text)
  have len: "str_len (replicate n (233 :: nat)) = 2 * n" for n
    by (induction n) (simp_all add: utf8_char_def)
  have "str_len (take k ?s) \<noteq> 50" for k
    by (cases k) (simp_all add: len utf8_char_def, presburger)
  with t show ?thesis
    by (subst message_display_panics) (simp add: len utf8_char_def)
qed

end
