(* ===== verification/Fragmentation.thy ===== *)
theory Fragmentation
  imports Messages
begin

text \<open>
  \<^verbatim>\<open>src/src/fragmentation.rs\<close>: the fragmenter, partial messages and the reassembler. The
  reassembler's \<^verbatim>\<open>Arc<Mutex<HashMap<..>>>\<close> is one map; every operation takes the reading of
  the clock it uses. The specification \<open>ingest_one\<close> is what one connection sees, and the
  reassembler is shown to be a keyed machine over it.
\<close>

section \<open>Constants\<close>

definition DEFAULT_MAX_FRAME_SIZE :: nat where
  "DEFAULT_MAX_FRAME_SIZE = 16 * 1024"

definition DEFAULT_REASSEMBLY_TIMEOUT :: duration where
  "DEFAULT_REASSEMBLY_TIMEOUT = secs 5"

definition OPCODE_CONTINUATION :: u8 where "OPCODE_CONTINUATION = 0"
definition OPCODE_TEXT :: u8 where "OPCODE_TEXT = 1"
definition OPCODE_BINARY :: u8 where "OPCODE_BINARY = 2"
definition OPCODE_CLOSE :: u8 where "OPCODE_CLOSE = 8"
definition OPCODE_PING :: u8 where "OPCODE_PING = 9"
definition OPCODE_PONG :: u8 where "OPCODE_PONG = 10"

lemmas opcode_defs = OPCODE_CONTINUATION_def OPCODE_TEXT_def OPCODE_BINARY_def
  OPCODE_CLOSE_def OPCODE_PING_def OPCODE_PONG_def

type_synonym connection_id = u64

section \<open>Fragmenter\<close>

record fragmenter =
  max_frame_size :: nat

definition fragmenter_new :: "nat \<Rightarrow> fragmenter outcome" where
  "fragmenter_new mx = (if 125 \<le> mx then Ret \<lparr>max_frame_size = mx\<rparr> else Panic)"

definition message_opcode :: "message_type \<Rightarrow> u8" where
  "message_opcode t =
     (case t of
        Text \<Rightarrow> OPCODE_TEXT
      | Binary \<Rightarrow> OPCODE_BINARY
      | Ping \<Rightarrow> OPCODE_PING
      | Pong \<Rightarrow> OPCODE_PONG
      | Close \<Rightarrow> OPCODE_CLOSE
      | Continuation \<Rightarrow> OPCODE_CONTINUATION)"

definition first_fragment_opcode :: "message_type \<Rightarrow> u8" where
  "first_fragment_opcode t =
     (case t of Text \<Rightarrow> OPCODE_TEXT | Binary \<Rightarrow> OPCODE_BINARY | _ \<Rightarrow> OPCODE_BINARY)"

definition split_message :: "fragmenter \<Rightarrow> message \<Rightarrow> frame list" where
  "split_message f m =
     (let payload_len = length (payload m) in
      if payload_len \<le> max_frame_size f
      then [frame_new True (message_opcode (msg_type m)) (payload m)]
      else
        (let chunk_count = div_ceil payload_len (max_frame_size f) in
         map (\<lambda>(i, chunk).
                let is_first = (i = 0); is_last = (i = chunk_count - 1);
                    op = (if is_first then first_fragment_opcode (msg_type m) else OPCODE_CONTINUATION)
                in frame_new is_last op chunk)
           (enumerate 0 (chunks (max_frame_size f) (payload m)))))"

definition calculate_frame_count :: "fragmenter \<Rightarrow> nat \<Rightarrow> nat" where
  "calculate_frame_count f n = (if n \<le> max_frame_size f then 1 else div_ceil n (max_frame_size f))"

definition needs_fragmentation :: "fragmenter \<Rightarrow> message \<Rightarrow> bool" where
  "needs_fragmentation f m \<longleftrightarrow> message_len m > max_frame_size f"

definition fragmenter_default :: "fragmenter outcome" where
  "fragmenter_default = fragmenter_new DEFAULT_MAX_FRAME_SIZE"

definition fragmenter_max_frame_size :: "fragmenter \<Rightarrow> nat" where
  "fragmenter_max_frame_size f = max_frame_size f"

section \<open>Partial messages\<close>

record partial_message =
  pm_opcode :: u8
  pm_fragments :: "bytes list"
  pm_received_at :: instant
  pm_total_size :: nat

definition partial_new :: "instant \<Rightarrow> u8 \<Rightarrow> bytes \<Rightarrow> partial_message" where
  "partial_new now op b =
     \<lparr>pm_opcode = op, pm_fragments = [b], pm_received_at = now, pm_total_size = length b\<rparr>"

definition add_fragment :: "bytes \<Rightarrow> partial_message \<Rightarrow> partial_message" where
  "add_fragment b p =
     p\<lparr>pm_total_size := pm_total_size p + length b, pm_fragments := pm_fragments p @ [b]\<rparr>"

definition is_expired :: "instant \<Rightarrow> duration \<Rightarrow> partial_message \<Rightarrow> bool" where
  "is_expired now timeout p \<longleftrightarrow> elapsed now (pm_received_at p) > timeout"

definition assemble :: "partial_message \<Rightarrow> message" where
  "assemble p =
     \<lparr>msg_type = (if pm_opcode p = OPCODE_TEXT then Text else Binary),
      payload = concat (pm_fragments p)\<rparr>"

definition partial_total_size :: "partial_message \<Rightarrow> nat" where
  "partial_total_size p = pm_total_size p"

section \<open>Reassembler\<close>

record reassembler =
  incomplete :: "(connection_id, partial_message) hmap"
  reassembly_timeout :: duration

definition reassembler_new :: "duration \<Rightarrow> reassembler" where
  "reassembler_new d = \<lparr>incomplete = hm_empty, reassembly_timeout = d\<rparr>"

definition reassembler_default :: reassembler where
  "reassembler_default = reassembler_new DEFAULT_REASSEMBLY_TIMEOUT"

definition is_control_frame :: "u8 \<Rightarrow> bool" where
  "is_control_frame op \<longleftrightarrow> op = OPCODE_CLOSE \<or> op = OPCODE_PING \<or> op = OPCODE_PONG"

definition unknown_opcode :: "u8 \<Rightarrow> ws_error" where
  "unknown_opcode op = InvalidFrame (lit ''Unknown opcode: 0x'' @ show_hex2 (unat op))"

definition frame_to_message :: "frame \<Rightarrow> message result" where
  "frame_to_message f =
     (if opcode f = OPCODE_TEXT then Ok \<lparr>msg_type = Text, payload = frame_payload f\<rparr>
      else if opcode f = OPCODE_BINARY then Ok \<lparr>msg_type = Binary, payload = frame_payload f\<rparr>
      else if opcode f = OPCODE_CLOSE then Ok \<lparr>msg_type = Close, payload = frame_payload f\<rparr>
      else if opcode f = OPCODE_PING then Ok \<lparr>msg_type = Ping, payload = frame_payload f\<rparr>
      else if opcode f = OPCODE_PONG then Ok \<lparr>msg_type = Pong, payload = frame_payload f\<rparr>
      else Err (unknown_opcode (opcode f)))"

definition cleanup_expired :: "instant \<Rightarrow> connection_id \<Rightarrow> reassembler \<Rightarrow> reassembler" where
  "cleanup_expired now k r =
     (case hm_get (incomplete r) k of
        None \<Rightarrow> r
      | Some p \<Rightarrow>
          if is_expired now (reassembly_timeout r) p
          then r\<lparr>incomplete := hm_remove k (incomplete r)\<rparr> else r)"

text \<open>The part of \<^verbatim>\<open>ingest_frame\<close> that runs under the second lock.\<close>

definition ingest_locked ::
  "instant \<Rightarrow> frame \<Rightarrow> connection_id \<Rightarrow> reassembler \<Rightarrow> reassembler \<times> message option result"
where
  "ingest_locked now f k r =
     (let is_fin = fin f; op = opcode f in
      if op = OPCODE_CONTINUATION then
        (case hm_get (incomplete r) k of
           None \<Rightarrow>
             (r, Err (ProtocolViolation (lit ''Continuation frame received without starting frame'')))
         | Some p \<Rightarrow>
             let p' = add_fragment (frame_payload f) p;
                 r' = r\<lparr>incomplete := hm_insert k p' (incomplete r)\<rparr>
             in if is_fin
                then (r'\<lparr>incomplete := hm_remove k (incomplete r')\<rparr>, Ok (Some (assemble p')))
                else (r', Ok None))
      else if op = OPCODE_TEXT \<or> op = OPCODE_BINARY then
        (if hm_get (incomplete r) k \<noteq> None then
           (r, Err (ProtocolViolation (lit ''New fragmented message started before previous completed'')))
         else if is_fin then (r, try_then (frame_to_message f) (\<lambda>m. Ok (Some m)))
         else (r\<lparr>incomplete := hm_insert k (partial_new now op (frame_payload f)) (incomplete r)\<rparr>, Ok None))
      else (r, Err (unknown_opcode op)))"

definition ingest_frame ::
  "instant \<Rightarrow> frame \<Rightarrow> connection_id \<Rightarrow> reassembler \<Rightarrow> reassembler \<times> message option result"
where
  "ingest_frame now f k r =
     (if is_control_frame (opcode f)
      then (r, try_then (frame_to_message f) (\<lambda>m. Ok (Some m)))
      else ingest_locked now f k (cleanup_expired now k r))"

definition abort :: "connection_id \<Rightarrow> reassembler \<Rightarrow> reassembler \<times> bool" where
  "abort k r =
     (r\<lparr>incomplete := hm_remove k (incomplete r)\<rparr>, hm_get (incomplete r) k \<noteq> None)"

definition in_progress_count :: "reassembler \<Rightarrow> nat" where
  "in_progress_count r = hm_len (incomplete r)"

definition in_progress_size :: "reassembler \<Rightarrow> nat" where
  "in_progress_size r = sum_list (map pm_total_size (hm_values (incomplete r)))"

definition cleanup_all_expired :: "instant \<Rightarrow> reassembler \<Rightarrow> reassembler" where
  "cleanup_all_expired now r =
     r\<lparr>incomplete :=
         hm_retain (\<lambda>_ p. \<not> is_expired now (reassembly_timeout r) p) (incomplete r)\<rparr>"


definition reassembler_timeout :: "reassembler \<Rightarrow> duration" where
  "reassembler_timeout r = reassembly_timeout r"

section \<open>Splitting\<close>

text \<open>The frames that carry a list of chunks after the first one.\<close>

fun continuation_frames :: "bytes list \<Rightarrow> frame list" where
  "continuation_frames [] = []"
| "continuation_frames [c] = [frame_new True OPCODE_CONTINUATION c]"
| "continuation_frames (c # d # cs) =
     frame_new False OPCODE_CONTINUATION c # continuation_frames (d # cs)"

lemma split_tail:
  assumes "N = s + length cs"
  shows "map (\<lambda>(i, chunk). let is_first = (i = 0); is_last = (i = N);
                op = (if is_first then op0 else OPCODE_CONTINUATION) in frame_new is_last op chunk)
             (enumerate (Suc s) cs) = continuation_frames cs"
  using assms
proof (induction cs arbitrary: s rule: continuation_frames.induct)
  case (3 c d cs)
  from "3.IH" [of "Suc s"] "3.prems" show ?case by simp
qed simp_all

lemma split_message_small:
  "length (payload m) \<le> max_frame_size f \<Longrightarrow>
     split_message f m = [frame_new True (message_opcode (msg_type m)) (payload m)]"
  by (simp add: split_message_def)

text \<open>A message that does not fit has at least two chunks.\<close>

lemma split_message_large:
  assumes "0 < max_frame_size f" and "max_frame_size f < length (payload m)"
  obtains c d cs where
    "chunks (max_frame_size f) (payload m) = c # d # cs"
    "split_message f m =
       frame_new False (first_fragment_opcode (msg_type m)) c # continuation_frames (d # cs)"
proof -
  let ?n = "max_frame_size f" and ?p = "payload m"
  have "2 \<le> length (chunks ?n ?p)"
    using assms by (simp add: length_chunks div_ceil_ge_two)
  then obtain c d cs where ch: "chunks ?n ?p = c # d # cs"
    by (auto simp: numeral_2_eq_2 Suc_le_length_iff)
  have dc: "div_ceil (length ?p) ?n = Suc (Suc (length cs))"
    using length_chunks [OF assms(1), of ?p] by (simp add: ch)
  then have n: "div_ceil (length ?p) ?n - 1 = 0 + length (d # cs)"
    by simp
  have "split_message f m =
      frame_new False (first_fragment_opcode (msg_type m)) c # continuation_frames (d # cs)"
    using assms(2) split_tail [OF n, of "first_fragment_opcode (msg_type m)"]
    by (simp add: split_message_def ch Let_def dc)
  with ch show thesis by (rule that)
qed

lemma continuation_frames_payloads: "map frame_payload (continuation_frames cs) = cs"
  by (induction cs rule: continuation_frames.induct) simp_all

lemma length_continuation_frames [simp]: "length (continuation_frames cs) = length cs"
  by (induction cs rule: continuation_frames.induct) simp_all

lemma continuation_frames_opcodes:
  "map opcode (continuation_frames cs) = replicate (length cs) OPCODE_CONTINUATION"
  by (induction cs rule: continuation_frames.induct) simp_all

lemma continuation_frames_fin:
  "map fin (continuation_frames cs) = (if cs = [] then [] else replicate (length cs - 1) False @ [True])"
  by (induction cs rule: continuation_frames.induct) simp_all

lemma split_message_payloads:
  "0 < max_frame_size f \<Longrightarrow>
     map frame_payload (split_message f m) =
       (if length (payload m) \<le> max_frame_size f then [payload m]
        else chunks (max_frame_size f) (payload m))"
proof (cases "length (payload m) \<le> max_frame_size f")
  case True
  then show ?thesis by (simp add: split_message_small)
next
  case False
  assume "0 < max_frame_size f"
  with False obtain c d cs where
    "chunks (max_frame_size f) (payload m) = c # d # cs"
    "split_message f m =
       frame_new False (first_fragment_opcode (msg_type m)) c # continuation_frames (d # cs)"
    using split_message_large [of f m] by auto
  with False show ?thesis by (simp add: continuation_frames_payloads del: continuation_frames.simps)
qed

text \<open>The payloads of the frames of a message, concatenated, are the message's payload; no
  frame carries more than the maximum; and there are as many frames as
  \<^verbatim>\<open>calculate_frame_count\<close> says.\<close>

theorem split_message_partition:
  assumes "0 < max_frame_size f"
  shows "concat (map frame_payload (split_message f m)) = payload m \<and>
         list_all (\<lambda>fr. frame_len fr \<le> max_frame_size f) (split_message f m) \<and>
         length (split_message f m) = calculate_frame_count f (message_len m)"
proof -
  note P = split_message_payloads [OF assms, of m]
  have "concat (map frame_payload (split_message f m)) = payload m"
    using assms by (simp add: P concat_chunks)
  moreover have "list_all (\<lambda>b. length b \<le> max_frame_size f) (map frame_payload (split_message f m))"
    using chunks_bounds [of _ "max_frame_size f" "payload m"] by (auto simp: P list_all_iff)
  moreover have "length (map frame_payload (split_message f m)) = calculate_frame_count f (message_len m)"
    using assms by (simp add: P length_chunks calculate_frame_count_def message_len_def del: length_map)
  ultimately show ?thesis
    by (simp add: list_all_iff frame_len_def)
qed

theorem split_message_partition_witness:
  "concat (map frame_payload (split_message \<lparr>max_frame_size = 125\<rparr> (message_binary (replicate 300 7)))) =
     replicate 300 7"
  using split_message_partition [of "\<lparr>max_frame_size = 125\<rparr>" "message_binary (replicate 300 7)"]
  by (simp add: message_binary_def)

text \<open>On the wire a fragmented message starts with the opcode of its type (binary for any
  other type than text), every later frame is a continuation, and only the last has FIN.\<close>

theorem split_message_shape:
  assumes "0 < max_frame_size f" and "needs_fragmentation f m"
  shows "map opcode (split_message f m) =
           (if is_text m then OPCODE_TEXT else OPCODE_BINARY) #
           replicate (calculate_frame_count f (message_len m) - 1) OPCODE_CONTINUATION \<and>
         map fin (split_message f m) =
           replicate (calculate_frame_count f (message_len m) - 1) False @ [True]"
proof -
  from assms have lt: "max_frame_size f < length (payload m)"
    by (simp add: needs_fragmentation_def message_len_def)
  from split_message_large [OF assms(1) lt] obtain c d cs where
    ch: "chunks (max_frame_size f) (payload m) = c # d # cs" and
    sp: "split_message f m =
       frame_new False (first_fragment_opcode (msg_type m)) c # continuation_frames (d # cs)" .
  have n: "calculate_frame_count f (message_len m) = Suc (Suc (length cs))"
    using length_chunks [OF assms(1), of "payload m"] lt
    by (simp add: ch calculate_frame_count_def message_len_def)
  have "first_fragment_opcode (msg_type m) = (if is_text m then OPCODE_TEXT else OPCODE_BINARY)"
    by (simp add: first_fragment_opcode_def is_text_def split: message_type.splits)
  then show ?thesis
    by (simp add: sp n continuation_frames_fin continuation_frames_opcodes del: continuation_frames.simps)
qed

theorem split_message_shape_witness:
  "map fin (split_message \<lparr>max_frame_size = 125\<rparr> (message_text (replicate 300 65))) =
     [False, False, True]"
proof -
  have "needs_fragmentation \<lparr>max_frame_size = 125\<rparr> (message_text (replicate 300 65))"
    and "calculate_frame_count \<lparr>max_frame_size = 125\<rparr> (message_len (message_text (replicate 300 65))) = 3"
    by (simp_all add: needs_fragmentation_def calculate_frame_count_def message_len_def message_text_def
        utf8_encode_def utf8_char_def length_concat sum_list_replicate div_ceil_def map_replicate_trivial)
  with split_message_shape [of "\<lparr>max_frame_size = 125\<rparr>" "message_text (replicate 300 65)"]
  show ?thesis by (simp add: numeral_2_eq_2)
qed


section \<open>One connection at a time\<close>

text \<open>
  What a connection sees of the reassembler is the timeout and its own partial message;
  \<open>ingest_one\<close> is the specification of \<^verbatim>\<open>ingest_frame\<close> over this view.
\<close>

definition drop_expired :: "instant \<Rightarrow> duration \<Rightarrow> partial_message option \<Rightarrow> partial_message option" where
  "drop_expired now d p =
     (case p of None \<Rightarrow> None | Some q \<Rightarrow> if is_expired now d q then None else Some q)"

fun ingest_one ::
  "instant \<times> frame \<Rightarrow> duration \<times> partial_message option \<Rightarrow>
     (duration \<times> partial_message option) \<times> message option result"
where
  "ingest_one (now, f) (d, p) =
     (if is_control_frame (opcode f)
      then ((d, p), try_then (frame_to_message f) (\<lambda>m. Ok (Some m)))
      else if opcode f = OPCODE_CONTINUATION then
        (case drop_expired now d p of
           None \<Rightarrow>
             ((d, None), Err (ProtocolViolation (lit ''Continuation frame received without starting frame'')))
         | Some q \<Rightarrow>
             if fin f then ((d, None), Ok (Some (assemble (add_fragment (frame_payload f) q))))
             else ((d, Some (add_fragment (frame_payload f) q)), Ok None))
      else if opcode f = OPCODE_TEXT \<or> opcode f = OPCODE_BINARY then
        (case drop_expired now d p of
           Some q \<Rightarrow>
             ((d, Some q),
              Err (ProtocolViolation (lit ''New fragmented message started before previous completed'')))
         | None \<Rightarrow>
             if fin f then ((d, None), try_then (frame_to_message f) (\<lambda>m. Ok (Some m)))
             else ((d, Some (partial_new now (opcode f) (frame_payload f))), Ok None))
      else ((d, drop_expired now d p), Err (unknown_opcode (opcode f))))"

definition conn_view :: "connection_id \<Rightarrow> reassembler \<Rightarrow> duration \<times> partial_message option" where
  "conn_view k r = (reassembly_timeout r, hm_get (incomplete r) k)"

definition ingest_event ::
  "connection_id \<Rightarrow> instant \<times> frame \<Rightarrow> reassembler \<Rightarrow> reassembler \<times> message option result"
where
  "ingest_event k e r = ingest_frame (fst e) (snd e) k r"

lemma conn_view_cleanup_expired:
  "conn_view k' (cleanup_expired now k r) =
     (reassembly_timeout r,
      if k' = k then drop_expired now (reassembly_timeout r) (hm_get (incomplete r) k)
      else hm_get (incomplete r) k')"
  by (auto simp: conn_view_def cleanup_expired_def drop_expired_def split: option.splits)

lemma ingest_frame_own:
  "(case ingest_frame now f k r of (r', a) \<Rightarrow> (conn_view k r', a)) = ingest_one (now, f) (conn_view k r)"
  using conn_view_cleanup_expired [of k now k r]
  by (auto simp: ingest_frame_def ingest_locked_def conn_view_def Let_def hm.lookup_insert
      hm.lookup_remove split: option.splits if_splits)

lemma ingest_frame_other:
  "k' \<noteq> k \<Longrightarrow> conn_view k' (fst (ingest_frame now f k r)) = conn_view k' r"
  using conn_view_cleanup_expired [of k' now k r]
  by (auto simp: ingest_frame_def ingest_locked_def conn_view_def Let_def hm.lookup_insert
      hm.lookup_remove split: option.splits if_splits)

interpretation conns: keyed_machine ingest_event conn_view "\<lambda>k. ingest_one"
proof unfold_locales
  fix k k' :: connection_id and e :: "instant \<times> frame" and s
  show "conn_view k (fst (ingest_event k e s)) = fst (ingest_one e (conn_view k s))"
    using ingest_frame_own [of k "fst e" "snd e" s] by (simp add: ingest_event_def case_prod_beta prod_eq_iff)
  show "snd (ingest_event k e s) = snd (ingest_one e (conn_view k s))"
    using ingest_frame_own [of k "fst e" "snd e" s] by (simp add: ingest_event_def case_prod_beta prod_eq_iff)
  show "k' \<noteq> k \<Longrightarrow> conn_view k' (fst (ingest_event k e s)) = conn_view k' s"
    by (simp add: ingest_event_def ingest_frame_other)
qed


section \<open>Reassembly\<close>

definition is_data :: "instant \<times> frame \<Rightarrow> bool" where
  "is_data e \<longleftrightarrow> \<not> is_control_frame (opcode (snd e))"

text \<open>The answers to the data frames of a trace.\<close>

definition data_answers :: "(instant \<times> frame) list \<Rightarrow> 'a list \<Rightarrow> 'a list" where
  "data_answers es as = map snd (filter (\<lambda>p. is_data (fst p)) (zip es as))"

lemma data_answers_simps [simp]:
  "data_answers [] as = []"
  "data_answers (e # es) (a # as) = (if is_data e then a # data_answers es as else data_answers es as)"
  by (simp_all add: data_answers_def)

lemma opcode_control [simp]:
  "\<not> is_control_frame OPCODE_TEXT" "\<not> is_control_frame OPCODE_BINARY"
  "\<not> is_control_frame OPCODE_CONTINUATION"
  "OPCODE_TEXT \<noteq> OPCODE_CONTINUATION" "OPCODE_BINARY \<noteq> OPCODE_CONTINUATION"
  "OPCODE_TEXT \<noteq> OPCODE_BINARY" "OPCODE_BINARY \<noteq> OPCODE_TEXT"
  by (simp_all add: is_control_frame_def opcode_defs)

lemma ingest_control: "\<not> is_data e \<Longrightarrow> fst (ingest_one e v) = v"
  by (cases e; cases v) (simp add: is_data_def)

lemma run_control:
  "filter is_data es = [] \<Longrightarrow>
     fst (run_local ingest_one es v) = v \<and> data_answers es (snd (run_local ingest_one es v)) = []"
  by (induction es arbitrary: v) (auto simp: case_prod_beta ingest_control split: if_splits)

lemma run_continuations:
  assumes "map snd (filter is_data es) = continuation_frames cs" and "cs \<noteq> []"
    and "list_all (\<lambda>e. fst e - pm_received_at p \<le> d) es"
  shows "fst (run_local ingest_one es (d, Some p)) = (d, None) \<and>
         data_answers es (snd (run_local ingest_one es (d, Some p))) =
           replicate (length cs - 1) (Ok None) @
           [Ok (Some \<lparr>msg_type = (if pm_opcode p = OPCODE_TEXT then Text else Binary),
                     payload = concat (pm_fragments p) @ concat cs\<rparr>)]"
  using assms
proof (induction es arbitrary: cs p)
  case Nil
  then show ?case by (cases cs rule: continuation_frames.cases) simp_all
next
  case (Cons e es)
  obtain t fr where e: "e = (t, fr)" by (cases e)
  show ?case
  proof (cases "is_data e")
    case False
    with Cons show ?thesis by (simp add: case_prod_beta ingest_control)
  next
    case True
    from Cons.prems(3) e have live: "drop_expired t d (Some p) = Some p"
      by (simp add: drop_expired_def is_expired_def elapsed_def not_less)
    from Cons.prems(2) obtain c cs' where cs: "cs = c # cs'" by (cases cs) auto
    with True Cons.prems(1) e have fr: "fr = frame_new (cs' = []) OPCODE_CONTINUATION c"
      and rest: "map snd (filter is_data es) = continuation_frames cs'"
      by (cases cs'; simp)+
    let ?p = "add_fragment c p"
    have step: "ingest_one e (d, Some p) =
        (if cs' = [] then ((d, None), Ok (Some (assemble ?p))) else ((d, Some ?p), Ok None))"
      using live by (simp add: e fr)
    show ?thesis
    proof (cases "cs' = []")
      case True
      with rest have "filter is_data es = []" by simp
      with run_control [of es "(d, None)"] \<open>is_data e\<close> True step show ?thesis
        by (simp add: case_prod_beta cs assemble_def add_fragment_def)
    next
      case False
      have "list_all (\<lambda>e. fst e - pm_received_at ?p \<le> d) es"
        using Cons.prems(3) by (simp add: add_fragment_def)
      from Cons.IH [OF rest False this] \<open>is_data e\<close> False step show ?thesis
        by (cases cs') (simp_all add: case_prod_beta cs add_fragment_def)
    qed
  qed
qed

lemma run_fragmented:
  assumes "map snd (filter is_data es) = frame_new False op c # continuation_frames cs" and "cs \<noteq> []"
    and "op = OPCODE_TEXT \<or> op = OPCODE_BINARY"
    and "list_all (\<lambda>e. t0 \<le> fst e \<and> fst e \<le> t0 + d) es"
  shows "fst (run_local ingest_one es (d, None)) = (d, None) \<and>
         data_answers es (snd (run_local ingest_one es (d, None))) =
           replicate (length cs) (Ok None) @
           [Ok (Some \<lparr>msg_type = (if op = OPCODE_TEXT then Text else Binary), payload = c @ concat cs\<rparr>)]"
  using assms
proof (induction es)
  case Nil
  then show ?case by simp
next
  case (Cons e es)
  obtain t fr where e: "e = (t, fr)" by (cases e)
  show ?case
  proof (cases "is_data e")
    case False
    with Cons show ?thesis by (simp add: case_prod_beta ingest_control)
  next
    case True
    with Cons.prems(1) e have fr: "fr = frame_new False op c"
      and rest: "map snd (filter is_data es) = continuation_frames cs" by simp_all
    have step: "ingest_one e (d, None) = ((d, Some (partial_new t op c)), Ok None)"
      using Cons.prems(3) by (auto simp: e fr drop_expired_def)
    have "list_all (\<lambda>e. fst e - pm_received_at (partial_new t op c) \<le> d) es"
      using Cons.prems(4) by (auto simp: list_all_iff partial_new_def e)
    from run_continuations [OF rest Cons.prems(2) this] True step Cons.prems(2) show ?thesis
      by (cases cs) (simp_all add: case_prod_beta partial_new_def)
  qed
qed

lemma run_unfragmented:
  assumes "map snd (filter is_data es) = [frame_new True op b]"
    and "op = OPCODE_TEXT \<or> op = OPCODE_BINARY"
  shows "fst (run_local ingest_one es (d, None)) = (d, None) \<and>
         data_answers es (snd (run_local ingest_one es (d, None))) =
           [Ok (Some \<lparr>msg_type = (if op = OPCODE_TEXT then Text else Binary), payload = b\<rparr>)]"
  using assms
proof (induction es)
  case Nil
  then show ?case by simp
next
  case (Cons e es)
  obtain t fr where e: "e = (t, fr)" by (cases e)
  show ?case
  proof (cases "is_data e")
    case False
    with Cons show ?thesis by (simp add: case_prod_beta ingest_control)
  next
    case True
    with Cons.prems(1) e have "fr = frame_new True op b" and "filter is_data es = []" by simp_all
    with run_control [of es "(d, None)"] True Cons.prems(2) show ?thesis
      by (auto simp: e case_prod_beta drop_expired_def frame_to_message_def)
  qed
qed

text \<open>What the frames of a text or binary message do to a connection, whatever control frames
  come between them.\<close>

lemma run_split_message:
  assumes "0 < max_frame_size f" and "is_text m \<or> is_binary m"
    and "map snd (filter is_data es) = split_message f m"
    and "list_all (\<lambda>e. t0 \<le> fst e \<and> fst e \<le> t0 + d) es"
  shows "fst (run_local ingest_one es (d, None)) = (d, None) \<and>
         data_answers es (snd (run_local ingest_one es (d, None))) =
           replicate (length (split_message f m) - 1) (Ok None) @ [Ok (Some m)]"
proof -
  have op: "message_opcode (msg_type m) = (if is_text m then OPCODE_TEXT else OPCODE_BINARY)"
    "first_fragment_opcode (msg_type m) = (if is_text m then OPCODE_TEXT else OPCODE_BINARY)"
    and m: "m = \<lparr>msg_type = (if is_text m then Text else Binary), payload = payload m\<rparr>"
    using assms(2) by (auto simp: message_opcode_def first_fragment_opcode_def is_text_def is_binary_def)
  let ?op = "if is_text m then OPCODE_TEXT else OPCODE_BINARY"
  have op': "?op = OPCODE_TEXT \<or> ?op = OPCODE_BINARY"
    and ty: "(if ?op = OPCODE_TEXT then Text else Binary) = (if is_text m then Text else Binary)"
    by simp_all
  show ?thesis
  proof (cases "length (payload m) \<le> max_frame_size f")
    case True
    then have sp: "split_message f m = [frame_new True ?op (payload m)]"
      by (simp add: split_message_small op)
    from run_unfragmented [OF assms(3) [unfolded sp] op', of d] m show ?thesis
      by (simp add: sp ty)
  next
    case False
    then obtain c c' cs where
      ch: "chunks (max_frame_size f) (payload m) = c # c' # cs" and
      sp: "split_message f m = frame_new False ?op c # continuation_frames (c' # cs)"
      using split_message_large [OF assms(1), of m] by (auto simp: op)
    have "c @ concat (c' # cs) = payload m"
      using concat_chunks [OF assms(1), of "payload m"] by (simp add: ch)
    with run_fragmented [OF assms(3) [unfolded sp] _ op' assms(4)] m show ?thesis
      by (simp add: sp ty del: continuation_frames.simps)
  qed
qed


text \<open>C1: Fragmenting and reassembling is the identity on text and binary messages. Whatever
  frames of other connections and whatever control frames are interleaved, if all frames of
  the message arrive within the timeout then every data frame but the last is answered with
  nothing, the last with the message, and the connection is left with no partial message.\<close>

theorem fragment_reassemble:
  assumes "fragmenter_new mx = Ret f" and "is_text m \<or> is_binary m"
    and "hm_get (incomplete r) k = None"
    and "map snd (filter is_data (proj_key k tr)) = split_message f m"
    and "list_all (\<lambda>e. t0 \<le> fst e \<and> fst e \<le> t0 + reassembly_timeout r) (proj_key k tr)"
  shows "data_answers (proj_key k tr) (proj_key k (snd (run_keyed ingest_event tr r))) =
           replicate (calculate_frame_count f (message_len m) - 1) (Ok None) @ [Ok (Some m)] \<and>
         hm_get (incomplete (fst (run_keyed ingest_event tr r))) k = None"
proof -
  have mx: "0 < max_frame_size f"
    using assms(1) by (auto simp: fragmenter_new_def split: if_splits)
  have n: "length (split_message f m) = calculate_frame_count f (message_len m)"
    using arg_cong [OF split_message_payloads [OF mx, of m], of length]
    by (simp add: calculate_frame_count_def message_len_def length_chunks mx)
  have v: "conn_view k r = (reassembly_timeout r, None)"
    using assms(3) by (simp add: conn_view_def)
  note run = run_split_message [OF mx assms(2,4,5)]
  have "conn_view k (fst (run_keyed ingest_event tr r)) = (reassembly_timeout r, None)"
    using run by (simp add: conns.isolated_state v)
  then have "hm_get (incomplete (fst (run_keyed ingest_event tr r))) k = None"
    by (simp add: conn_view_def)
  with run show ?thesis by (simp add: conns.isolated_answers v n)
qed

theorem fragment_reassemble_witness:
  "let m = message_binary (replicate 200 7);
       fs = split_message \<lparr>max_frame_size = 125\<rparr> m;
       tr = [(1, (0, fs ! 0)), (2, (1, frame_new False 1 [65])),
             (1, (2, frame_new True 9 [])), (1, (3, fs ! 1))]
   in data_answers (proj_key 1 tr) (proj_key 1 (snd (run_keyed ingest_event tr (reassembler_new (secs 5))))) =
        [Ok None, Ok (Some m)]"
proof -
  define m where "m = message_binary (replicate 200 7)"
  define fs where "fs = split_message \<lparr>max_frame_size = 125\<rparr> m"
  define tr :: "(connection_id \<times> instant \<times> frame) list" where
    "tr = [(1, (0, fs ! 0)), (2, (1, frame_new False 1 [65])),
           (1, (2, frame_new True 9 [])), (1, (3, fs ! 1))]"
  have sp: "fs = [frame_new False 2 (replicate 125 7), frame_new True 0 (replicate 75 7)]"
    by (simp add: fs_def m_def split_message_def message_binary_def chunks_step div_ceil_def
        first_fragment_opcode_def opcode_defs)
  have n: "calculate_frame_count \<lparr>max_frame_size = 125\<rparr> (message_len m) = 2"
    by (simp add: m_def calculate_frame_count_def message_len_def message_binary_def div_ceil_def)
  have "map snd (filter is_data (proj_key 1 tr)) = split_message \<lparr>max_frame_size = 125\<rparr> m"
    unfolding fs_def [symmetric]
    by (simp add: tr_def sp is_data_def is_control_frame_def opcode_defs)
  from fragment_reassemble [OF _ _ _ this, of 125 "reassembler_new (secs 5)" 0]
  have "data_answers (proj_key 1 tr) (proj_key 1 (snd (run_keyed ingest_event tr (reassembler_new (secs 5))))) =
        [Ok None, Ok (Some m)]"
    by (simp add: fragmenter_new_def reassembler_new_def m_def is_binary_def message_binary_def
        n [unfolded m_def message_binary_def] tr_def numeral_2_eq_2)
  then show ?thesis by (simp add: Let_def m_def fs_def tr_def)
qed

text \<open>C28: What the reassembler answers to a connection depends on the frames of this connection
  alone: two traces with the same frames for it, started with the same partial message, give
  it the same answers, whatever the other connections send.\<close>

theorem reassembler_isolation:
  assumes "proj_key k tr = proj_key k tr'"
    and "reassembly_timeout r = reassembly_timeout r'"
    and "hm_get (incomplete r) k = hm_get (incomplete r') k"
  shows "proj_key k (snd (run_keyed ingest_event tr r)) = proj_key k (snd (run_keyed ingest_event tr' r'))"
  by (rule conns.same_projection) (use assms in \<open>simp_all add: conn_view_def\<close>)

theorem reassembler_isolation_witness:
  "proj_key 1 (snd (run_keyed ingest_event [(2, (0, frame_new False 1 [65])), (1, (1, frame_new True 2 [7]))]
                     reassembler_default)) =
   proj_key 1 (snd (run_keyed ingest_event [(1, (1, frame_new True 2 [7]))] reassembler_default))"
  by (rule reassembler_isolation) simp_all

text \<open>C40: Out of order data is refused. A continuation with no partial message, or one whose
  partial message has timed out, is a protocol violation and leaves nothing behind; a new data
  frame during a live partial message is a protocol violation and keeps the partial message.\<close>

theorem out_of_order_frames:
  assumes "drop_expired now (reassembly_timeout r) (hm_get (incomplete r) k) = p"
    and "ingest_frame now f k r = (r', a)"
  shows "(opcode f = OPCODE_CONTINUATION \<and> p = None \<longrightarrow>
            (\<exists>msg. a = Err (ProtocolViolation msg)) \<and> hm_get (incomplete r') k = None) \<and>
         (opcode f \<in> {OPCODE_TEXT, OPCODE_BINARY} \<and> p \<noteq> None \<longrightarrow>
            (\<exists>msg. a = Err (ProtocolViolation msg)) \<and> hm_get (incomplete r') k = p)"
  using ingest_frame_own [of k now f r] assms
  by (auto simp: conn_view_def split: option.splits)

theorem out_of_order_frames_witness:
  "hm_get (incomplete (fst (ingest_frame (secs 6) (frame_new True 0 [66]) 1
     (fst (ingest_frame 0 (frame_new False 1 [65]) 1 reassembler_default))))) 1 = None"
proof -
  define r where "r = fst (ingest_frame 0 (frame_new False 1 [65]) 1 reassembler_default)"
  have "r = \<lparr>incomplete = [(1, partial_new 0 1 [65])], reassembly_timeout = secs 5\<rparr>"
    by (simp add: r_def ingest_frame_def ingest_locked_def cleanup_expired_def reassembler_default_def
        reassembler_new_def is_control_frame_def opcode_defs DEFAULT_REASSEMBLY_TIMEOUT_def
        hm_insert_def hm_empty_def hm_get_def)
  then have "drop_expired (secs 6) (reassembly_timeout r) (hm_get (incomplete r) 1) = None"
    by (simp add: drop_expired_def is_expired_def elapsed_def partial_new_def hm_get_def)
  from out_of_order_frames [OF this prod.collapse [symmetric], of "frame_new True 0 [66]"]
  show ?thesis by (simp add: r_def OPCODE_CONTINUATION_def)
qed

section \<open>The invariant\<close>

text \<open>
  Every operation of the reassembler, as events; \<open>partial_ok\<close> is the well-formedness of a
  partial message.
\<close>

datatype reassembler_op =
    IngestFrame instant frame connection_id
  | Abort connection_id
  | CleanupAllExpired instant

fun reassembler_step :: "reassembler_op \<Rightarrow> reassembler \<Rightarrow> reassembler" where
  "reassembler_step (IngestFrame now f k) r = fst (ingest_frame now f k r)"
| "reassembler_step (Abort k) r = fst (abort k r)"
| "reassembler_step (CleanupAllExpired now) r = cleanup_all_expired now r"

definition partial_ok :: "partial_message \<Rightarrow> bool" where
  "partial_ok p \<longleftrightarrow>
     pm_total_size p = sum_list (map length (pm_fragments p)) \<and> pm_fragments p \<noteq> [] \<and>
     (pm_opcode p = OPCODE_TEXT \<or> pm_opcode p = OPCODE_BINARY)"

definition reassembler_ok :: "reassembler \<Rightarrow> bool" where
  "reassembler_ok r \<longleftrightarrow> hm_wf (incomplete r) \<and> (\<forall>p \<in> set (hm_values (incomplete r)). partial_ok p)"

lemma partial_ok_new: "op = OPCODE_TEXT \<or> op = OPCODE_BINARY \<Longrightarrow> partial_ok (partial_new now op b)"
  by (auto simp: partial_ok_def partial_new_def)

lemma partial_ok_add: "partial_ok p \<Longrightarrow> partial_ok (add_fragment b p)"
  by (auto simp: partial_ok_def add_fragment_def)

lemma reassembler_ok_insert:
  "reassembler_ok r \<Longrightarrow> partial_ok p \<Longrightarrow> reassembler_ok (r\<lparr>incomplete := hm_insert k p (incomplete r)\<rparr>)"
  using hm_values_insert [of k p "incomplete r"] by (auto simp: reassembler_ok_def hm.ok_insert)

lemma reassembler_ok_remove:
  "reassembler_ok r \<Longrightarrow> reassembler_ok (r\<lparr>incomplete := hm_remove k (incomplete r)\<rparr>)"
  using hm_values_remove [of k "incomplete r"] by (auto simp: reassembler_ok_def hm.ok_remove)

lemma reassembler_ok_get: "reassembler_ok r \<Longrightarrow> hm_get (incomplete r) k = Some p \<Longrightarrow> partial_ok p"
  by (auto simp: reassembler_ok_def dest: hm_values_mem)

lemma reassembler_ok_cleanup: "reassembler_ok r \<Longrightarrow> reassembler_ok (cleanup_expired now k r)"
  by (auto simp: cleanup_expired_def reassembler_ok_remove split: option.splits)

lemma reassembler_ok_ingest: "reassembler_ok r \<Longrightarrow> reassembler_ok (fst (ingest_frame now f k r))"
proof -
  assume "reassembler_ok r"
  then have ok: "reassembler_ok (cleanup_expired now k r)" by (rule reassembler_ok_cleanup)
  then have "reassembler_ok (fst (ingest_locked now f k (cleanup_expired now k r)))"
    using reassembler_ok_remove [OF reassembler_ok_insert [OF ok partial_ok_add]]
    by (auto simp: ingest_locked_def Let_def intro: reassembler_ok_insert partial_ok_add partial_ok_new
        reassembler_ok_get split: option.splits dest: reassembler_ok_get)
  with \<open>reassembler_ok r\<close> show ?thesis by (simp add: ingest_frame_def)
qed

lemma reassembler_ok_retain: "reassembler_ok r \<Longrightarrow> reassembler_ok (cleanup_all_expired now r)"
  using hm_values_retain [of "\<lambda>_ p. \<not> is_expired now (reassembly_timeout r) p" "incomplete r"]
  by (auto simp: reassembler_ok_def cleanup_all_expired_def hm_wf_retain)

interpretation reasm: invariant_machine reassembler_step reassembler_ok
proof
  fix r and e :: reassembler_op
  assume "reassembler_ok r"
  then show "reassembler_ok (reassembler_step e r)"
    by (cases e) (simp_all add: reassembler_ok_ingest reassembler_ok_remove reassembler_ok_retain abort_def)
qed

lemma reassembler_ok_new: "reassembler_ok (reassembler_new d)"
  by (simp add: reassembler_ok_def reassembler_new_def hm_wf_def hm_values_def hm_empty_def)

text \<open>C29: After any sequence of operations there is at most one partial message per connection,
  each is a non-empty text or binary message, and the size that \<^verbatim>\<open>in_progress_size\<close> reports
  is the number of payload bytes held.\<close>

theorem reassembler_invariant:
  "reassembler_ok (fold reassembler_step es (reassembler_new d)) \<and>
   in_progress_size (fold reassembler_step es (reassembler_new d)) =
     sum_list (map (\<lambda>p. length (concat (pm_fragments p)))
       (hm_values (incomplete (fold reassembler_step es (reassembler_new d)))))"
proof -
  have ok: "reassembler_ok (fold reassembler_step es (reassembler_new d))"
    by (rule reasm.run_inv [OF reassembler_ok_new])
  then show ?thesis
    by (auto simp: in_progress_size_def reassembler_ok_def partial_ok_def length_concat
        intro!: arg_cong [of _ _ sum_list])
qed

text \<open>After a sweep of expired messages no partial message is older than the timeout, the
  others are kept as they are, and an aborted connection has none.\<close>

theorem sweep_and_abort:
  assumes "reassembler_ok r"
  shows "hm_get (incomplete (cleanup_all_expired now r)) k =
           drop_expired now (reassembly_timeout r) (hm_get (incomplete r) k) \<and>
         in_progress_count (cleanup_all_expired now r) \<le> in_progress_count r \<and>
         hm_get (incomplete (fst (abort k r))) k = None \<and>
         in_progress_count (fst (abort k r)) = in_progress_count r - (if snd (abort k r) then 1 else 0)"
  using assms
  by (simp add: reassembler_ok_def cleanup_all_expired_def abort_def in_progress_count_def
      hm_get_retain drop_expired_def hm.size_remove)
    (simp add: hm_len_def hm_retain_def split: option.splits)

theorem sweep_and_abort_witness:
  "snd (abort 1 reassembler_default) = False \<and>
   in_progress_count (fst (abort 1 reassembler_default)) = 0"
proof -
  have "reassembler_ok reassembler_default"
    by (simp add: reassembler_default_def reassembler_ok_new)
  from sweep_and_abort [OF this, of 0 1] show ?thesis
    by (simp add: abort_def reassembler_default_def reassembler_new_def in_progress_count_def
        hm_len_def hm_empty_def hm_get_def)
qed

end
