(* ===== verification/Subprotocol.thy ===== *)
theory Subprotocol
  imports Errors
begin

text \<open>
  \<^verbatim>\<open>src/src/subprotocol.rs\<close>: the client's list of subprotocols, the server's negotiator and
  the header that carries the list. \<open>ua\<close> is the standard library's table of alphanumeric
  characters outside ASCII.
\<close>

section \<open>The client's list\<close>

record subprotocol_list =
  sl_protocols :: "rstr list"

definition subprotocol_list_new :: subprotocol_list where
  "subprotocol_list_new = \<lparr>sl_protocols = []\<rparr>"

definition protocol_char :: "(nat \<Rightarrow> bool) \<Rightarrow> nat \<Rightarrow> bool" where
  "protocol_char ua c \<longleftrightarrow> is_alphanumeric ua c \<or> c = 45 \<or> c = 95"

definition validate_protocol :: "(nat \<Rightarrow> bool) \<Rightarrow> rstr \<Rightarrow> unit result" where
  "validate_protocol ua p =
     (if p = [] then Err (InvalidSubprotocol (lit ''Subprotocol name cannot be empty''))
      else if \<not> list_all (protocol_char ua) p
        then Err (InvalidSubprotocol
          (lit ''Subprotocol name '' @ [39] @ p @ [39] @
           lit '' contains invalid characters (only alphanumeric, hyphen, underscore allowed)''))
      else Ok ())"

definition with_protocol ::
  "(nat \<Rightarrow> bool) \<Rightarrow> rstr \<Rightarrow> subprotocol_list \<Rightarrow> subprotocol_list result" where
  "with_protocol ua p l =
     try_then (validate_protocol ua p) (\<lambda>_. Ok (l\<lparr>sl_protocols := sl_protocols l @ [p]\<rparr>))"

text \<open>The loop of \<^verbatim>\<open>from_slice\<close>, leaving at the first error.\<close>

fun with_protocols ::
  "(nat \<Rightarrow> bool) \<Rightarrow> rstr list \<Rightarrow> subprotocol_list \<Rightarrow> subprotocol_list result" where
  "with_protocols ua [] l = Ok l"
| "with_protocols ua (p # ps) l = try_then (with_protocol ua p l) (with_protocols ua ps)"

definition subprotocol_list_from_slice :: "(nat \<Rightarrow> bool) \<Rightarrow> rstr list \<Rightarrow> subprotocol_list result" where
  "subprotocol_list_from_slice ua ps = with_protocols ua ps subprotocol_list_new"

definition list_is_empty :: "subprotocol_list \<Rightarrow> bool" where
  "list_is_empty l \<longleftrightarrow> sl_protocols l = []"

definition list_len :: "subprotocol_list \<Rightarrow> nat" where
  "list_len l = length (sl_protocols l)"

definition list_contains :: "subprotocol_list \<Rightarrow> rstr \<Rightarrow> bool" where
  "list_contains l p = list_ex (\<lambda>q. q = p) (sl_protocols l)"

definition to_header_value :: "subprotocol_list \<Rightarrow> rstr" where
  "to_header_value l = join_with (lit '', '') (sl_protocols l)"

definition parse_response :: "subprotocol_list \<Rightarrow> rstr option \<Rightarrow> rstr option result" where
  "parse_response l selected =
     (case selected of
        None \<Rightarrow> Ok None
      | Some p \<Rightarrow>
          if \<not> list_contains l p
          then Err (SubprotocolNegotiationFailed
            (lit ''Server selected protocol '' @ [39] @ p @ [39] @ lit '' not offered by client''))
          else Ok (Some p))"

definition list_protocols :: "subprotocol_list \<Rightarrow> rstr list" where
  "list_protocols l = sl_protocols l"

definition list_display :: "subprotocol_list \<Rightarrow> rstr" where
  "list_display l = to_header_value l"

section \<open>The server's negotiator\<close>

record subprotocol_negotiator =
  sn_protocols :: "rstr list"
  sn_allow_wildcard :: bool

definition negotiator_new :: subprotocol_negotiator where
  "negotiator_new = \<lparr>sn_protocols = [], sn_allow_wildcard = False\<rparr>"

definition negotiator_with_protocol ::
  "(nat \<Rightarrow> bool) \<Rightarrow> rstr \<Rightarrow> subprotocol_negotiator \<Rightarrow> subprotocol_negotiator result" where
  "negotiator_with_protocol ua p n =
     try_then (validate_protocol ua p)
       (\<lambda>_. Ok (if p \<in> set (sn_protocols n) then n
                else n\<lparr>sn_protocols := sn_protocols n @ [p]\<rparr>))"

fun negotiator_with_protocols ::
  "(nat \<Rightarrow> bool) \<Rightarrow> rstr list \<Rightarrow> subprotocol_negotiator \<Rightarrow> subprotocol_negotiator result" where
  "negotiator_with_protocols ua [] n = Ok n"
| "negotiator_with_protocols ua (p # ps) n =
     try_then (negotiator_with_protocol ua p n) (negotiator_with_protocols ua ps)"

definition negotiator_from_slice :: "(nat \<Rightarrow> bool) \<Rightarrow> rstr list \<Rightarrow> subprotocol_negotiator result" where
  "negotiator_from_slice ua ps = negotiator_with_protocols ua ps negotiator_new"

definition with_wildcard :: "bool \<Rightarrow> subprotocol_negotiator \<Rightarrow> subprotocol_negotiator" where
  "with_wildcard b n = n\<lparr>sn_allow_wildcard := b\<rparr>"

definition with_reject_on_no_match :: "bool \<Rightarrow> subprotocol_negotiator \<Rightarrow> subprotocol_negotiator" where
  "with_reject_on_no_match b n = n"

definition negotiator_is_empty :: "subprotocol_negotiator \<Rightarrow> bool" where
  "negotiator_is_empty n \<longleftrightarrow> sn_protocols n = []"

definition negotiator_len :: "subprotocol_negotiator \<Rightarrow> nat" where
  "negotiator_len n = length (sn_protocols n)"

definition supports :: "subprotocol_negotiator \<Rightarrow> rstr \<Rightarrow> bool" where
  "supports n p = list_ex (\<lambda>q. q = p) (sn_protocols n)"

definition negotiate :: "subprotocol_negotiator \<Rightarrow> subprotocol_list \<Rightarrow> rstr option" where
  "negotiate n l =
     (if list_is_empty l then None
      else if sn_allow_wildcard n \<and> \<not> list_is_empty l
        then (case sl_protocols l of [] \<Rightarrow> None | p # _ \<Rightarrow> Some p)
      else List.find (supports n) (sl_protocols l))"

definition should_reject :: "subprotocol_negotiator \<Rightarrow> subprotocol_list \<Rightarrow> bool" where
  "should_reject n l \<longleftrightarrow> \<not> list_is_empty l \<and> negotiate n l = None"

text \<open>\<^verbatim>\<open>parse_header\<close>: the loop that collects the valid names, then the list built of them.\<close>

definition parse_header :: "(nat \<Rightarrow> bool) \<Rightarrow> rstr \<Rightarrow> subprotocol_list" where
  "parse_header ua h =
     (let protocols =
            fold (\<lambda>s acc.
                let p = trim s in
                if p \<noteq> [] then (case validate_protocol ua p of Inl _ \<Rightarrow> acc | Inr _ \<Rightarrow> acc @ [p]) else acc)
              (split_on 44 h) []
      in fold (\<lambda>p l. l\<lparr>sl_protocols := sl_protocols l @ [p]\<rparr>) protocols subprotocol_list_new)"

definition negotiator_protocols :: "subprotocol_negotiator \<Rightarrow> rstr list" where
  "negotiator_protocols n = sn_protocols n"

section \<open>Valid names\<close>

definition protocol_ok :: "(nat \<Rightarrow> bool) \<Rightarrow> rstr \<Rightarrow> bool" where
  "protocol_ok ua p \<longleftrightarrow> p \<noteq> [] \<and> list_all (protocol_char ua) p"

definition list_ok :: "(nat \<Rightarrow> bool) \<Rightarrow> subprotocol_list \<Rightarrow> bool" where
  "list_ok ua l \<longleftrightarrow> list_all (protocol_ok ua) (sl_protocols l)"

lemma validate_protocol_Ok: "validate_protocol ua p = Ok () \<longleftrightarrow> protocol_ok ua p"
  by (simp add: validate_protocol_def protocol_ok_def)

lemma validate_protocol_cases:
  "(case validate_protocol ua p of Inl _ \<Rightarrow> a | Inr _ \<Rightarrow> b) = (if protocol_ok ua p then b else a)"
  by (simp add: validate_protocol_def protocol_ok_def)

lemma try_validate:
  "try_then (validate_protocol ua p) (\<lambda>_. r) = Ok x \<longleftrightarrow> protocol_ok ua p \<and> r = Ok x"
  by (auto simp: validate_protocol_def protocol_ok_def)

lemma protocol_char_facts:
  assumes "alnum_table_ok ua" and "protocol_char ua c"
  shows "\<not> is_whitespace c" and "c \<noteq> 44"
proof -
  show "\<not> is_whitespace c"
    using assms alnum_not_whitespace [of ua c]
    by (auto simp: protocol_char_def is_whitespace_def)
  show "c \<noteq> 44"
    using assms(2) by (auto simp: protocol_char_def is_alphanumeric_def ascii_alnum_def)
qed

lemma protocol_ok_trim:
  assumes "alnum_table_ok ua" and "protocol_ok ua p"
  shows "trim p = p" and "44 \<notin> set p"
  using assms protocol_char_facts [of ua]
  by (auto intro!: trim_none simp: protocol_ok_def list_all_iff)

lemma fold_push_list:
  "fold (\<lambda>p l. l\<lparr>sl_protocols := sl_protocols l @ [p]\<rparr>) ps l = l\<lparr>sl_protocols := sl_protocols l @ ps\<rparr>"
  by (induction ps arbitrary: l) simp_all

lemma fold_filter_push:
  "fold (\<lambda>s acc. if P (f s) then acc @ [f s] else acc) ss acc = acc @ filter P (map f ss)"
  by (induction ss arbitrary: acc) simp_all

lemma parse_header_eq:
  "parse_header ua h = \<lparr>sl_protocols = filter (protocol_ok ua) (map trim (split_on 44 h))\<rparr>"
proof -
  have "(\<lambda>s acc. let p = trim s in
                if p \<noteq> [] then (case validate_protocol ua p of Inl _ \<Rightarrow> acc | Inr _ \<Rightarrow> acc @ [p]) else acc)
      = (\<lambda>s acc. if protocol_ok ua (trim s) then acc @ [trim s] else acc)"
    by (intro ext) (simp add: validate_protocol_cases Let_def protocol_ok_def)
  then show ?thesis
    by (simp add: parse_header_def fold_filter_push fold_push_list subprotocol_list_new_def)
qed

section \<open>Builders\<close>

lemma with_protocol_Ok:
  "with_protocol ua p l = Ok l' \<longleftrightarrow>
     protocol_ok ua p \<and> l' = l\<lparr>sl_protocols := sl_protocols l @ [p]\<rparr>"
  by (auto simp: with_protocol_def try_validate)

lemma negotiator_with_protocol_Ok:
  "negotiator_with_protocol ua p n = Ok n' \<longleftrightarrow>
     protocol_ok ua p \<and>
     n' = n\<lparr>sn_protocols := (if p \<in> set (sn_protocols n) then sn_protocols n else sn_protocols n @ [p])\<rparr>"
  by (auto simp: negotiator_with_protocol_def try_validate)

lemma with_protocols_eq:
  "with_protocols ua ps l = Ok l' \<longleftrightarrow>
     list_all (protocol_ok ua) ps \<and> l' = l\<lparr>sl_protocols := sl_protocols l @ ps\<rparr>"
  by (induction ps arbitrary: l)
    (auto simp: try_then_Ok_iff with_protocol_Ok)

lemma from_slice_ok:
  "subprotocol_list_from_slice ua ps = Ok l \<Longrightarrow> list_ok ua l \<and> sl_protocols l = ps"
  by (auto simp: subprotocol_list_from_slice_def with_protocols_eq list_ok_def subprotocol_list_new_def)

text \<open>The loop of the negotiator's builder keeps the first occurrence of each name.\<close>

fun push_new :: "rstr list \<Rightarrow> rstr list \<Rightarrow> rstr list" where
  "push_new acc [] = acc"
| "push_new acc (p # ps) = push_new (if p \<in> set acc then acc else acc @ [p]) ps"

lemma set_push_new: "set (push_new acc ps) = set acc \<union> set ps"
  by (induction ps arbitrary: acc) auto

lemma distinct_push_new: "distinct acc \<Longrightarrow> distinct (push_new acc ps)"
  by (induction ps arbitrary: acc) auto

lemma negotiator_with_protocols_eq:
  "negotiator_with_protocols ua ps n = Ok n' \<longleftrightarrow>
     list_all (protocol_ok ua) ps \<and> n' = n\<lparr>sn_protocols := push_new (sn_protocols n) ps\<rparr>"
  by (induction ps arbitrary: n)
    (auto simp: try_then_Ok_iff negotiator_with_protocol_Ok)


section \<open>The header\<close>

text \<open>
  The join of the names is split back at the commas; every part but the first starts with the
  space of the separator, which \<^verbatim>\<open>trim\<close> removes.
\<close>

lemma lit_separator: "lit '', '' = [44, 32]"
  by (simp add: lit_def)

lemma split_join_names:
  assumes "alnum_table_ok ua" and "list_all (protocol_ok ua) ps" and "ps \<noteq> []"
  shows "map trim (split_on 44 (join_with [44, 32] ps)) = ps"
  using assms(2,3)
proof (induction ps rule: induct_list012)
  case 1
  then show ?case by simp
next
  case (2 p)
  with protocol_ok_trim [OF assms(1), of p] show ?case by (simp add: split_on_none)
next
  case (3 p q ps)
  then have IH: "map trim (split_on 44 (join_with [44, 32] (q # ps))) = q # ps" by simp
  obtain s ss where sp: "split_on 44 (join_with [44, 32] (q # ps)) = s # ss"
    using split_on_not_Nil [of 44 "join_with [44, 32] (q # ps)"] by (auto simp: neq_Nil_conv)
  have "trim (32 # s) = trim s" by (rule trim_Cons_whitespace) (simp add: is_whitespace_def)
  with 3 protocol_ok_trim [OF assms(1), of p] IH sp show ?case
    by (simp add: split_on_append)
qed

lemma parse_header_value:
  assumes "alnum_table_ok ua" and "list_ok ua l"
  shows "parse_header ua (to_header_value l) = l"
proof (cases "sl_protocols l = []")
  case True
  then show ?thesis
    by (simp add: parse_header_eq to_header_value_def trim_def protocol_ok_def)
next
  case False
  with assms have "map trim (split_on 44 (to_header_value l)) = sl_protocols l"
    by (simp add: to_header_value_def lit_separator split_join_names list_ok_def)
  with assms(2) show ?thesis
    by (simp add: parse_header_eq list_ok_def list_all_iff filter_id_conv)
qed

interpretation header: codec to_header_value "\<lambda>h. Some (parse_header ua h)"
    "\<lambda>l. alnum_table_ok ua \<and> list_ok ua l" for ua
  by unfold_locales (simp add: parse_header_value)

lemma find_append_iff:
  "List.find P xs = Some x \<longleftrightarrow> (\<exists>pre post. xs = pre @ x # post \<and> P x \<and> (\<forall>y \<in> set pre. \<not> P y))"
proof
  assume "List.find P xs = Some x"
  then obtain i where i: "i < length xs" "P (xs ! i)" "x = xs ! i" "\<forall>j < i. \<not> P (xs ! j)"
    by (auto simp: find_Some_iff)
  then have "\<forall>y \<in> set (take i xs). \<not> P y"
    by (auto simp: in_set_conv_nth)
  moreover have "xs = take i xs @ x # drop (Suc i) xs"
    using i(1,3) by (simp add: id_take_nth_drop)
  ultimately show "\<exists>pre post. xs = pre @ x # post \<and> P x \<and> (\<forall>y \<in> set pre. \<not> P y)"
    using i(2,3) by blast
next
  assume "\<exists>pre post. xs = pre @ x # post \<and> P x \<and> (\<forall>y \<in> set pre. \<not> P y)"
  then obtain pre post where "xs = pre @ x # post" "P x" "\<forall>y \<in> set pre. \<not> P y" by blast
  then show "List.find P xs = Some x"
    by (induction pre arbitrary: xs) auto
qed

lemma negotiate_offered: "negotiate n l = Some p \<Longrightarrow> p \<in> set (sl_protocols l)"
  by (auto simp: negotiate_def find_append_iff split: if_splits list.splits)

section \<open>Properties\<close>

text \<open>A list of subprotocols the client built from names survives the header: the server
  parses exactly the names the client offered, in their order; and two lists with the same
  header are the same list.\<close>

theorem subprotocol_header_roundtrip:
  assumes "alnum_table_ok ua" and "subprotocol_list_from_slice ua ps = Ok l"
    and "subprotocol_list_from_slice ua ps' = Ok l'"
  shows "sl_protocols (parse_header ua (to_header_value l)) = ps \<and>
         (to_header_value l = to_header_value l' \<longleftrightarrow> ps = ps')"
proof -
  have "list_ok ua l" "sl_protocols l = ps" "list_ok ua l'" "sl_protocols l' = ps'"
    using from_slice_ok [OF assms(2)] from_slice_ok [OF assms(3)] by simp_all
  with assms(1) header.enc_inject [of ua l l'] show ?thesis
    by (auto simp: parse_header_value)
qed

theorem subprotocol_header_roundtrip_witness:
  "sl_protocols (parse_header (\<lambda>_. False)
     (to_header_value \<lparr>sl_protocols = [lit ''chat-v2'', lit ''mqtt'']\<rparr>)) = [lit ''chat-v2'', lit ''mqtt'']"
proof -
  have "subprotocol_list_from_slice (\<lambda>_. False) [lit ''chat-v2'', lit ''mqtt''] =
      Ok \<lparr>sl_protocols = [lit ''chat-v2'', lit ''mqtt'']\<rparr>"
    by code_simp
  from subprotocol_header_roundtrip [OF _ this this] show ?thesis
    by (simp add: alnum_table_ok_def)
qed

text \<open>Negotiation follows the client's preference: the server selects the first name of the
  client's list that it supports (with the wildcard, the first name of the list), the client
  accepts the selection, and nothing is selected exactly when the client offered nothing or,
  without the wildcard, nothing the server supports.\<close>

theorem negotiate_first_match:
  "(negotiate n l = Some p \<longleftrightarrow>
      (\<exists>pre post. sl_protocols l = pre @ p # post \<and>
         (if sn_allow_wildcard n then pre = []
          else p \<in> set (sn_protocols n) \<and> set pre \<inter> set (sn_protocols n) = {}))) \<and>
   (negotiate n l = None \<longleftrightarrow>
      sl_protocols l = [] \<or>
      (sn_allow_wildcard n = False \<and> set (sl_protocols l) \<inter> set (sn_protocols n) = {})) \<and>
   parse_response l (negotiate n l) = Ok (negotiate n l)"
proof -
  have sup: "supports n q \<longleftrightarrow> q \<in> set (sn_protocols n)" for q
    by (auto simp: supports_def list_ex_iff)
  have "negotiate n l = Some p \<longleftrightarrow>
      (\<exists>pre post. sl_protocols l = pre @ p # post \<and>
         (if sn_allow_wildcard n then pre = []
          else p \<in> set (sn_protocols n) \<and> set pre \<inter> set (sn_protocols n) = {}))" for p
    by (auto simp: negotiate_def list_is_empty_def find_append_iff sup split: list.splits)
  moreover have "negotiate n l = None \<longleftrightarrow> sl_protocols l = [] \<or>
      (sn_allow_wildcard n = False \<and> set (sl_protocols l) \<inter> set (sn_protocols n) = {})"
    by (auto simp: negotiate_def list_is_empty_def find_None_iff find_None_iff2 sup split: list.splits)
  moreover have "parse_response l (negotiate n l) = Ok (negotiate n l)"
    using negotiate_offered [of n l]
    by (cases "negotiate n l") (auto simp: parse_response_def list_contains_def list_ex_iff)
  ultimately show ?thesis by blast
qed

text \<open>C18: The whole handshake: the client offers the names \<open>cs\<close>, the server is configured with the
  names \<open>ss\<close> and no wildcard. The client learns the first of its names the server has, and the
  server rejects exactly when the client offered names and none is the server's; the reject
  option of the builder changes nothing.\<close>

theorem subprotocol_handshake:
  assumes "alnum_table_ok ua" and "subprotocol_list_from_slice ua cs = Ok l"
    and "negotiator_from_slice ua ss = Ok n"
  shows "parse_response l (negotiate n (parse_header ua (to_header_value l))) =
           Ok (List.find (\<lambda>p. p \<in> set ss) cs) \<and>
         (should_reject (with_reject_on_no_match b n) (parse_header ua (to_header_value l)) \<longleftrightarrow>
            cs \<noteq> [] \<and> set cs \<inter> set ss = {}) \<and>
         distinct (sn_protocols n)"
proof -
  have l: "list_ok ua l" "sl_protocols l = cs"
    using from_slice_ok [OF assms(2)] by simp_all
  have n: "set (sn_protocols n) = set ss" "sn_allow_wildcard n = False" "distinct (sn_protocols n)"
    using assms(3)
    by (auto simp: negotiator_from_slice_def negotiator_with_protocols_eq negotiator_new_def
        set_push_new intro: distinct_push_new)
  have sup: "supports n = (\<lambda>p. p \<in> set ss)"
    by (auto simp: supports_def list_ex_iff n)
  have neg: "negotiate n l = List.find (\<lambda>p. p \<in> set ss) cs"
    by (auto simp: negotiate_def list_is_empty_def l n sup)
  have find: "List.find (\<lambda>p. p \<in> set ss) cs = Some p \<Longrightarrow> p \<in> set cs" for p
    by (auto simp: find_append_iff)
  show ?thesis
    using assms(1) l n neg find
    by (auto simp: parse_header_value parse_response_def list_contains_def list_ex_iff
        should_reject_def with_reject_on_no_match_def list_is_empty_def find_None_iff find_None_iff2
        split: option.splits)
qed

theorem subprotocol_handshake_witness:
  "parse_response \<lparr>sl_protocols = [lit ''v2'', lit ''v1'']\<rparr>
     (negotiate \<lparr>sn_protocols = [lit ''v1'', lit ''x''], sn_allow_wildcard = False\<rparr>
       (parse_header (\<lambda>_. False) (to_header_value \<lparr>sl_protocols = [lit ''v2'', lit ''v1'']\<rparr>))) =
   Ok (Some (lit ''v1''))"
proof -
  have c: "subprotocol_list_from_slice (\<lambda>_. False) [lit ''v2'', lit ''v1''] =
      Ok \<lparr>sl_protocols = [lit ''v2'', lit ''v1'']\<rparr>"
    by code_simp
  have s: "negotiator_from_slice (\<lambda>_. False) [lit ''v1'', lit ''x''] =
      Ok \<lparr>sn_protocols = [lit ''v1'', lit ''x''], sn_allow_wildcard = False\<rparr>"
    by code_simp
  from subprotocol_handshake [OF _ c s] show ?thesis
    by (simp add: alnum_table_ok_def lit_def)
qed

text \<open>Whatever bytes the header holds, the names the server takes from it are valid, and each
  is a comma-separated part of the header without the white space around it; no valid part
  is lost.\<close>

theorem parse_header_valid:
  "list_ok ua (parse_header ua h) \<and>
   set (sl_protocols (parse_header ua h)) = {p. protocol_ok ua p \<and> p \<in> trim ` set (split_on 44 h)}"
  by (auto simp: parse_header_eq list_ok_def list_all_iff)

end
