(* ===== verification/Headers.thy ===== *)
theory Headers
  imports Errors
begin

text \<open>
  \<^verbatim>\<open>src/src/headers.rs\<close>: header names, header values and the case-insensitive multi-map of
  headers. \<open>ua\<close> is the standard library's table of alphanumeric characters outside ASCII and
  \<open>ul\<close> its lower casing of strings that are not ASCII. The \<^verbatim>\<open>http\<close> crate is a record of
  functions.
\<close>

section \<open>Names\<close>

definition header_name_char :: "(nat \<Rightarrow> bool) \<Rightarrow> nat \<Rightarrow> bool" where
  "header_name_char ua c \<longleftrightarrow> is_alphanumeric ua c \<or> c = 45 \<or> c = 33"

definition quoted :: "rstr \<Rightarrow> rstr" where
  "quoted s = [39] @ s @ [39]"

definition header_name_new :: "(nat \<Rightarrow> bool) \<Rightarrow> rstr \<Rightarrow> rstr result" where
  "header_name_new ua s =
     (if s = [] then Err (InvalidState (lit ''Header name cannot be empty''))
      else if \<not> list_all (header_name_char ua) s
        then Err (InvalidState
          (lit ''Invalid header name '' @ quoted s @ lit '': contains invalid characters''))
      else if list_ex is_ascii_control s
        then Err (InvalidState
          (lit ''Invalid header name '' @ quoted s @ lit '': contains control characters''))
      else Ok s)"

definition header_name_from :: "(nat \<Rightarrow> bool) \<Rightarrow> rstr \<Rightarrow> rstr outcome" where
  "header_name_from ua s = (case header_name_new ua s of Inl _ \<Rightarrow> Panic | Inr n \<Rightarrow> Ret n)"

definition header_name_from_string :: "(nat \<Rightarrow> bool) \<Rightarrow> rstr \<Rightarrow> rstr outcome" where
  "header_name_from_string alnum s =
     (case header_name_new alnum s of Inl e \<Rightarrow> Panic | Inr n \<Rightarrow> Ret n)"

section \<open>Values\<close>

text \<open>The loop over the characters with their positions, leaving at the first bad one.\<close>

fun check_value_chars :: "nat \<Rightarrow> rstr \<Rightarrow> unit result" where
  "check_value_chars i [] = Ok ()"
| "check_value_chars i (c # cs) =
     (if is_ascii_control c \<and> c \<noteq> 32
      then Err (InvalidState
        (lit ''Invalid header value at position '' @ show_nat i @
         lit '': contains control character 0x'' @ show_hex2 c))
      else if \<not> c < 128 \<and> c \<noteq> 32
      then Err (InvalidState
        (lit ''Invalid header value at position '' @ show_nat i @ lit '': contains non-ASCII character''))
      else check_value_chars (Suc i) cs)"

fun check_value_bytes :: "bytes \<Rightarrow> unit result" where
  "check_value_bytes [] = Ok ()"
| "check_value_bytes (b # bs) =
     (if \<not> (0x20 \<le> b \<and> b \<le> 0x7E)
      then Err (InvalidState
        (lit ''Invalid header value: contains byte 0x'' @ show_hex2 (unat b) @
         lit '' outside valid range 0x20-0x7E''))
      else check_value_bytes bs)"

definition header_value_new :: "rstr \<Rightarrow> rstr result" where
  "header_value_new v =
     (let s = trim v in
      try_then (check_value_chars 0 s) (\<lambda>_.
      try_then (check_value_bytes (utf8_encode s)) (\<lambda>_. Ok s)))"

definition header_value_from :: "rstr \<Rightarrow> rstr outcome" where
  "header_value_from v = (case header_value_new v of Inl _ \<Rightarrow> Panic | Inr s \<Rightarrow> Ret s)"

definition header_value_from_string :: "rstr \<Rightarrow> rstr outcome" where
  "header_value_from_string s = (case header_value_new s of Inl e \<Rightarrow> Panic | Inr v \<Rightarrow> Ret v)"

definition header_value_is_empty :: "rstr \<Rightarrow> bool" where
  "header_value_is_empty v \<longleftrightarrow> v = []"

text \<open>\<^verbatim>\<open>len\<close> counts the bytes of the encoding.\<close>

definition header_value_len :: "rstr \<Rightarrow> nat" where
  "header_value_len v = length (utf8_encode v)"

section \<open>The map\<close>

record header_map =
  inner :: "(rstr, rstr list) hmap"

definition header_map_new :: header_map where
  "header_map_new = \<lparr>inner = hm_empty\<rparr>"

type_synonym unicode = "(nat \<Rightarrow> bool) \<times> (rstr \<Rightarrow> rstr)"

definition insert_header :: "unicode \<Rightarrow> rstr \<Rightarrow> rstr \<Rightarrow> header_map \<Rightarrow> header_map \<times> unit result" where
  "insert_header u name val m =
     (case header_name_new (fst u) name of
        Inl e \<Rightarrow> (m, Err e)
      | Inr n \<Rightarrow>
          (case header_value_new val of
             Inl e \<Rightarrow> (m, Err e)
           | Inr v \<Rightarrow> (m\<lparr>inner := hm_insert (to_lowercase (snd u) n) [v] (inner m)\<rparr>, Ok ())))"

text \<open>\<^verbatim>\<open>entry(key).or_default()\<close> followed by an append to the vector.\<close>

definition entry_append :: "rstr \<Rightarrow> rstr list \<Rightarrow> header_map \<Rightarrow> header_map" where
  "entry_append key vs m =
     m\<lparr>inner := hm_insert key
         ((case hm_get (inner m) key of None \<Rightarrow> [] | Some ws \<Rightarrow> ws) @ vs) (inner m)\<rparr>"

definition append_header :: "unicode \<Rightarrow> rstr \<Rightarrow> rstr \<Rightarrow> header_map \<Rightarrow> header_map \<times> unit result" where
  "append_header u name val m =
     (case header_name_new (fst u) name of
        Inl e \<Rightarrow> (m, Err e)
      | Inr n \<Rightarrow>
          (case header_value_new val of
             Inl e \<Rightarrow> (m, Err e)
           | Inr v \<Rightarrow> (entry_append (to_lowercase (snd u) n) [v] m, Ok ())))"

definition first :: "'a list \<Rightarrow> 'a option" where
  "first xs = (case xs of [] \<Rightarrow> None | x # _ \<Rightarrow> Some x)"

definition get_header :: "unicode \<Rightarrow> rstr \<Rightarrow> header_map \<Rightarrow> rstr option" where
  "get_header u name m =
     (case hm_get (inner m) (to_lowercase (snd u) name) of None \<Rightarrow> None | Some vs \<Rightarrow> first vs)"

definition get_all :: "unicode \<Rightarrow> rstr \<Rightarrow> header_map \<Rightarrow> rstr list" where
  "get_all u name m =
     (case hm_get (inner m) (to_lowercase (snd u) name) of None \<Rightarrow> [] | Some vs \<Rightarrow> vs)"

text \<open>\<^verbatim>\<open>remove\<close> takes the vector out of the map and pops its last element.\<close>

definition remove_header :: "unicode \<Rightarrow> rstr \<Rightarrow> header_map \<Rightarrow> header_map \<times> rstr option" where
  "remove_header u name m =
     (let key = to_lowercase (snd u) name in
      (m\<lparr>inner := hm_remove key (inner m)\<rparr>,
       case hm_get (inner m) key of None \<Rightarrow> None | Some vs \<Rightarrow> if vs = [] then None else Some (last vs)))"

definition contains_header :: "unicode \<Rightarrow> rstr \<Rightarrow> header_map \<Rightarrow> bool" where
  "contains_header u name m \<longleftrightarrow> hm_get (inner m) (to_lowercase (snd u) name) \<noteq> None"

definition header_map_is_empty :: "header_map \<Rightarrow> bool" where
  "header_map_is_empty m \<longleftrightarrow> hm_len (inner m) = 0"

definition header_map_len :: "header_map \<Rightarrow> nat" where
  "header_map_len m = hm_len (inner m)"

definition clear_headers :: "header_map \<Rightarrow> header_map" where
  "clear_headers m = m\<lparr>inner := hm_empty\<rparr>"

definition iter_headers :: "header_map \<Rightarrow> (rstr \<times> rstr) list" where
  "iter_headers m =
     List.map_filter (\<lambda>(name, vs). case first vs of None \<Rightarrow> None | Some v \<Rightarrow> Some (name, v)) (inner m)"

definition iter_all :: "header_map \<Rightarrow> (rstr \<times> rstr list) list" where
  "iter_all m = inner m"

definition extend_headers :: "header_map \<Rightarrow> header_map \<Rightarrow> header_map" where
  "extend_headers other m = fold (\<lambda>(key, vs). entry_append key vs) (inner other) m"

definition get_authorization :: "unicode \<Rightarrow> header_map \<Rightarrow> rstr option" where
  "get_authorization u = get_header u (lit ''Authorization'')"

definition set_authorization :: "unicode \<Rightarrow> rstr \<Rightarrow> header_map \<Rightarrow> header_map \<times> unit result" where
  "set_authorization u = insert_header u (lit ''Authorization'')"

definition get_user_agent :: "unicode \<Rightarrow> header_map \<Rightarrow> rstr option" where
  "get_user_agent u = get_header u (lit ''User-Agent'')"

definition set_user_agent :: "unicode \<Rightarrow> rstr \<Rightarrow> header_map \<Rightarrow> header_map \<times> unit result" where
  "set_user_agent u = insert_header u (lit ''User-Agent'')"

definition get_origin :: "unicode \<Rightarrow> header_map \<Rightarrow> rstr option" where
  "get_origin u = get_header u (lit ''Origin'')"

definition set_origin :: "unicode \<Rightarrow> rstr \<Rightarrow> header_map \<Rightarrow> header_map \<times> unit result" where
  "set_origin u = insert_header u (lit ''Origin'')"

definition get_cookie :: "unicode \<Rightarrow> header_map \<Rightarrow> rstr option" where
  "get_cookie u = get_header u (lit ''Cookie'')"

definition set_cookie :: "unicode \<Rightarrow> rstr \<Rightarrow> header_map \<Rightarrow> header_map \<times> unit result" where
  "set_cookie u = insert_header u (lit ''Cookie'')"

definition get_all_cookies :: "unicode \<Rightarrow> header_map \<Rightarrow> rstr list" where
  "get_all_cookies u = get_all u (lit ''Cookie'')"

definition get_host :: "unicode \<Rightarrow> header_map \<Rightarrow> rstr option" where
  "get_host u = get_header u (lit ''Host'')"

definition set_host :: "unicode \<Rightarrow> rstr \<Rightarrow> header_map \<Rightarrow> header_map \<times> unit result" where
  "set_host u = insert_header u (lit ''Host'')"

definition get_api_key :: "unicode \<Rightarrow> header_map \<Rightarrow> rstr option" where
  "get_api_key u = get_header u (lit ''X-API-Key'')"

definition set_api_key :: "unicode \<Rightarrow> rstr \<Rightarrow> header_map \<Rightarrow> header_map \<times> unit result" where
  "set_api_key u = insert_header u (lit ''X-API-Key'')"

definition from_iter :: "unicode \<Rightarrow> (rstr \<times> rstr) list \<Rightarrow> header_map" where
  "from_iter u kvs = fold (\<lambda>(k, v) m. fst (insert_header u k v m)) kvs header_map_new"

definition from_iter_str :: "unicode \<Rightarrow> (rstr \<times> rstr) list \<Rightarrow> header_map" where
  "from_iter_str u kvs = fold (\<lambda>(k, v) m. fst (insert_header u k v m)) kvs header_map_new"

text \<open>The capacity of the hash map is not visible.\<close>

definition header_map_with_capacity :: "nat \<Rightarrow> header_map" where
  "header_map_with_capacity n = header_map_new"

section \<open>Conversions to and from the \<^verbatim>\<open>http\<close> crate\<close>

text \<open>
  What the conversions use of \<^verbatim>\<open>http\<close>: parsing names and values (with the rendered error on
  the left), the empty map, \<^verbatim>\<open>append\<close>, iteration, and reading names and values back.
\<close>

record ('n, 'v, 'h) http_api =
  http_name :: "rstr \<Rightarrow> rstr + 'n"
  http_value :: "rstr \<Rightarrow> rstr + 'v"
  http_new :: 'h
  http_append :: "'n \<Rightarrow> 'v \<Rightarrow> 'h \<Rightarrow> 'h"
  http_iter :: "'h \<Rightarrow> ('n \<times> 'v) list"
  http_name_str :: "'n \<Rightarrow> rstr"
  http_value_str :: "'v \<Rightarrow> rstr option"

definition from_http :: "('n, 'v, 'h) http_api \<Rightarrow> unicode \<Rightarrow> 'h \<Rightarrow> header_map" where
  "from_http A u h =
     fold (\<lambda>(name, val) m.
         let name_str = http_name_str A name;
             value_str = (case http_value_str A val of None \<Rightarrow> [] | Some s \<Rightarrow> s)
         in fst (append_header u name_str value_str m))
       (http_iter A h) header_map_new"

fun to_http_values ::
  "('n, 'v, 'h) http_api \<Rightarrow> rstr \<Rightarrow> 'n \<Rightarrow> rstr list \<Rightarrow> 'h \<Rightarrow> 'h result" where
  "to_http_values A name n [] h = Ok h"
| "to_http_values A name n (v # vs) h =
     (case http_value A v of
        Inl e \<Rightarrow> Err (InvalidState (lit ''Invalid header value for '' @ quoted name @ lit '': '' @ e))
      | Inr w \<Rightarrow> to_http_values A name n vs (http_append A n w h))"

fun to_http_entries ::
  "('n, 'v, 'h) http_api \<Rightarrow> (rstr \<times> rstr list) list \<Rightarrow> 'h \<Rightarrow> 'h result" where
  "to_http_entries A [] h = Ok h"
| "to_http_entries A ((name, vs) # es) h =
     (case http_name A name of
        Inl e \<Rightarrow> Err (InvalidState (lit ''Invalid header name '' @ quoted name @ lit '': '' @ e))
      | Inr n \<Rightarrow> try_then (to_http_values A name n vs h) (to_http_entries A es))"

definition to_http :: "('n, 'v, 'h) http_api \<Rightarrow> header_map \<Rightarrow> 'h result" where
  "to_http A m = to_http_entries A (iter_all m) (http_new A)"


definition from_http_owned :: "('n, 'v, 'h) http_api \<Rightarrow> unicode \<Rightarrow> 'h \<Rightarrow> header_map" where
  "from_http_owned A u h = from_http A u h"

definition from_http_header_map :: "('n, 'v, 'h) http_api \<Rightarrow> unicode \<Rightarrow> 'h \<Rightarrow> header_map" where
  "from_http_header_map A u h = from_http A u h"

definition to_http_owned :: "('n, 'v, 'h) http_api \<Rightarrow> header_map \<Rightarrow> 'h result" where
  "to_http_owned A m = to_http A m"

definition to_http_header_map :: "('n, 'v, 'h) http_api \<Rightarrow> header_map \<Rightarrow> 'h result" where
  "to_http_header_map A m = to_http A m"

section \<open>Multi-maps\<close>

text \<open>The contract the client of a header map relies on, over the keys as they are stored.\<close>

locale multi_map =
  fixes mt :: "'m"
    and vals :: "'k \<Rightarrow> 'm \<Rightarrow> 'v list"
    and put :: "'k \<Rightarrow> 'v \<Rightarrow> 'm \<Rightarrow> 'm"
    and add :: "'k \<Rightarrow> 'v \<Rightarrow> 'm \<Rightarrow> 'm"
    and del :: "'k \<Rightarrow> 'm \<Rightarrow> 'm"
  assumes vals_empty: "vals k mt = []"
    and vals_put: "vals k' (put k v m) = (if k' = k then [v] else vals k' m)"
    and vals_add: "vals k' (add k v m) = (if k' = k then vals k m @ [v] else vals k' m)"
    and vals_del: "vals k' (del k m) = (if k' = k then [] else vals k' m)"
begin

lemma vals_fold_add:
  "vals k (fold (\<lambda>(k, v). add k v) kvs m) = vals k m @ map snd (filter (\<lambda>p. fst p = k) kvs)"
  by (induction kvs arbitrary: m) (auto simp: vals_add)

lemma vals_fold_put:
  "vals k (fold (\<lambda>(k, v). put k v) kvs m) =
     (case map_of (rev kvs) k of None \<Rightarrow> vals k m | Some v \<Rightarrow> [v])"
  by (induction kvs arbitrary: m) (auto simp: vals_put map_add_def split: option.splits)

end

definition stored :: "rstr \<Rightarrow> header_map \<Rightarrow> rstr list" where
  "stored k m = (case hm_get (inner m) k of None \<Rightarrow> [] | Some vs \<Rightarrow> vs)"

interpretation hdrs: multi_map header_map_new stored
  "\<lambda>k v m. m\<lparr>inner := hm_insert k [v] (inner m)\<rparr>" "\<lambda>k v. entry_append k [v]"
  "\<lambda>k m. m\<lparr>inner := hm_remove k (inner m)\<rparr>"
  by unfold_locales
    (auto simp: stored_def header_map_new_def entry_append_def hm.lookup_insert hm.lookup_remove
      hm.lookup_empty split: option.splits)

lemma get_all_stored: "get_all u n m = stored (to_lowercase (snd u) n) m"
  by (simp add: get_all_def stored_def)

lemma stored_entry_append: "stored k' (entry_append k vs m) = (if k' = k then stored k m @ vs else stored k' m)"
  by (auto simp: stored_def entry_append_def hm.lookup_insert split: option.splits)

section \<open>Validity\<close>

definition printable :: "rstr \<Rightarrow> bool" where
  "printable s \<longleftrightarrow> list_all (\<lambda>c. 32 \<le> c \<and> c \<le> 126) s"

definition header_name_ok :: "(nat \<Rightarrow> bool) \<Rightarrow> rstr \<Rightarrow> bool" where
  "header_name_ok ua s \<longleftrightarrow> s \<noteq> [] \<and> list_all (header_name_char ua) s"

lemma header_name_ok_chars:
  "header_name_ok ua s \<longleftrightarrow> s \<noteq> [] \<and> list_all (\<lambda>c. is_alphanumeric ua c \<or> c = 45 \<or> c = 33) s"
  by (simp add: header_name_ok_def header_name_char_def [abs_def])

lemma header_name_char_not_control: "header_name_char ua c \<Longrightarrow> \<not> is_ascii_control c"
  by (auto simp: header_name_char_def is_alphanumeric_def ascii_alnum_def is_ascii_control_def split: if_splits)

lemma header_name_new_Ok: "header_name_new ua s = Ok n \<longleftrightarrow> header_name_ok ua s \<and> n = s"
  using header_name_char_not_control [of ua]
  by (auto simp: header_name_new_def header_name_ok_def list_all_iff list_ex_iff)

lemma header_name_new_cases:
  "(\<exists>e. header_name_new ua s = Err e \<and> \<not> header_name_ok ua s) \<or>
   (header_name_new ua s = Ok s \<and> header_name_ok ua s)"
  using header_name_new_Ok [of ua s] by (cases "header_name_new ua s") auto

lemma check_value_chars_Ok: "check_value_chars i cs = Ok () \<longleftrightarrow> printable cs"
  by (induction i cs rule: check_value_chars.induct) (auto simp: printable_def is_ascii_control_def)

lemma check_value_bytes_Ok: "check_value_bytes bs = Ok () \<longleftrightarrow> list_all (\<lambda>b. 0x20 \<le> b \<and> b \<le> 0x7E) bs"
  by (induction bs rule: check_value_bytes.induct) auto

lemma printable_bytes: "printable s \<Longrightarrow> check_value_bytes (utf8_encode s) = Ok ()"
  unfolding check_value_bytes_Ok
  by (auto simp: printable_def list_all_iff utf8_encode_def utf8_char_def word_le_nat_alt unat_of_nat)

lemma header_value_new_Ok: "header_value_new v = Ok s \<longleftrightarrow> printable (trim v) \<and> s = trim v"
proof (cases "printable (trim v)")
  case True
  then have "check_value_chars 0 (trim v) = Ok ()" by (simp add: check_value_chars_Ok)
  with True show ?thesis by (auto simp: header_value_new_def Let_def printable_bytes)
next
  case False
  then have "check_value_chars 0 (trim v) \<noteq> Ok ()" by (simp add: check_value_chars_Ok)
  then obtain e where "check_value_chars 0 (trim v) = Err e"
    by (cases "check_value_chars 0 (trim v)") auto
  with False show ?thesis by (simp add: header_value_new_def Let_def)
qed

lemma header_value_new_cases:
  "(\<exists>e. header_value_new v = Err e \<and> \<not> printable (trim v)) \<or>
   (header_value_new v = Ok (trim v) \<and> printable (trim v))"
  using header_value_new_Ok [of v] by (cases "header_value_new v") auto

lemma insert_header_eq:
  "insert_header u n v m =
     (if header_name_ok (fst u) n \<and> printable (trim v)
      then (m\<lparr>inner := hm_insert (to_lowercase (snd u) n) [trim v] (inner m)\<rparr>, Ok ())
      else (m, snd (insert_header u n v m)))"
  using header_name_new_cases [of "fst u" n] header_value_new_cases [of v]
  by (auto simp: insert_header_def)

lemma append_header_eq:
  "append_header u n v m =
     (if header_name_ok (fst u) n \<and> printable (trim v)
      then (entry_append (to_lowercase (snd u) n) [trim v] m, Ok ())
      else (m, snd (append_header u n v m)))"
  using header_name_new_cases [of "fst u" n] header_value_new_cases [of v]
  by (auto simp: append_header_def)

lemma insert_append_answer:
  "snd (insert_header u n v m) = Ok () \<longleftrightarrow> header_name_ok (fst u) n \<and> printable (trim v)"
  "snd (append_header u n v m) = Ok () \<longleftrightarrow> header_name_ok (fst u) n \<and> printable (trim v)"
  using header_name_new_cases [of "fst u" n] header_value_new_cases [of v]
  by (auto simp: insert_header_def append_header_def)

lemma stored_fold_entry_append:
  "distinct (map fst es) \<Longrightarrow>
     stored k (fold (\<lambda>(key, vs). entry_append key vs) es m) =
       stored k m @ (case map_of es k of None \<Rightarrow> [] | Some vs \<Rightarrow> vs)"
proof (induction es arbitrary: m)
  case Nil
  then show ?case by simp
next
  case (Cons e es)
  obtain key vs where e: "e = (key, vs)" by (cases e)
  with Cons.prems have "map_of es key = None" by (simp add: map_of_eq_None_iff)
  with Cons e show ?case by (auto simp: stored_entry_append)
qed

lemma last_option: "xs \<noteq> [] \<Longrightarrow> Some (last xs) = first (rev xs)"
  by (cases xs rule: rev_cases) (simp_all add: first_def)

section \<open>Properties\<close>




section \<open>The invariant\<close>

text \<open>All that a user can do to a header map; a map given to \<^verbatim>\<open>extend\<close> was itself built by such
  operations, which \<open>ExtendWith\<close> holds.\<close>

datatype header_op =
    InsertHeader rstr rstr
  | AppendHeader rstr rstr
  | RemoveHeader rstr
  | ExtendWith "header_op list"
  | ClearHeaders

fun header_step :: "unicode \<Rightarrow> header_op \<Rightarrow> header_map \<Rightarrow> header_map"
  and header_run :: "unicode \<Rightarrow> header_op list \<Rightarrow> header_map \<Rightarrow> header_map"
where
  "header_step u (InsertHeader n v) m = fst (insert_header u n v m)"
| "header_step u (AppendHeader n v) m = fst (append_header u n v m)"
| "header_step u (RemoveHeader n) m = fst (remove_header u n m)"
| "header_step u (ExtendWith es) m = extend_headers (header_run u es header_map_new) m"
| "header_step u ClearHeaders m = clear_headers m"
| "header_run u [] m = m"
| "header_run u (e # es) m = header_run u es (header_step u e m)"

text \<open>The other constructors are such runs: from pairs, and from an \<^verbatim>\<open>http::HeaderMap\<close>.\<close>

lemma header_run_fold: "header_run u es m = fold (header_step u) es m"
  by (induction es arbitrary: m) simp_all

lemma from_iter_run: "from_iter u kvs = header_run u (map (\<lambda>(k, v). InsertHeader k v) kvs) header_map_new"
  by (auto simp: from_iter_def header_run_fold fold_map intro!: fold_cong)

lemma from_http_run:
  "from_http A u h =
     header_run u (map (\<lambda>(n, v). AppendHeader (http_name_str A n)
       (case http_value_str A v of None \<Rightarrow> [] | Some s \<Rightarrow> s)) (http_iter A h)) header_map_new"
  by (auto simp: from_http_def header_run_fold fold_map Let_def intro!: fold_cong)

definition values_ok :: "rstr list \<Rightarrow> bool" where
  "values_ok vs \<longleftrightarrow> vs \<noteq> [] \<and> list_all (\<lambda>v. printable v \<and> trim v = v) vs"

definition header_map_ok :: "header_map \<Rightarrow> bool" where
  "header_map_ok m \<longleftrightarrow> hm_wf (inner m) \<and> (\<forall>vs \<in> set (hm_values (inner m)). values_ok vs)"

lemma header_map_ok_empty: "header_map_ok \<lparr>inner = hm_empty\<rparr>" "header_map_ok header_map_new"
  by (simp_all add: header_map_ok_def header_map_new_def hm_wf_def hm_empty_def hm_values_def)

lemma header_map_ok_put:
  "header_map_ok m \<Longrightarrow> values_ok vs \<Longrightarrow> header_map_ok (m\<lparr>inner := hm_insert k vs (inner m)\<rparr>)"
  using hm_values_insert [of k vs "inner m"] by (auto simp: header_map_ok_def hm.ok_insert)

lemma header_map_ok_del: "header_map_ok m \<Longrightarrow> header_map_ok (m\<lparr>inner := hm_remove k (inner m)\<rparr>)"
  using hm_values_remove [of k "inner m"] by (auto simp: header_map_ok_def hm.ok_remove)

lemma header_map_ok_get: "header_map_ok m \<Longrightarrow> hm_get (inner m) k = Some vs \<Longrightarrow> values_ok vs"
  by (auto simp: header_map_ok_def dest: hm_values_mem)

lemma header_map_ok_get_all: "header_map_ok m \<Longrightarrow> list_all printable (get_all u n m)"
  using header_map_ok_get [of m "to_lowercase (snd u) n"]
  by (cases "hm_get (inner m) (to_lowercase (snd u) n)") (simp_all add: get_all_def values_ok_def list_all_iff)

lemma header_map_ok_add: "header_map_ok m \<Longrightarrow> values_ok vs \<Longrightarrow> header_map_ok (entry_append k vs m)"
  by (auto simp: entry_append_def values_ok_def intro!: header_map_ok_put
      dest: header_map_ok_get split: option.splits)

lemma values_ok_single: "printable (trim v) \<Longrightarrow> values_ok [trim v]"
  by (simp add: values_ok_def)

lemma header_map_ok_insert: "header_map_ok m \<Longrightarrow> header_map_ok (fst (insert_header u n v m))"
  by (subst insert_header_eq) (simp add: header_map_ok_put values_ok_single)

lemma header_map_ok_append: "header_map_ok m \<Longrightarrow> header_map_ok (fst (append_header u n v m))"
  by (subst append_header_eq) (simp add: header_map_ok_add values_ok_single)

lemma header_map_ok_from_iter: "header_map_ok (from_iter u kvs)"
proof -
  have "header_map_ok (fold (\<lambda>(k, v) m. fst (insert_header u k v m)) kvs m)" if "header_map_ok m" for m
    using that by (induction kvs arbitrary: m) (auto intro: header_map_ok_insert)
  then show ?thesis by (simp add: from_iter_def header_map_ok_empty)
qed

lemma header_map_ok_fold:
  "header_map_ok m \<Longrightarrow> list_all (\<lambda>e. values_ok (snd e)) es \<Longrightarrow>
     header_map_ok (fold (\<lambda>(key, vs). entry_append key vs) es m)"
  by (induction es arbitrary: m) (simp_all add: header_map_ok_add case_prod_beta)

lemma header_map_ok_extend: "header_map_ok other \<Longrightarrow> header_map_ok m \<Longrightarrow> header_map_ok (extend_headers other m)"
  unfolding extend_headers_def
  by (rule header_map_ok_fold) (simp_all add: header_map_ok_def hm_values_def list_all_iff)

lemma header_map_ok_clear: "header_map_ok (clear_headers m)"
  by (simp add: clear_headers_def header_map_ok_def hm_wf_def hm_empty_def hm_values_def)

text \<open>The names in the map are the lower case of names that the code accepts.\<close>

definition header_names_ok :: "unicode \<Rightarrow> header_map \<Rightarrow> bool" where
  "header_names_ok u m \<longleftrightarrow>
     fst ` set (inner m) \<subseteq> to_lowercase (snd u) ` {n. header_name_ok (fst u) n}"

lemma header_names_ok_empty: "header_names_ok u header_map_new" "header_names_ok u (clear_headers m)"
  by (simp_all add: header_names_ok_def header_map_new_def clear_headers_def hm_empty_def)

lemma header_names_ok_put:
  assumes "header_names_ok u m" and "header_name_ok (fst u) n"
  shows "header_names_ok u (m\<lparr>inner := hm_insert (to_lowercase (snd u) n) vs (inner m)\<rparr>)"
proof -
  have "fst ` set (hm_insert (to_lowercase (snd u) n) vs (inner m)) \<subseteq>
      Set.insert (to_lowercase (snd u) n) (fst ` set (inner m))" by (rule hm_keys_insert)
  also have "\<dots> \<subseteq> to_lowercase (snd u) ` {n. header_name_ok (fst u) n}"
    using assms by (simp add: header_names_ok_def)
  finally show ?thesis by (simp add: header_names_ok_def)
qed

lemma header_names_ok_insert:
  "header_names_ok u m \<Longrightarrow> header_names_ok u (fst (insert_header u n v m))"
  by (subst insert_header_eq) (simp add: header_names_ok_put)

lemma header_names_ok_append:
  "header_names_ok u m \<Longrightarrow> header_names_ok u (fst (append_header u n v m))"
  by (subst append_header_eq) (simp add: entry_append_def header_names_ok_put)

lemma header_names_ok_remove:
  "header_names_ok u m \<Longrightarrow> header_names_ok u (fst (remove_header u n m))"
  using hm_keys_remove [of "to_lowercase (snd u) n" "inner m"]
  by (simp add: header_names_ok_def remove_header_def Let_def)

lemma header_names_ok_extend:
  assumes "header_names_ok u other" and "header_names_ok u m"
  shows "header_names_ok u (extend_headers other m)"
proof -
  have "header_names_ok u (fold (\<lambda>(key, vs). entry_append key vs) es m)"
    if "header_names_ok u \<lparr>inner = es\<rparr>" "header_names_ok u m" for es m
    using that
  proof (induction es arbitrary: m)
    case (Cons e es)
    obtain k vs where e: "e = (k, vs)" by (cases e)
    with Cons.prems(1) obtain n where "header_name_ok (fst u) n" "k = to_lowercase (snd u) n"
      by (auto simp: header_names_ok_def)
    with Cons.prems(2) have "header_names_ok u (entry_append k vs m)"
      by (simp add: entry_append_def header_names_ok_put)
    with Cons.IH Cons.prems(1) e show ?case by (simp add: header_names_ok_def)
  qed simp
  moreover have "header_names_ok u \<lparr>inner = inner other\<rparr>" using assms(1) by (simp add: header_names_ok_def)
  ultimately show ?thesis using assms(2) unfolding extend_headers_def by blast
qed

definition headers_valid :: "unicode \<Rightarrow> header_map \<Rightarrow> bool" where
  "headers_valid u m \<longleftrightarrow> header_map_ok m \<and> header_names_ok u m"

lemma headers_valid_new: "headers_valid u header_map_new"
  by (simp add: headers_valid_def header_map_ok_empty header_names_ok_empty)

lemma headers_valid_insert: "headers_valid u m \<Longrightarrow> headers_valid u (fst (insert_header u n v m))"
  by (simp add: headers_valid_def header_map_ok_insert header_names_ok_insert)

lemma headers_valid_extend:
  "headers_valid u other \<Longrightarrow> headers_valid u m \<Longrightarrow> headers_valid u (extend_headers other m)"
  by (simp add: headers_valid_def header_map_ok_extend header_names_ok_extend)

lemma headers_valid_step: "headers_valid u m \<Longrightarrow> headers_valid u (header_step u e m)"
  and headers_valid_run: "headers_valid u m \<Longrightarrow> headers_valid u (header_run u es m)"
proof (induction u e m and u es m rule: header_step_header_run.induct)
  case (2 u n v m)
  then show ?case by (simp add: headers_valid_def header_map_ok_append header_names_ok_append)
next
  case (3 u n m)
  then show ?case
    using header_names_ok_remove [of u m n]
    by (simp add: headers_valid_def remove_header_def Let_def header_map_ok_del)
next
  case (4 u es m)
  then show ?case by (simp add: headers_valid_extend headers_valid_new)
next
  case (5 u m)
  then show ?case by (simp add: headers_valid_def header_map_ok_clear header_names_ok_empty)
qed (simp_all add: headers_valid_insert)

interpretation hdr_machine: invariant_machine "header_step u" "headers_valid u" for u
  by unfold_locales (rule headers_valid_step)

text \<open>C31: No header can be injected: after any sequence of operations, with any names and values
  given and extensions by any maps built in the same way, every value in the map is printable
  ASCII (no CR, LF, NUL), every name in the map is the lower case of a name that the code
  accepts and has a value, and a removal forgets the name and answers the last of its values
  (the documentation says the first).\<close>

theorem no_header_injection:
  "let m = header_run u es header_map_new in
   header_names_ok u m \<and>
   list_all printable (get_all u n m) \<and>
   (contains_header u n m \<longleftrightarrow> get_all u n m \<noteq> []) \<and>
   (contains_header u n m \<longleftrightarrow> get_header u n m \<noteq> None) \<and>
   snd (remove_header u n m) = first (rev (get_all u n m)) \<and>
   get_all u n (fst (remove_header u n m)) = []"
proof -
  define m where "m = header_run u es header_map_new"
  have valid: "headers_valid u m"
    unfolding m_def header_run_fold by (rule hdr_machine.run_inv [OF headers_valid_new])
  then have ok: "header_map_ok m" and names: "header_names_ok u m" by (simp_all add: headers_valid_def)
  have "get_all u n (fst (remove_header u n m)) = []"
    by (simp add: remove_header_def Let_def get_all_stored hdrs.vals_del)
  with names show ?thesis
    unfolding m_def [symmetric] Let_def
    using header_map_ok_get [OF ok, of "to_lowercase (snd u) n"]
    by (auto simp: get_all_def contains_header_def get_header_def remove_header_def Let_def
        values_ok_def last_option first_def list_all_iff split: option.splits list.splits)
qed

text \<open>\<^verbatim>\<open>HeaderValue::new\<close> accepts exactly the strings that are printable ASCII after trimming,
  and otherwise names the position of the first character that is not.\<close>

theorem header_value_validation:
  "(header_value_new v = Ok s \<longleftrightarrow> printable (trim v) \<and> s = trim v) \<and>
   (\<forall>pre c post. trim v = pre @ c # post \<and> printable pre \<and> \<not> printable [c] \<longrightarrow>
      header_value_new v =
        Err (InvalidState
          (if is_ascii_control c
           then lit ''Invalid header value at position '' @ show_nat (length pre) @
                lit '': contains control character 0x'' @ show_hex2 c
           else lit ''Invalid header value at position '' @ show_nat (length pre) @
                lit '': contains non-ASCII character'')))"
proof -
  have "check_value_chars i (pre @ c # post) =
      Err (InvalidState
        (if is_ascii_control c
         then lit ''Invalid header value at position '' @ show_nat (i + length pre) @
              lit '': contains control character 0x'' @ show_hex2 c
         else lit ''Invalid header value at position '' @ show_nat (i + length pre) @
              lit '': contains non-ASCII character''))"
    if "printable pre" "\<not> printable [c]" for i pre c post
    using that
    by (induction pre arbitrary: i) (auto simp: printable_def is_ascii_control_def)
  then have "header_value_new v =
        Err (InvalidState
          (if is_ascii_control c
           then lit ''Invalid header value at position '' @ show_nat (length pre) @
                lit '': contains control character 0x'' @ show_hex2 c
           else lit ''Invalid header value at position '' @ show_nat (length pre) @
                lit '': contains non-ASCII character''))"
    if "trim v = pre @ c # post" "printable pre" "\<not> printable [c]" for pre c post
    using that by (simp add: header_value_new_def Let_def)
  then show ?thesis by (simp add: header_value_new_Ok)
qed


theorem header_value_validation_witness:
  "header_value_new [97, 10, 98] =
     Err (InvalidState (lit ''Invalid header value at position '' @ show_nat 1 @
       lit '': contains control character 0x'' @ show_hex2 10))"
proof -
  have "trim [97, 10, 98] = [97] @ 10 # [98]" "printable [97]" "\<not> printable [10]"
    by (simp_all add: trim_def is_whitespace_def printable_def)
  with header_value_validation [of "[97, 10, 98]" "[]", THEN conjunct2, rule_format, of "[97]" 10 "[98]"]
  show ?thesis by (simp add: is_ascii_control_def)
qed


section \<open>Through the \<^verbatim>\<open>http\<close> crate and back\<close>

text \<open>The values of a name in an \<^verbatim>\<open>http::HeaderMap\<close>, read back as strings, in order.\<close>

definition http_vals :: "('n, 'v, 'h) http_api \<Rightarrow> rstr \<Rightarrow> 'h \<Rightarrow> rstr option list" where
  "http_vals A k h =
     map (http_value_str A \<circ> snd) (filter (\<lambda>p. http_name_str A (fst p) = k) (http_iter A h))"

text \<open>
  The documented behaviour of \<^verbatim>\<open>http\<close> the conversions rely on: a lower-case token parses as a
  name that reads back the same; printable ASCII parses as a value that reads back the same; a
  new map is empty; \<^verbatim>\<open>append\<close> adds the value after the others of its name.
\<close>

definition ascii_name :: "rstr \<Rightarrow> bool" where
  "ascii_name s \<longleftrightarrow>
     s \<noteq> [] \<and> list_all (\<lambda>c. c < 128 \<and> ascii_lower c = c \<and> (ascii_alnum c \<or> c = 45 \<or> c = 33)) s"

definition http_api_ok :: "('n, 'v, 'h) http_api \<Rightarrow> bool" where
  "http_api_ok A \<longleftrightarrow>
     (\<forall>s. ascii_name s \<longrightarrow> (\<exists>n. http_name A s = Inr n \<and> http_name_str A n = s)) \<and>
     (\<forall>s. printable s \<longrightarrow> (\<exists>v. http_value A s = Inr v \<and> http_value_str A v = Some s)) \<and>
     http_iter A (http_new A) = [] \<and>
     (\<forall>n v h k. http_vals A k (http_append A n v h) =
        http_vals A k h @ (if http_name_str A n = k then [http_value_str A v] else []))"

definition names_ascii :: "header_map \<Rightarrow> bool" where
  "names_ascii m \<longleftrightarrow> list_all (\<lambda>e. ascii_name (fst e)) (inner m)"

lemma ascii_name_lower: "ascii_name s \<Longrightarrow> to_lowercase ul s = s"
  by (auto simp: ascii_name_def to_lowercase_def list_all_iff intro: map_idI)

lemma ascii_name_valid: "ascii_name s \<Longrightarrow> header_name_ok ua s"
  by (auto simp: ascii_name_def header_name_ok_def header_name_char_def is_alphanumeric_def list_all_iff)

lemma to_http_values_run:
  assumes "http_api_ok A" and "list_all printable vs"
  shows "\<exists>h'. to_http_values A name n vs h = Ok h' \<and>
     (\<forall>k. http_vals A k h' = http_vals A k h @ (if http_name_str A n = k then map Some vs else []))"
  using assms(2)
proof (induction vs arbitrary: h)
  case Nil
  then show ?case by simp
next
  case (Cons v vs)
  then obtain w where "http_value A v = Inr w" "http_value_str A w = Some v"
    using assms(1) by (auto simp: http_api_ok_def)
  moreover have "http_vals A k (http_append A n w h) =
      http_vals A k h @ (if http_name_str A n = k then [http_value_str A w] else [])" for k
    using assms(1) by (simp add: http_api_ok_def)
  ultimately show ?case
    using Cons.IH [of "http_append A n w h"] Cons.prems by auto
qed

lemma to_http_entries_run:
  assumes "http_api_ok A"
    and "list_all (\<lambda>e. ascii_name (fst e) \<and> list_all printable (snd e)) es"
  shows "\<exists>h'. to_http_entries A es h = Ok h' \<and>
     (\<forall>k. http_vals A k h' =
        http_vals A k h @ concat (map (\<lambda>e. if fst e = k then map Some (snd e) else []) es))"
  using assms(2)
proof (induction es arbitrary: h)
  case Nil
  then show ?case by simp
next
  case (Cons e es)
  obtain name vs where e: "e = (name, vs)" by (cases e)
  with Cons.prems obtain n where n: "http_name A name = Inr n" "http_name_str A n = name"
    using assms(1) by (auto simp: http_api_ok_def)
  from Cons.prems e obtain h1 where h1: "to_http_values A name n vs h = Ok h1"
    "\<forall>k. http_vals A k h1 = http_vals A k h @ (if http_name_str A n = k then map Some vs else [])"
    using to_http_values_run [OF assms(1), of vs name n h] by auto
  with n e Cons.IH [of h1] Cons.prems show ?case by auto
qed

lemma concat_entry:
  "distinct (map fst es) \<Longrightarrow>
     concat (map (\<lambda>e. if fst e = k then map Some (snd e) else []) es) =
       (case map_of es k of None \<Rightarrow> [] | Some vs \<Rightarrow> map Some vs)"
proof (induction es)
  case Nil
  then show ?case by simp
next
  case (Cons e es)
  then have "map_of es (fst e) = None" by (simp add: map_of_eq_None_iff)
  with Cons show ?case by (cases e) auto
qed

text \<open>Reading an \<^verbatim>\<open>http::HeaderMap\<close> of valid names and printable values.\<close>

lemma from_http_stored:
  assumes "\<forall>p \<in> set (http_iter A h). ascii_name (http_name_str A (fst p)) \<and>
             (\<exists>s. http_value_str A (snd p) = Some s \<and> printable s \<and> trim s = s)"
  shows "map Some (stored k (from_http A u h)) = http_vals A k h"
proof -
  let ?kv = "\<lambda>p. (http_name_str A (fst p), the (http_value_str A (snd p)))"
  have "fold (\<lambda>(name, val) m.
         let name_str = http_name_str A name;
             value_str = (case http_value_str A val of None \<Rightarrow> [] | Some s \<Rightarrow> s)
         in fst (append_header u name_str value_str m)) ps m
      = fold (\<lambda>(k, v). entry_append k [v]) (map ?kv ps) m"
    if "set ps \<subseteq> set (http_iter A h)" for ps m
    using that
  proof (induction ps arbitrary: m)
    case (Cons p ps)
    then obtain s where s: "http_value_str A (snd p) = Some s" "printable s" "trim s = s"
      and n: "ascii_name (http_name_str A (fst p))"
      using assms by fastforce
    have "append_header u (http_name_str A (fst p)) s m =
        (entry_append (http_name_str A (fst p)) [s] m, Ok ())"
      by (subst append_header_eq) (simp add: s n ascii_name_valid ascii_name_lower)
    with Cons s show ?case by (simp add: case_prod_beta Let_def)
  qed simp
  then have "stored k (from_http A u h) =
      map snd (filter (\<lambda>p. fst p = k) (map ?kv (http_iter A h)))"
    by (simp add: from_http_def hdrs.vals_fold_add hdrs.vals_empty)
  moreover have "map Some (map snd (filter (\<lambda>p. fst p = k) (map ?kv ps))) =
      map (http_value_str A \<circ> snd) (filter (\<lambda>p. http_name_str A (fst p) = k) ps)"
    if "set ps \<subseteq> set (http_iter A h)" for ps
    using that assms by (induction ps) auto
  ultimately show ?thesis by (simp add: http_vals_def)
qed

text \<open>C32: A header map of ASCII names survives the conversion to \<^verbatim>\<open>http::HeaderMap\<close> and back:
  the conversion succeeds and every name has the same values in the same order.\<close>

theorem http_roundtrip:
  assumes "http_api_ok A" and "header_map_ok m" and "names_ascii m"
  shows "\<exists>h. to_http A m = Ok h \<and> get_all u n (from_http A u h) = get_all u n m"
proof -
  have es: "list_all (\<lambda>e. ascii_name (fst e) \<and> list_all printable (snd e)) (inner m)"
    using assms(2,3) by (auto simp: header_map_ok_def names_ascii_def list_all_iff hm_values_def values_ok_def)
  have wf: "distinct (map fst (inner m))"
    using assms(2) by (simp add: header_map_ok_def hm_wf_def)
  have nil: "http_vals A k (http_new A) = []" for k
    using assms(1) by (simp add: http_api_ok_def http_vals_def)
  from to_http_entries_run [OF assms(1) es, of "http_new A"] obtain h where
    h: "to_http A m = Ok h" and
    vals: "\<And>k. http_vals A k h = (case map_of (inner m) k of None \<Rightarrow> [] | Some vs \<Rightarrow> map Some vs)"
    by (auto simp: to_http_def iter_all_def nil concat_entry [OF wf])
  have "ascii_name (http_name_str A (fst p)) \<and>
      (\<exists>s. http_value_str A (snd p) = Some s \<and> printable s \<and> trim s = s)"
    if "p \<in> set (http_iter A h)" for p
  proof -
    have "http_value_str A (snd p) \<in> set (http_vals A (http_name_str A (fst p)) h)"
      using that by (auto simp: http_vals_def)
    with vals [of "http_name_str A (fst p)"] obtain vs where
      vs: "map_of (inner m) (http_name_str A (fst p)) = Some vs" "http_value_str A (snd p) \<in> Some ` set vs"
      by (cases "map_of (inner m) (http_name_str A (fst p))") auto
    have "(http_name_str A (fst p), vs) \<in> set (inner m)" using vs(1) by (rule map_of_SomeD)
    with es assms(2) vs(2) show ?thesis
      by (fastforce simp: list_all_iff header_map_ok_def hm_values_def values_ok_def)
  qed
  then have "map Some (stored k (from_http A u h)) = http_vals A k h" for k
    by (intro from_http_stored) blast
  with vals have "map Some (stored k (from_http A u h)) = map Some (stored k m)" for k
    by (simp add: stored_def hm_get_def split: option.splits)
  then have "stored k (from_http A u h) = stored k m" for k
    by (simp add: inj_map_eq_map)
  with h show ?thesis by (auto simp: get_all_stored)
qed

text \<open>An \<^verbatim>\<open>http::HeaderMap\<close> as a list of pairs has the behaviour assumed.\<close>

definition list_http :: "(rstr, rstr, (rstr \<times> rstr) list) http_api" where
  "list_http =
     \<lparr>http_name = Inr, http_value = Inr, http_new = [], http_append = (\<lambda>n v h. h @ [(n, v)]),
      http_iter = (\<lambda>h. h), http_name_str = (\<lambda>n. n), http_value_str = Some\<rparr>"

theorem http_roundtrip_witness:
  "\<exists>h. to_http list_http \<lparr>inner = [([97], [[49], [50]])]\<rparr> = Ok h \<and>
     get_all (\<lambda>_. False, id) [65] (from_http list_http (\<lambda>_. False, id) h) = [[49], [50]]"
proof -
  let ?m = "\<lparr>inner = [([97], [[49], [50]])]\<rparr>"
  have "http_api_ok list_http"
    by (simp add: http_api_ok_def list_http_def http_vals_def)
  moreover have "header_map_ok ?m" "names_ascii ?m"
    by (simp_all add: header_map_ok_def hm_wf_def hm_values_def values_ok_def printable_def names_ascii_def
        ascii_name_def ascii_lower_def ascii_alnum_def trim_def is_whitespace_def)
  moreover have "get_all (\<lambda>_. False, id) [65] ?m = [[49], [50]]"
    by (simp add: get_all_def to_lowercase_def ascii_lower_def hm_get_def)
  ultimately show ?thesis
    using http_roundtrip [of list_http ?m "(\<lambda>_. False, id)" "[65]"] by simp
qed

end
