(* ===== verification/F64.thy ===== *)
theory F64
  imports WsPrelude "HOL-Library.Log_Nat"
begin

text \<open>
  Rust's \<^verbatim>\<open>f64\<close>: IEEE 754 binary64 with rounding to nearest, ties to even. A finite value is
  a rational number, so an operation is the exact operation on rationals followed by the
  rounding \<open>fround\<close>; infinities and NaN are values of their own. The sign of a zero is not
  kept: the crate divides by casts of unsigned integers only, which are never minus zero.
  Casts between integers and \<^verbatim>\<open>f64\<close> follow \<^verbatim>\<open>as\<close>: to \<^verbatim>\<open>f64\<close> with rounding, to an integer
  with truncation and saturation, NaN to zero.
\<close>

section \<open>The binary exponent of a positive rational\<close>

definition ilog2 :: "rat \<Rightarrow> int" where
  "ilog2 x =
     (case quotient_of x of (p, q) \<Rightarrow>
       (let k = bitlen p - bitlen q in if 2 powi k \<le> x then k else k - 1))"

lemma powi_nat: "0 \<le> k \<Longrightarrow> (2::rat) ^ nat k = 2 powi k"
  by (simp add: power_int_nonneg_exp)

lemma powi_pos [simp]: "0 < (2::rat) powi k"
  by (rule zero_less_power_int) simp

lemma powi_mono: "k \<le> l \<Longrightarrow> (2::rat) powi k \<le> 2 powi l"
  by (rule power_int_increasing) simp_all

lemma powi_less_iff: "(2::rat) powi k < 2 powi l \<longleftrightarrow> k < l"
  using powi_mono [of l k] power_int_strict_increasing [of k l "2::rat"] by fastforce

lemma powi_add: "(2::rat) powi (k + l) = 2 powi k * 2 powi l"
  by (simp add: power_int_add)

lemma bitlen_rat_bounds:
  assumes "0 < n"
  shows "2 powi (bitlen n - 1) \<le> (of_int n :: rat)" "(of_int n :: rat) < 2 powi bitlen n"
proof -
  have b: "2 ^ nat (bitlen n - 1) \<le> n" "n < 2 ^ nat (bitlen n)"
    using bitlen_bounds [OF assms] by auto
  have "1 \<le> bitlen n"
    using assms bitlen_nonneg [of n] bitlen_eq_zero_iff [of n] by linarith
  then have n: "0 \<le> bitlen n - 1" "0 \<le> bitlen n" by auto
  from b(1) have "(of_int (2 ^ nat (bitlen n - 1)) :: rat) \<le> of_int n"
    by (simp only: of_int_le_iff)
  then show "2 powi (bitlen n - 1) \<le> (of_int n :: rat)"
    by (simp add: powi_nat [OF n(1)])
  from b(2) have "(of_int n :: rat) < of_int (2 ^ nat (bitlen n))"
    by (simp only: of_int_less_iff)
  then show "(of_int n :: rat) < 2 powi bitlen n"
    by (simp add: powi_nat [OF n(2)])
qed

lemma ilog2_bounds:
  assumes "0 < x"
  shows "2 powi ilog2 x \<le> x" "x < 2 powi (ilog2 x + 1)"
proof -
  obtain p q where pq: "quotient_of x = (p, q)" by (cases "quotient_of x")
  then have q: "0 < q" and x: "x = of_int p / of_int q"
    by (simp_all add: quotient_of_denom_pos quotient_of_div)
  with assms have p: "0 < p" by (simp add: zero_less_divide_iff)
  let ?k = "bitlen p - bitlen q"
  note bp = bitlen_rat_bounds [OF p] and bq = bitlen_rat_bounds [OF q]
  have up: "x < 2 powi (?k + 1)"
  proof -
    have "of_int p < (2::rat) powi (?k + 1) * 2 powi (bitlen q - 1)"
      using bp(2) by (simp flip: powi_add)
    also have "\<dots> \<le> 2 powi (?k + 1) * of_int q"
      using bq(1) by (intro mult_left_mono) (simp_all add: less_imp_le)
    finally show ?thesis using q by (simp add: x divide_less_eq)
  qed
  have lo: "2 powi (?k - 1) \<le> x"
  proof -
    have "(2::rat) powi (?k - 1) * of_int q \<le> 2 powi (?k - 1) * 2 powi bitlen q"
      using bq(2) by (intro mult_left_mono) (simp_all add: less_imp_le)
    also have "\<dots> = 2 powi (bitlen p - 1)" by (simp flip: powi_add)
    also have "\<dots> \<le> of_int p" by (rule bp(1))
    finally show ?thesis using q by (simp add: x le_divide_eq)
  qed
  show "2 powi ilog2 x \<le> x" using lo by (simp add: ilog2_def pq Let_def)
  show "x < 2 powi (ilog2 x + 1)" using up by (simp add: ilog2_def pq Let_def)
qed

lemma ilog2_mono:
  assumes "0 < x" "x \<le> y"
  shows "ilog2 x \<le> ilog2 y"
proof -
  have "2 powi ilog2 x < (2::rat) powi (ilog2 y + 1)"
    using ilog2_bounds [of x] ilog2_bounds [of y] assms by linarith
  then show ?thesis by (simp add: powi_less_iff)
qed

lemma ilog2_less:
  assumes "0 < x" "x < 2 powi k"
  shows "ilog2 x < k"
proof -
  have "2 powi ilog2 x < (2::rat) powi k"
    using ilog2_bounds [of x] assms by linarith
  then show ?thesis by (simp add: powi_less_iff)
qed

section \<open>Rounding half to even\<close>

definition round_even :: "rat \<Rightarrow> int" where
  "round_even x =
     (let f = \<lfloor>x\<rfloor>; d = x - of_int f in
      if d < 1/2 then f else if 1/2 < d then f + 1 else if even f then f else f + 1)"

lemma round_even_of_int [simp]: "round_even (of_int n) = n"
  by (simp add: round_even_def)

lemma round_even_floor: "\<lfloor>x\<rfloor> \<le> round_even x" "round_even x \<le> \<lfloor>x\<rfloor> + 1"
  by (auto simp: round_even_def Let_def)

lemma round_even_mono:
  assumes "x \<le> y"
  shows "round_even x \<le> round_even y"
proof (cases "\<lfloor>x\<rfloor> = \<lfloor>y\<rfloor>")
  case True
  with assms show ?thesis by (auto simp: round_even_def Let_def)
next
  case False
  with assms have "\<lfloor>x\<rfloor> < \<lfloor>y\<rfloor>" by (simp add: floor_mono order_le_neq_trans)
  then show ?thesis using round_even_floor [of x] round_even_floor [of y] by linarith
qed

lemma round_even_error: "\<bar>of_int (round_even x) - x\<bar> \<le> 1/2"
proof -
  have "of_int \<lfloor>x\<rfloor> \<le> x" "x < of_int \<lfloor>x\<rfloor> + 1" by linarith+
  then show ?thesis by (auto simp: round_even_def Let_def abs_le_iff)
qed

lemma round_even_nonneg: "0 \<le> x \<Longrightarrow> 0 \<le> round_even x"
  using round_even_mono [of 0 x] round_even_of_int [of 0] by simp

section \<open>Rounding to 53 significant bits\<close>

text \<open>The exponent of the last place of a double near \<open>x\<close>; subnormals stop at \<open>2^-1074\<close>.\<close>

definition ulp_exp :: "rat \<Rightarrow> int" where
  "ulp_exp x = max (ilog2 x - 52) (- 1074)"

definition fl_pos :: "rat \<Rightarrow> rat" where
  "fl_pos x = of_int (round_even (x / 2 powi ulp_exp x)) * 2 powi ulp_exp x"

definition fl :: "rat \<Rightarrow> rat" where
  "fl x = (if x = 0 then 0 else if 0 < x then fl_pos x else - fl_pos (- x))"

lemma ulp_exp_mono: "0 < x \<Longrightarrow> x \<le> y \<Longrightarrow> ulp_exp x \<le> ulp_exp y"
  using ilog2_mono [of x y] by (simp add: ulp_exp_def)

lemma fl_pos_exact: "x = of_int m * 2 powi ulp_exp x \<Longrightarrow> fl_pos x = x"
proof -
  assume x: "x = of_int m * 2 powi ulp_exp x"
  then have "x / 2 powi ulp_exp x = of_int m"
    by (metis nonzero_mult_div_cancel_right powi_pos less_irrefl)
  with x show ?thesis by (simp add: fl_pos_def)
qed

lemma fl_pos_le_grid:
  assumes "ulp_exp x = e" "x \<le> of_int m * 2 powi e"
  shows "fl_pos x \<le> of_int m * 2 powi e"
proof -
  have "x / 2 powi e \<le> of_int m" using assms(2) by (simp add: divide_le_eq)
  then have "round_even (x / 2 powi e) \<le> m"
    using round_even_mono round_even_of_int by metis
  then show ?thesis using assms(1) by (simp add: fl_pos_def)
qed

lemma fl_pos_ge_grid:
  assumes "ulp_exp x = e" "of_int m * 2 powi e \<le> x"
  shows "of_int m * 2 powi e \<le> fl_pos x"
proof -
  have "of_int m \<le> x / 2 powi e" using assms(2) by (simp add: le_divide_eq)
  then have "m \<le> round_even (x / 2 powi e)"
    using round_even_mono round_even_of_int by metis
  then show ?thesis using assms(1) by (simp add: fl_pos_def)
qed

lemma powi_grid: "e \<le> k \<Longrightarrow> (2::rat) powi k = of_int (2 ^ nat (k - e)) * 2 powi e"
  by (simp add: powi_nat flip: powi_add)

lemma fl_pos_mono:
  assumes "0 < x" "x \<le> y"
  shows "fl_pos x \<le> fl_pos y"
proof (cases "ulp_exp x = ulp_exp y")
  case True
  have "round_even (x / 2 powi ulp_exp x) \<le> round_even (y / 2 powi ulp_exp x)"
    using assms by (intro round_even_mono divide_right_mono) (simp_all add: less_imp_le)
  with True show ?thesis by (simp add: fl_pos_def)
next
  case False
  let ?b = "(2::rat) powi ilog2 y"
  have lt: "ulp_exp x < ulp_exp y" using ulp_exp_mono [OF assms] False by simp
  then have ey: "ulp_exp y = ilog2 y - 52" and ex: "ulp_exp x \<le> ilog2 y"
    by (auto simp: ulp_exp_def)
  from lt have il: "ilog2 x < ilog2 y" by (auto simp: ulp_exp_def)
  then have "x < 2 powi (ilog2 x + 1)" "(2::rat) powi (ilog2 x + 1) \<le> ?b"
    using ilog2_bounds [OF assms(1)] by (auto intro: powi_mono)
  then have "x \<le> ?b" by simp
  then have "fl_pos x \<le> ?b"
    using fl_pos_le_grid [OF refl, of x] powi_grid [OF ex] by metis
  moreover have "?b \<le> y" using ilog2_bounds [of y] assms by linarith
  then have "?b \<le> fl_pos y"
    using fl_pos_ge_grid [OF refl, of "2 ^ nat (ilog2 y - ulp_exp y)" y]
      powi_grid [of "ulp_exp y" "ilog2 y"] ey by simp
  ultimately show ?thesis by simp
qed

text \<open>Rounding never crosses a value that is itself a double.\<close>

definition representable :: "rat \<Rightarrow> bool" where
  "representable x \<longleftrightarrow> fl x = x"

lemma fl_nonneg: "0 \<le> x \<Longrightarrow> 0 \<le> fl x"
  by (simp add: fl_def fl_pos_def round_even_nonneg)

lemma fl_mono:
  assumes "x \<le> y"
  shows "fl x \<le> fl y"
proof -
  consider "0 < x" | "x \<le> 0" "0 \<le> y" | "y < 0" using assms by linarith
  then show ?thesis
  proof cases
    case 1
    with assms fl_pos_mono [of x y] show ?thesis by (simp add: fl_def)
  next
    case 2
    then have "fl x \<le> 0"
      using fl_nonneg [of "- x"] by (auto simp: fl_def)
    with 2 fl_nonneg [of y] show ?thesis by linarith
  next
    case 3
    with assms fl_pos_mono [of "- y" "- x"] show ?thesis by (simp add: fl_def)
  qed
qed

lemma fl_ge: "representable r \<Longrightarrow> r \<le> x \<Longrightarrow> r \<le> fl x"
  using fl_mono [of r x] by (simp add: representable_def)

lemma fl_le: "representable r \<Longrightarrow> x \<le> r \<Longrightarrow> fl x \<le> r"
  using fl_mono [of x r] by (simp add: representable_def)

lemma representable_nat:
  assumes "n \<le> 2 ^ 53"
  shows "representable (of_nat n)"
proof (cases "n = 0")
  case True
  then show ?thesis by (simp add: representable_def fl_def)
next
  case False
  then have pos: "(0::rat) < of_nat n" by simp
  have "\<exists>m. (of_nat n :: rat) = of_int m * 2 powi ulp_exp (of_nat n)"
  proof (cases "n = 2 ^ 53")
    case True
    have "ilog2 (2 ^ 53) = 53" by (simp add: ilog2_def) code_simp
    with True show ?thesis
      by (intro exI [of _ "2 ^ 52"]) (simp add: ulp_exp_def)
  next
    case False
    with assms have "n < 2 ^ 53" by simp
    then have "(of_nat n :: rat) < of_nat (2 ^ 53)" by (simp only: of_nat_less_iff)
    then have "(of_nat n :: rat) < 2 powi 53" by simp
    then have "ilog2 (of_nat n) < 53" using pos by (rule ilog2_less [rotated])
    then have e: "ulp_exp (of_nat n) \<le> 0" by (simp add: ulp_exp_def)
    have "(of_nat n :: rat) = of_int (int n * 2 ^ nat (- ulp_exp (of_nat n))) * 2 powi ulp_exp (of_nat n)"
      using powi_grid [OF e] by (simp add: mult.assoc)
    then show ?thesis by blast
  qed
  then show ?thesis
    using pos fl_pos_exact by (auto simp: representable_def fl_def)
qed

section \<open>Doubles\<close>

datatype f64 = NaN | PInf | NInf | Fin rat

definition fround :: "rat \<Rightarrow> f64" where
  "fround x =
     (let y = fl x in
      if 2 ^ 1024 \<le> y then PInf else if y \<le> - (2 ^ 1024) then NInf else Fin y)"

text \<open>The sign of a value that is not NaN.\<close>

primrec fsign :: "f64 \<Rightarrow> rat" where
  "fsign NaN = 0"
| "fsign PInf = 1"
| "fsign NInf = - 1"
| "fsign (Fin x) = sgn x"

definition signed_inf :: "rat \<Rightarrow> f64" where
  "signed_inf s = (if s = 0 then NaN else if 0 < s then PInf else NInf)"

fun f64_mul :: "f64 \<Rightarrow> f64 \<Rightarrow> f64" where
  "f64_mul (Fin x) (Fin y) = fround (x * y)"
| "f64_mul NaN b = NaN"
| "f64_mul a NaN = NaN"
| "f64_mul a b = signed_inf (fsign a * fsign b)"

text \<open>Division; a zero divisor is plus zero.\<close>

fun f64_div :: "f64 \<Rightarrow> f64 \<Rightarrow> f64" where
  "f64_div (Fin x) (Fin y) = (if y = 0 then signed_inf x else fround (x / y))"
| "f64_div NaN b = NaN"
| "f64_div a NaN = NaN"
| "f64_div (Fin x) b = Fin 0"
| "f64_div a (Fin y) = signed_inf (fsign a * (if y < 0 then - 1 else 1))"
| "f64_div a b = NaN"

text \<open>Comparison: false on NaN.\<close>

fun f64_le :: "f64 \<Rightarrow> f64 \<Rightarrow> bool" where
  "f64_le NaN b = False"
| "f64_le a NaN = False"
| "f64_le (Fin x) (Fin y) = (x \<le> y)"
| "f64_le NInf b = True"
| "f64_le a PInf = True"
| "f64_le a b = False"

text \<open>\<^verbatim>\<open>f64::min\<close> ignores a NaN operand.\<close>

definition f64_min :: "f64 \<Rightarrow> f64 \<Rightarrow> f64" where
  "f64_min a b = (if a = NaN then b else if b = NaN then a else if f64_le a b then a else b)"

text \<open>\<^verbatim>\<open>as\<close>: an unsigned integer to \<^verbatim>\<open>f64\<close>, and \<^verbatim>\<open>f64\<close> to an integer with maximum \<open>mx\<close>.\<close>

definition f64_of_int :: "int \<Rightarrow> f64" where
  "f64_of_int n = fround (of_int n)"

primrec f64_to_int :: "int \<Rightarrow> f64 \<Rightarrow> int" where
  "f64_to_int mx NaN = 0"
| "f64_to_int mx PInf = mx"
| "f64_to_int mx NInf = 0"
| "f64_to_int mx (Fin x) = max 0 (min \<lfloor>x\<rfloor> mx)"

definition f64_of_u64 :: "u64 \<Rightarrow> f64" where
  "f64_of_u64 w = f64_of_int (uint w)"

definition f64_to_u64 :: "f64 \<Rightarrow> u64" where
  "f64_to_u64 x = word_of_int (f64_to_int (2 ^ 64 - 1) x)"

text \<open>A decimal literal is the double nearest to it.\<close>

abbreviation f64_lit :: "rat \<Rightarrow> f64" where
  "f64_lit r \<equiv> fround r"

lemma f64_to_int_bounds: "0 \<le> mx \<Longrightarrow> 0 \<le> f64_to_int mx x \<and> f64_to_int mx x \<le> mx"
  by (cases x) simp_all

lemma uint_f64_to_u64: "uint (f64_to_u64 x) = f64_to_int (2 ^ 64 - 1) x"
  using f64_to_int_bounds [of "2 ^ 64 - 1" x]
  by (simp add: f64_to_u64_def uint_word_of_int_eq take_bit_int_eq_self)

lemma unat_f64_to_u64: "unat (f64_to_u64 x) = nat (f64_to_int (2 ^ 64 - 1) x)"
  by (simp add: uint_f64_to_u64 flip: nat_uint_eq)

lemma fround_representable:
  "representable x \<Longrightarrow> \<bar>x\<bar> < 2 ^ 1024 \<Longrightarrow> fround x = Fin x"
  by (auto simp: fround_def representable_def Let_def abs_less_iff)

lemma representable_int: "0 \<le> n \<Longrightarrow> n \<le> 2 ^ 53 \<Longrightarrow> representable (of_int n)"
  using representable_nat [of "nat n"] by (simp add: nat_le_iff)

lemma f64_of_int_exact:
  assumes "0 \<le> n" "n \<le> 2 ^ 53"
  shows "f64_of_int n = Fin (of_int n)"
proof -
  have "(of_int n :: rat) \<le> of_int (2 ^ 53)" using assms by (simp only: of_int_le_iff)
  also have "\<dots> < 2 ^ 1024" by simp
  finally show ?thesis
    unfolding f64_of_int_def using assms
    by (intro fround_representable representable_int) auto
qed

lemma fround_not_NaN [simp]: "fround x \<noteq> NaN"
  by (simp add: fround_def Let_def)

lemma fround_nonneg: "0 \<le> x \<Longrightarrow> fround x = PInf \<or> (\<exists>y. fround x = Fin y \<and> 0 \<le> y)"
  using fl_nonneg [of x] by (auto simp: fround_def Let_def)

text \<open>The value of \<open>fround\<close> from the binade of its argument, to evaluate it on numerals.\<close>

lemma ilog2_unique:
  assumes "2 powi k \<le> x" "x < 2 powi (k + 1)"
  shows "ilog2 x = k"
proof -
  have x: "0 < x" using assms(1) powi_pos [of k] by linarith
  have "2 powi ilog2 x < (2::rat) powi (k + 1)" "2 powi k < (2::rat) powi (ilog2 x + 1)"
    using ilog2_bounds [OF x] assms by linarith+
  then show ?thesis by (simp add: powi_less_iff)
qed

lemma fl_normal:
  assumes "2 powi k \<le> x" "x < 2 powi (k + 1)" "- 1022 \<le> k"
  shows "fl x = of_int (round_even (x / 2 powi (k - 52))) * 2 powi (k - 52)"
proof -
  have "0 < x" using assms(1) powi_pos [of k] by linarith
  then show ?thesis
    using ilog2_unique [OF assms(1,2)] assms(3) by (simp add: fl_def fl_pos_def ulp_exp_def)
qed

lemma floor_rat_numeral:
  "\<lfloor>(numeral a / numeral b :: rat)\<rfloor> = numeral a div numeral b"
  "\<lfloor>(1 / numeral b :: rat)\<rfloor> = 1 div numeral b"
  using floor_divide_of_int_eq [where ?'a = rat, of "numeral a" "numeral b"]
    floor_divide_of_int_eq [where ?'a = rat, of 1 "numeral b"] by simp_all

lemmas round_even_eval = round_even_def Let_def floor_rat_numeral

lemma fround_normal:
  assumes "2 powi k \<le> x" "x < 2 powi (k + 1)" "- 1022 \<le> k" "k < 1023"
  shows "fround x = Fin (of_int (round_even (x / 2 powi (k - 52))) * 2 powi (k - 52))"
proof -
  have r: "representable (2 powi (k + 1))"
  proof -
    have "ilog2 (2 powi (k + 1)) = k + 1" by (rule ilog2_unique) (simp_all add: powi_less_iff)
    moreover have "(2::rat) powi (k + 1) = of_int (2 ^ nat 52) * 2 powi (k + 1 - 52)"
      using powi_grid [of "k + 1 - 52" "k + 1"] by simp
    ultimately show ?thesis
      using assms(3) fl_pos_exact [of "2 powi (k + 1)" "2 ^ 52"]
      by (simp add: representable_def fl_def ulp_exp_def)
  qed
  have "0 \<le> x" using assms(1) powi_pos [of k] by linarith
  then have "0 \<le> fl x" by (rule fl_nonneg)
  moreover have "fl x \<le> 2 powi (k + 1)" using r assms(2) by (intro fl_le) simp_all
  moreover have "(2::rat) powi (k + 1) < 2 ^ 1024"
    using assms(4) powi_less_iff [of "k + 1" 1024] by (simp only: power_int_numeral)
  ultimately have "fround x = Fin (fl x)" by (auto simp: fround_def Let_def)
  then show ?thesis by (simp add: fl_normal [OF assms(1-3)])
qed

text \<open>
  Casting back the rounded value never loses more than the rounding did: an integer that is
  itself a double and lies below \<open>x\<close> lies below the cast; and so from above.
\<close>

lemma f64_to_int_ge:
  assumes "0 \<le> n" "n \<le> 2 ^ 53" "n \<le> mx" "of_int n \<le> x"
  shows "n \<le> f64_to_int mx (fround x)"
proof -
  have "of_int n \<le> fl x" using assms by (intro fl_ge representable_int)
  then have "n \<le> \<lfloor>fl x\<rfloor>" by (simp add: le_floor_iff)
  moreover have "0 \<le> fl x" using \<open>of_int n \<le> fl x\<close> assms(1) of_int_0_le_iff order_trans by blast
  moreover have "\<not> fl x \<le> - (2 ^ 1024)" using \<open>0 \<le> fl x\<close> by simp
  ultimately show ?thesis
    using assms(3) by (auto simp: fround_def Let_def)
qed

lemma f64_to_int_le:
  assumes "0 \<le> n" "n \<le> 2 ^ 53" "x \<le> of_int n"
  shows "f64_to_int mx (fround x) \<le> n"
proof -
  have le: "fl x \<le> of_int n" using assms by (intro fl_le representable_int)
  then have "\<lfloor>fl x\<rfloor> \<le> n" by (simp add: floor_le_iff)
  moreover have "(of_int n :: rat) \<le> of_int (2 ^ 53)" using assms by (simp only: of_int_le_iff)
  then have "fl x < 2 ^ 1024" using le by simp
  ultimately show ?thesis using assms(1) by (auto simp: fround_def Let_def)
qed

lemma f64_to_int_mono:
  assumes "0 \<le> mx" "x \<le> y"
  shows "f64_to_int mx (fround x) \<le> f64_to_int mx (fround y)"
  using fl_mono [OF assms(2)] assms(1)
  by (auto simp: fround_def Let_def floor_mono min_le_iff_disj max_def)

section \<open>Finite results and relative error\<close>

lemma representable_powi: "- 1021 \<le> k \<Longrightarrow> representable (2 powi k)"
proof -
  assume k: "- 1021 \<le> k"
  have "ilog2 (2 powi k) = k" by (rule ilog2_unique) (simp_all add: powi_less_iff)
  moreover have "(2::rat) powi k = of_int (2 ^ nat 52) * 2 powi (k - 52)"
    using powi_grid [of "k - 52" k] by simp
  ultimately show ?thesis
    using k fl_pos_exact [of "2 powi k" "2 ^ 52"] by (simp add: representable_def fl_def ulp_exp_def)
qed

lemma fround_finite:
  assumes "0 \<le> x" "x \<le> 2 powi k" "k < 1024" "- 1021 \<le> k"
  shows "fround x = Fin (fl x) \<and> 0 \<le> fl x \<and> fl x \<le> 2 powi k"
proof -
  have "fl x \<le> 2 powi k" using assms(2,4) by (intro fl_le representable_powi)
  moreover have "(2::rat) powi k < 2 ^ 1024"
    using assms(3) powi_less_iff [of k 1024] by (simp only: power_int_numeral)
  moreover have "0 \<le> fl x" using assms(1) by (rule fl_nonneg)
  ultimately show ?thesis by (auto simp: fround_def Let_def)
qed

definition unit_roundoff :: rat where
  "unit_roundoff = 1 / 2 ^ 53"

lemma fl_relative_error:
  assumes "2 powi (- 1022) \<le> x"
  shows "\<bar>fl x - x\<bar> \<le> x * unit_roundoff"
proof -
  define k where "k = ilog2 x"
  have x: "0 < x" using assms powi_pos [of "- 1022"] by linarith
  have k: "2 powi k \<le> x" "x < 2 powi (k + 1)" using ilog2_bounds [OF x] by (simp_all add: k_def)
  have "- 1022 < k + 1"
    using assms k(2) powi_less_iff [of "- 1022" "k + 1"] by linarith
  then have fl: "fl x = of_int (round_even (x / 2 powi (k - 52))) * 2 powi (k - 52)"
    using fl_normal [OF k] by simp
  let ?u = "2 powi (k - 52) :: rat"
  have "\<bar>of_int (round_even (x / ?u)) - x / ?u\<bar> * ?u \<le> 1/2 * ?u"
    by (rule mult_right_mono [OF round_even_error]) simp
  then have "\<bar>fl x - x\<bar> \<le> 1/2 * ?u"
    by (simp add: fl abs_mult_pos' algebra_simps flip: abs_mult_pos)
  also have "1/2 * ?u = 2 powi k * unit_roundoff"
    using powi_add [of "k - 52" 52] by (simp add: unit_roundoff_def)
  also have "\<dots> \<le> x * unit_roundoff"
    using k(1) by (simp add: unit_roundoff_def)
  finally show ?thesis .
qed

lemma fl_bounds:
  assumes "x = 0 \<or> 2 powi (- 1022) \<le> x"
  shows "fl x \<le> x * (1 + unit_roundoff)" and "x * (1 - unit_roundoff) \<le> fl x"
  using assms fl_relative_error [of x] by (auto simp: algebra_simps fl_def abs_le_iff)

section \<open>Machine integers as rationals\<close>

definition rat_of :: "u64 \<Rightarrow> rat" where
  "rat_of w = of_int (uint w)"

lemma rat_of_bounds: "0 \<le> rat_of w" "rat_of w \<le> 2 powi 64"
proof -
  have "uint w \<le> 2 ^ 64" using uint_lt2p [of w] by simp
  then have "(of_int (uint w) :: rat) \<le> of_int (2 ^ 64)" by (simp only: of_int_le_iff)
  then show "rat_of w \<le> 2 powi 64" by (simp add: rat_of_def)
  have "0 \<le> uint w" by simp
  then have "(of_int 0 :: rat) \<le> of_int (uint w)" by (simp only: of_int_le_iff)
  then show "0 \<le> rat_of w" by (simp add: rat_of_def)
qed

lemma rat_of_zero_iff: "rat_of w = 0 \<longleftrightarrow> w = 0"
  unfolding rat_of_def by (simp only: of_int_eq_0_iff uint_0_iff)

lemma rat_of_mono: "v \<le> w \<Longrightarrow> rat_of v \<le> rat_of w"
  unfolding rat_of_def by (simp only: of_int_le_iff word_le_def)

lemma f64_of_u64_eq:
  "f64_of_u64 w = Fin (fl (rat_of w)) \<and> 0 \<le> fl (rat_of w) \<and> fl (rat_of w) \<le> 2 powi 64"
  unfolding f64_of_u64_def f64_of_int_def rat_of_def [symmetric]
  by (rule fround_finite) (simp_all add: rat_of_bounds del: power_int_numeral)

lemma rat_of_ge_one: "rat_of w = 0 \<or> 1 \<le> rat_of w"
proof (cases "uint w = 0")
  case True
  then show ?thesis by (simp add: rat_of_def)
next
  case False
  then have "1 \<le> uint w" using uint_nonnegative [of w] by linarith
  then have "(of_int 1 :: rat) \<le> rat_of w" unfolding rat_of_def by (simp only: of_int_le_iff)
  then show ?thesis by simp
qed

text \<open>Up to 2^53 the conversion is exact.\<close>

lemma f64_of_u64_exact: "uint w \<le> 2 ^ 53 \<Longrightarrow> f64_of_u64 w = Fin (rat_of w)"
  unfolding f64_of_u64_def rat_of_def by (rule f64_of_int_exact) simp_all

text \<open>Only integers within 1024 of 2^64 are rounded up to it.\<close>

lemma fl_top:
  assumes "2 ^ 64 - 1024 \<le> n"
  shows "2 ^ 64 \<le> fl (of_int n)"
proof -
  let ?x = "of_int (2 ^ 64 - 1024) :: rat"
  have "fl ?x = of_int (round_even (?x / 2048)) * 2048" using fl_normal [of 63 ?x] by simp
  also have "round_even (?x / 2048) = 9007199254740992" by (simp add: round_even_eval)
  finally have "fl ?x = 2 ^ 64" by simp
  moreover have "?x \<le> of_int n" using assms by (simp only: of_int_le_iff)
  ultimately show ?thesis using fl_mono [of ?x "of_int n"] by simp
qed

lemma fl_below_top:
  assumes "n \<le> 2 ^ 64 - 1025"
  shows "fl (of_int n) \<le> 18446744073709549568"
proof -
  let ?x = "of_int (2 ^ 64 - 1025) :: rat"
  have "fl ?x = of_int (round_even (?x / 2048)) * 2048" using fl_normal [of 63 ?x] by simp
  also have "round_even (?x / 2048) = 9007199254740991" by (simp add: round_even_eval)
  finally have "fl ?x = 18446744073709549568" by simp
  moreover have "of_int n \<le> ?x" using assms by (simp only: of_int_le_iff)
  ultimately show ?thesis using fl_mono [of "of_int n" ?x] by simp
qed

lemma fl_one: "fl 1 = 1"
  using representable_int [of 1] by (simp add: representable_def)

end
