(* ===== verification/RateLimit.thy ===== *)
theory RateLimit
  imports F64 Errors
begin

text \<open>
  \<^verbatim>\<open>src/src/ratelimit.rs\<close>: configuration, token buckets, the per-connection limiter and the
  global limiter with its connection count. Every operation takes the readings of the clock
  (\<^verbatim>\<open>timestamp_nanos\<close>) it makes. The bucket arithmetic goes through \<^verbatim>\<open>f64\<close> as the code's does;
  the counters are 64-bit words.
\<close>

section \<open>Configuration\<close>

record rate_limit_config =
  messages_per_second :: u64
  bytes_per_second :: u64
  operations_per_second :: u64
  burst_size :: u64

record rate_limit_status =
  rs_remaining :: u64
  rs_resets_in :: duration
  rs_limit :: u64
  rs_capacity :: u64

definition rate_limit_config_default :: rate_limit_config where
  "rate_limit_config_default =
     \<lparr>messages_per_second = 100, bytes_per_second = 1024 * 1024, operations_per_second = 1000,
      burst_size = 100\<rparr>"

definition with_messages_per_second :: "u64 \<Rightarrow> rate_limit_config \<Rightarrow> rate_limit_config" where
  "with_messages_per_second n c = c\<lparr>messages_per_second := n\<rparr>"

definition with_bytes_per_second :: "u64 \<Rightarrow> rate_limit_config \<Rightarrow> rate_limit_config" where
  "with_bytes_per_second n c = c\<lparr>bytes_per_second := n\<rparr>"

definition with_operations_per_second :: "u64 \<Rightarrow> rate_limit_config \<Rightarrow> rate_limit_config" where
  "with_operations_per_second n c = c\<lparr>operations_per_second := n\<rparr>"

definition with_burst_size :: "u64 \<Rightarrow> rate_limit_config \<Rightarrow> rate_limit_config" where
  "with_burst_size n c = c\<lparr>burst_size := n\<rparr>"

text \<open>\<^verbatim>\<open>u64::MAX\<close> is \<open>- 1\<close>.\<close>

definition rate_limit_config_disabled :: rate_limit_config where
  "rate_limit_config_disabled =
     \<lparr>messages_per_second = - 1, bytes_per_second = - 1, operations_per_second = - 1, burst_size = - 1\<rparr>"

definition get_limit :: "rate_limit_config \<Rightarrow> rate_limit_type \<Rightarrow> u64" where
  "get_limit c t =
     (case t of
        RL_Message \<Rightarrow> messages_per_second c
      | RL_Byte \<Rightarrow> bytes_per_second c
      | RL_Operation \<Rightarrow> operations_per_second c)"

definition rate_limit_config_new :: rate_limit_config where
  "rate_limit_config_new = rate_limit_config_default"

text \<open>The clock: nanoseconds since 1970 as a 64-bit word, 0 for a time before it.\<close>

definition timestamp_nanos :: "duration option \<Rightarrow> u64" where
  "timestamp_nanos since_epoch = (case since_epoch of Some d \<Rightarrow> of_nat d | None \<Rightarrow> 0)"

section \<open>Token buckets\<close>

record token_bucket =
  tokens :: u64
  last_refill :: u64
  capacity :: u64
  refill_rate :: u64

definition token_bucket_new :: "u64 \<Rightarrow> u64 \<Rightarrow> u64 \<Rightarrow> token_bucket" where
  "token_bucket_new now cap rate =
     \<lparr>tokens = cap, last_refill = now, capacity = cap, refill_rate = rate\<rparr>"

definition nanos_per_second :: f64 where
  "nanos_per_second = f64_lit 1000000000"

definition tokens_to_add :: "u64 \<Rightarrow> u64 \<Rightarrow> u64" where
  "tokens_to_add elapsed_nanos rate =
     f64_to_u64 (f64_mul (f64_div (f64_of_u64 elapsed_nanos) nanos_per_second) (f64_of_u64 rate))"

definition refill :: "u64 \<Rightarrow> token_bucket \<Rightarrow> token_bucket" where
  "refill now b =
     (let last = last_refill b; elapsed_nanos = sat_sub now last in
      if elapsed_nanos = 0 then b
      else
        (let to_add = tokens_to_add elapsed_nanos (refill_rate b) in
         if 0 < to_add then
           (let current = tokens b;
                new_tokens = min (sat_add current to_add) (capacity b);
                added_tokens = sat_sub new_tokens current;
                added_nanos =
                  f64_to_u64 (f64_mul (f64_div (f64_of_u64 added_tokens) (f64_of_u64 (refill_rate b)))
                    nanos_per_second)
            in b\<lparr>tokens := new_tokens, last_refill := sat_add last (min added_nanos elapsed_nanos)\<rparr>)
         else b))"

text \<open>
  The compare-and-exchange loop of \<^verbatim>\<open>try_consume\<close>. The bucket is only used under the limiter's
  lock, so the exchange can fail only spuriously: \<open>n\<close> is the number of spurious failures, each
  answering the value in memory.
\<close>

fun consume_loop :: "nat \<Rightarrow> u64 \<Rightarrow> u64 \<Rightarrow> token_bucket \<Rightarrow> token_bucket \<times> bool" where
  "consume_loop 0 amount current b =
     (if current < amount then (b, False) else (b\<lparr>tokens := sat_sub current amount\<rparr>, True))"
| "consume_loop (Suc n) amount current b =
     (if current < amount then (b, False) else consume_loop n amount (tokens b) b)"

definition try_consume :: "nat \<Rightarrow> u64 \<Rightarrow> u64 \<Rightarrow> token_bucket \<Rightarrow> token_bucket \<times> bool" where
  "try_consume n now amount b = (let b1 = refill now b in consume_loop n amount (tokens b1) b1)"

definition available :: "u64 \<Rightarrow> token_bucket \<Rightarrow> token_bucket \<times> u64" where
  "available now b = (let b1 = refill now b in (b1, tokens b1))"

text \<open>
  \<^verbatim>\<open>Duration::from_secs_f64\<close>: rounds to whole nanoseconds and panics on a value that is
  negative, not a number or does not fit.
\<close>

definition duration_from_secs_f64 :: "f64 \<Rightarrow> duration outcome" where
  "duration_from_secs_f64 x =
     (case x of
        Fin r \<Rightarrow> if r < 0 \<or> 2 ^ 64 \<le> r then Panic else Ret (nat (round_even (r * 1000000000)))
      | _ \<Rightarrow> Panic)"

definition time_until_full :: "u64 \<Rightarrow> token_bucket \<Rightarrow> token_bucket \<times> duration outcome" where
  "time_until_full now b =
     (case available now b of (b1, av) \<Rightarrow>
        if capacity b1 \<le> av then (b1, Ret 0)
        else
          (let needed = capacity b1 - av in
           if refill_rate b1 = 0 then (b1, Ret (secs 60))
           else (b1, duration_from_secs_f64 (f64_div (f64_of_u64 needed) (f64_of_u64 (refill_rate b1))))))"

definition reset_bucket :: "u64 \<Rightarrow> token_bucket \<Rightarrow> token_bucket" where
  "reset_bucket now b = b\<lparr>tokens := capacity b, last_refill := now\<rparr>"

definition bucket_read_capacity :: "token_bucket \<Rightarrow> u64" where
  "bucket_read_capacity b = capacity b"

definition bucket_read_refill_rate :: "token_bucket \<Rightarrow> u64" where
  "bucket_read_refill_rate b = refill_rate b"

section \<open>The limiter\<close>

record rate_limiter =
  rl_config :: rate_limit_config
  buckets :: "(rate_limit_type, token_bucket) hmap"

definition bucket_capacity :: "rate_limit_config \<Rightarrow> rate_limit_type \<Rightarrow> u64" where
  "bucket_capacity c t =
     (case t of RL_Byte \<Rightarrow> max (burst_size c) 1024 | _ \<Rightarrow> max (burst_size c) 1)"

text \<open>\<^verbatim>\<open>RateLimiter::new\<close>; \<open>clock\<close> gives the reading for each bucket.\<close>

definition rate_limiter_new :: "(rate_limit_type \<Rightarrow> u64) \<Rightarrow> rate_limit_config \<Rightarrow> rate_limiter" where
  "rate_limiter_new clock c =
     \<lparr>rl_config = c,
      buckets =
        fold (\<lambda>t m. hm_insert t (token_bucket_new (clock t) (bucket_capacity c t) (get_limit c t)) m)
          rate_limit_types_all hm_empty\<rparr>"

definition set_bucket :: "rate_limit_type \<Rightarrow> token_bucket \<Rightarrow> rate_limiter \<Rightarrow> rate_limiter" where
  "set_bucket t b l = l\<lparr>buckets := hm_insert t b (buckets l)\<rparr>"

record acquire_clock =
  spurious :: nat
  read1 :: u64
  read2 :: u64

text \<open>
  One call of \<^verbatim>\<open>try_acquire\<close>: \<open>read1\<close> is the clock at \<^verbatim>\<open>try_consume\<close>, \<open>read2\<close> at
  \<^verbatim>\<open>time_until_full\<close>. The answer can be a panic, the state is the one left behind.
\<close>

definition try_acquire ::
  "acquire_clock \<Rightarrow> rate_limit_type \<Rightarrow> u64 \<Rightarrow> rate_limiter \<Rightarrow> rate_limiter \<times> unit result outcome"
where
  "try_acquire q t amount l =
     (if amount = 0 then (l, Ret (Ok ()))
      else
        (case hm_get (buckets l) t of
           None \<Rightarrow> (l, Ret (Err (InvalidState (lit ''Rate limit type not configured''))))
         | Some b \<Rightarrow>
             (case try_consume (spurious q) (read1 q) amount b of (b1, granted) \<Rightarrow>
                if granted then (set_bucket t b1 l, Ret (Ok ()))
                else
                  (case time_until_full (read2 q) b1 of (b2, d) \<Rightarrow>
                     (set_bucket t b2 l,
                      bind_outcome d (\<lambda>retry_after. Ret (Err (RateLimitExceeded t retry_after))))))))"

text \<open>
  The loop of \<^verbatim>\<open>acquire\<close> over the readings of its iterations. \<open>None\<close> is a call still waiting
  when the readings end; the durations it slept are the last component.
\<close>

fun acquire_loop ::
  "acquire_clock list \<Rightarrow> rate_limit_type \<Rightarrow> u64 \<Rightarrow> rate_limiter \<Rightarrow>
     rate_limiter \<times> unit result outcome option \<times> duration list"
where
  "acquire_loop [] t amount l = (l, None, [])"
| "acquire_loop (q # qs) t amount l =
     (case try_acquire q t amount l of
        (l1, Ret (Inl (RateLimitExceeded t' retry_after))) \<Rightarrow>
          (case acquire_loop qs t amount l1 of (l2, r, ds) \<Rightarrow> (l2, r, retry_after # ds))
      | (l1, r) \<Rightarrow> (l1, Some r, []))"

definition acquire ::
  "acquire_clock list \<Rightarrow> rate_limit_type \<Rightarrow> u64 \<Rightarrow> rate_limiter \<Rightarrow>
     rate_limiter \<times> unit result outcome option \<times> duration list"
where
  "acquire qs t amount l =
     (if amount = 0 then (l, Some (Ret (Ok ())), []) else acquire_loop qs t amount l)"

definition limiter_status ::
  "u64 \<Rightarrow> u64 \<Rightarrow> rate_limit_type \<Rightarrow> rate_limiter \<Rightarrow> rate_limiter \<times> rate_limit_status outcome" where
  "limiter_status now1 now2 t l =
     (case hm_get (buckets l) t of
        None \<Rightarrow> (l, Ret \<lparr>rs_remaining = 0, rs_resets_in = 0, rs_limit = 0, rs_capacity = 0\<rparr>)
      | Some b \<Rightarrow>
          (case available now1 b of (b1, remaining) \<Rightarrow>
             (case time_until_full now2 b1 of (b2, d) \<Rightarrow>
                (set_bucket t b2 l,
                 bind_outcome d (\<lambda>r.
                   Ret \<lparr>rs_remaining = remaining, rs_resets_in = r, rs_limit = refill_rate b2,
                        rs_capacity = capacity b2\<rparr>)))))"

definition reset_limiter :: "(rate_limit_type \<Rightarrow> u64) \<Rightarrow> rate_limiter \<Rightarrow> rate_limiter" where
  "reset_limiter clock l = l\<lparr>buckets := map (\<lambda>(t, b). (t, reset_bucket (clock t) b)) (buckets l)\<rparr>"

definition reset_type :: "u64 \<Rightarrow> rate_limit_type \<Rightarrow> rate_limiter \<Rightarrow> rate_limiter" where
  "reset_type now t l =
     (case hm_get (buckets l) t of None \<Rightarrow> l | Some b \<Rightarrow> set_bucket t (reset_bucket now b) l)"

definition limiter_is_enabled :: "rate_limiter \<Rightarrow> bool" where
  "limiter_is_enabled l \<longleftrightarrow> messages_per_second (rl_config l) \<noteq> - 1"

definition rate_limiter_default_config :: "(rate_limit_type \<Rightarrow> u64) \<Rightarrow> rate_limiter" where
  "rate_limiter_default_config clock = rate_limiter_new clock rate_limit_config_default"

definition rate_limiter_disabled :: "(rate_limit_type \<Rightarrow> u64) \<Rightarrow> rate_limiter" where
  "rate_limiter_disabled clock = rate_limiter_new clock rate_limit_config_disabled"

definition rate_limiter_default :: "(rate_limit_type \<Rightarrow> u64) \<Rightarrow> rate_limiter" where
  "rate_limiter_default clock = rate_limiter_default_config clock"

definition limiter_config :: "rate_limiter \<Rightarrow> rate_limit_config" where
  "limiter_config l = rl_config l"

section \<open>The global limiter\<close>

record global_limiter =
  gl_limiter :: rate_limiter
  connection_count :: u64
  max_connections :: u64

definition global_limiter_new ::
  "(rate_limit_type \<Rightarrow> u64) \<Rightarrow> rate_limit_config \<Rightarrow> u64 \<Rightarrow> global_limiter" where
  "global_limiter_new clock c mx =
     \<lparr>gl_limiter = rate_limiter_new clock c, connection_count = 0, max_connections = mx\<rparr>"

definition global_try_acquire ::
  "acquire_clock \<Rightarrow> rate_limit_type \<Rightarrow> u64 \<Rightarrow> global_limiter \<Rightarrow> global_limiter \<times> unit result outcome"
where
  "global_try_acquire q t amount g =
     (case try_acquire q t amount (gl_limiter g) of (l, r) \<Rightarrow> (g\<lparr>gl_limiter := l\<rparr>, r))"

text \<open>
  \<^verbatim>\<open>add_connection\<close> is two atomic operations: the increment with its decision, and the decrement
  that takes a refused connection back.
\<close>

definition add_begin :: "bool \<Rightarrow> global_limiter \<Rightarrow> global_limiter \<times> unit result outcome" where
  "add_begin ck g =
     (let count = connection_count g in
      (g\<lparr>connection_count := count + 1\<rparr>,
       bind_outcome (add_ck ck count 1) (\<lambda>c1.
         Ret (if max_connections g < c1
              then Err (ConnectionLimitExceeded c1 (max_connections g)) else Ok ()))))"

definition add_undo :: "global_limiter \<Rightarrow> global_limiter" where
  "add_undo g = g\<lparr>connection_count := connection_count g - 1\<rparr>"

definition add_connection :: "bool \<Rightarrow> global_limiter \<Rightarrow> global_limiter \<times> unit result outcome" where
  "add_connection ck g =
     (case add_begin ck g of
        (g1, Ret (Inl e)) \<Rightarrow> (add_undo g1, Ret (Inl e))
      | (g1, r) \<Rightarrow> (g1, r))"

definition remove_connection :: "global_limiter \<Rightarrow> global_limiter" where
  "remove_connection g = g\<lparr>connection_count := connection_count g - 1\<rparr>"

definition global_is_enabled :: "global_limiter \<Rightarrow> bool" where
  "global_is_enabled g = limiter_is_enabled (gl_limiter g)"

definition global_reset :: "(rate_limit_type \<Rightarrow> u64) \<Rightarrow> global_limiter \<Rightarrow> global_limiter" where
  "global_reset clock g = g\<lparr>gl_limiter := reset_limiter clock (gl_limiter g)\<rparr>"


definition global_limiter_default_config :: "(rate_limit_type \<Rightarrow> u64) \<Rightarrow> u64 \<Rightarrow> global_limiter" where
  "global_limiter_default_config clock mx = global_limiter_new clock rate_limit_config_default mx"

definition global_acquire ::
  "acquire_clock list \<Rightarrow> rate_limit_type \<Rightarrow> u64 \<Rightarrow> global_limiter \<Rightarrow>
     global_limiter \<times> unit result outcome option \<times> duration list"
where
  "global_acquire qs t amount g =
     (case acquire qs t amount (gl_limiter g) of (l, r) \<Rightarrow> (g\<lparr>gl_limiter := l\<rparr>, r))"

definition global_status ::
  "u64 \<Rightarrow> u64 \<Rightarrow> rate_limit_type \<Rightarrow> global_limiter \<Rightarrow> global_limiter \<times> rate_limit_status outcome" where
  "global_status now1 now2 t g =
     (case limiter_status now1 now2 t (gl_limiter g) of (l, r) \<Rightarrow> (g\<lparr>gl_limiter := l\<rparr>, r))"

definition global_connection_count :: "global_limiter \<Rightarrow> u64" where
  "global_connection_count g = connection_count g"

section \<open>The arithmetic of a refill\<close>

text \<open>No operation of a refill overflows a double: the tokens to add in terms of roundings.\<close>

lemma nanos_per_second_eq: "nanos_per_second = Fin 1000000000"
  using f64_of_int_exact [of 1000000000] by (simp add: nanos_per_second_def f64_of_int_def)

definition token_quotient :: "u64 \<Rightarrow> u64 \<Rightarrow> rat" where
  "token_quotient el rate = fl (fl (rat_of el) / 1000000000) * fl (rat_of rate)"

lemma tokens_to_add_eq: "tokens_to_add el rate = f64_to_u64 (Fin (fl (token_quotient el rate)))"
proof -
  let ?e = "fl (rat_of el) :: rat" and ?r = "fl (rat_of rate) :: rat"
  have e: "0 \<le> ?e" "?e \<le> 2 powi 64" and r: "0 \<le> ?r" "?r \<le> 2 powi 64"
    using f64_of_u64_eq [of el] f64_of_u64_eq [of rate] by simp_all
  have q: "0 \<le> ?e / 1000000000" "?e / 1000000000 \<le> 2 powi 64" using e by simp_all
  have qf: "fround (?e / 1000000000) = Fin (fl (?e / 1000000000))" "0 \<le> fl (?e / 1000000000)"
    "fl (?e / 1000000000) \<le> 2 powi 64"
    using fround_finite [OF q] by simp_all
  have "token_quotient el rate \<le> 2 powi 64 * 2 powi 64"
    unfolding token_quotient_def by (rule mult_mono [OF qf(3) r(2)]) (simp_all add: r)
  then have t: "0 \<le> token_quotient el rate" "token_quotient el rate \<le> 2 powi 128"
    using qf r by (simp_all add: token_quotient_def)
  then have "fround (token_quotient el rate) = Fin (fl (token_quotient el rate))"
    using fround_finite [OF t] by simp
  then show ?thesis
    using f64_of_u64_eq [of el] f64_of_u64_eq [of rate]
    by (simp add: tokens_to_add_def nanos_per_second_eq qf token_quotient_def)
qed

lemma token_quotient_mono: "el \<le> el' \<Longrightarrow> token_quotient el rate \<le> token_quotient el' rate"
proof -
  assume "el \<le> el'"
  then have "fl (fl (rat_of el) / 1000000000) \<le> fl (fl (rat_of el') / 1000000000)"
    by (intro fl_mono divide_right_mono rat_of_mono) simp_all
  then show ?thesis
    using f64_of_u64_eq [of rate] unfolding token_quotient_def by (intro mult_right_mono) simp_all
qed

lemma f64_to_u64_mono: "x \<le> y \<Longrightarrow> f64_to_u64 (Fin x) \<le> f64_to_u64 (Fin y)"
  using floor_mono [of x y] by (auto simp: word_le_def uint_f64_to_u64)

lemma tokens_to_add_mono: "el \<le> el' \<Longrightarrow> tokens_to_add el rate \<le> tokens_to_add el' rate"
  unfolding tokens_to_add_eq by (intro f64_to_u64_mono fl_mono token_quotient_mono)

text \<open>After a whole number of seconds the tokens to add are exactly the rate times the seconds.\<close>

lemma tokens_to_add_whole_seconds:
  assumes "uint el = n * 1000000000" and "0 \<le> n" and "n * 1000000000 \<le> 2 ^ 53"
    and "uint rate \<le> 2 ^ 53" and "n * uint rate \<le> 2 ^ 53"
  shows "uint (tokens_to_add el rate) = n * uint rate"
proof -
  have exact: "fl (of_int k) = of_int k" if "0 \<le> k" "k \<le> 2 ^ 53" for k
    using representable_int [OF that] by (simp add: representable_def)
  define r where "r = uint rate"
  have r: "0 \<le> r" "r \<le> 2 ^ 53" "n * r \<le> 2 ^ 53" using assms(4,5) by (simp_all add: r_def)
  have "fl (rat_of el) = of_int (n * 1000000000)"
    unfolding rat_of_def assms(1) by (rule exact) (use assms(2,3) in simp_all)
  then have "fl (rat_of el) / 1000000000 = of_int n" by simp
  then have "token_quotient el rate = of_int n * of_int r"
    unfolding token_quotient_def rat_of_def r_def [symmetric]
    using exact [of n] exact [of r] assms(2,3) r by simp
  then have "token_quotient el rate = of_int (n * r)" by simp
  then have "fl (token_quotient el rate) = of_int (n * r)"
    using exact [of "n * r"] assms(2) r by simp
  then have "uint (tokens_to_add el rate) = f64_to_int (2 ^ 64 - 1) (Fin (of_int (n * r)))"
    by (simp only: tokens_to_add_eq uint_f64_to_u64)
  also have "\<dots> = n * r"
    using r assms(2) by (simp only: f64_to_int.simps floor_of_int) simp
  finally show ?thesis by (simp add: r_def)
qed


text \<open>In general the double arithmetic is within a relative error of eight roundings of the
  exact number of tokens.\<close>

lemma powi_small_le: "k \<le> 0 \<Longrightarrow> (2::rat) powi k \<le> 1"
  using powi_mono [of k 0] by simp

lemma rat_of_normal: "rat_of w = 0 \<or> 2 powi (- 1022) \<le> rat_of w"
proof -
  have "(2::rat) powi (- 1022) \<le> 1" by (rule powi_small_le) simp
  with rat_of_ge_one [of w] show ?thesis by (blast intro: order_trans)
qed

lemma fl_normal_range: "x = 0 \<or> 2 powi k \<le> x \<Longrightarrow> - 1021 \<le> k \<Longrightarrow> fl x = 0 \<or> 2 powi k \<le> fl x"
proof (cases "x = 0")
  case True
  then show ?thesis by (simp add: fl_def)
next
  case False
  moreover assume "x = 0 \<or> 2 powi k \<le> x" "- 1021 \<le> k"
  ultimately have "2 powi k \<le> fl x" by (intro fl_ge representable_powi) blast+
  then show ?thesis by blast
qed

lemma token_quotient_normal:
  "(fl (rat_of el) / 1000000000 = 0 \<or> 2 powi (- 30) \<le> fl (rat_of el) / 1000000000) \<and>
   (token_quotient el rate = 0 \<or> 2 powi (- 30) \<le> token_quotient el rate)"
proof -
  have one: "fl (rat_of w) = 0 \<or> 1 \<le> fl (rat_of w)" for w
    using fl_normal_range [of "rat_of w" 0] rat_of_ge_one [of w] by simp
  note e = one [of el] and r = one [of rate]
  have small: "(2::rat) powi (- 30) = 1 / 1073741824" by (simp add: power_int_minus)
  have d: "fl (rat_of el) / 1000000000 = 0 \<or> 2 powi (- 30) \<le> fl (rat_of el) / 1000000000"
    using e by (auto simp: small)
  then have "fl (fl (rat_of el) / 1000000000) = 0 \<or> 2 powi (- 30) \<le> fl (fl (rat_of el) / 1000000000)"
    by (rule fl_normal_range) simp
  moreover have "a * b = 0 \<or> 2 powi (- 30) \<le> a * b"
    if "a = 0 \<or> 2 powi (- 30) \<le> a" "b = 0 \<or> 1 \<le> b" for a b :: rat
  proof (cases "a = 0 \<or> b = 0")
    case False
    with that have "2 powi (- 30) * 1 \<le> a * b" by (intro mult_mono) auto
    then show ?thesis by simp
  qed auto
  ultimately have "token_quotient el rate = 0 \<or> 2 powi (- 30) \<le> token_quotient el rate"
    using r unfolding token_quotient_def by blast
  with d show ?thesis by simp
qed

lemma powi_normal: "x = 0 \<or> 2 powi (- 30) \<le> x \<Longrightarrow> x = 0 \<or> 2 powi (- 1022) \<le> x" for x :: rat
proof -
  have "(2::rat) powi (- 1022) \<le> 2 powi (- 30)" by (rule powi_mono) simp
  then show "x = 0 \<or> 2 powi (- 30) \<le> x \<Longrightarrow> x = 0 \<or> 2 powi (- 1022) \<le> x" by (blast intro: order_trans)
qed

lemma fl_token_quotient_error:
  defines "q \<equiv> \<lambda>el rate. rat_of el / 1000000000 * rat_of rate"
  shows "fl (token_quotient el rate) \<le> q el rate * (1 + 8 * unit_roundoff)"
    and "q el rate * (1 - 8 * unit_roundoff) \<le> fl (token_quotient el rate)"
proof -
  let ?u = unit_roundoff
  let ?e = "rat_of el" and ?r = "rat_of rate"
  note n1 = powi_normal [OF token_quotient_normal [THEN conjunct1, of el]]
  note n2 = powi_normal [OF token_quotient_normal [THEN conjunct2, of el rate]]
  have u: "0 \<le> ?u" "?u \<le> 1" by (simp_all add: unit_roundoff_def)
  have nonneg: "0 \<le> ?e" "0 \<le> ?r" "0 \<le> fl ?e" "0 \<le> fl ?r" "0 \<le> fl (fl ?e / 1000000000)"
    by (simp_all add: rat_of_bounds fl_nonneg)
  have e: "fl ?e \<le> ?e * (1 + ?u)" "?e * (1 - ?u) \<le> fl ?e"
    and r: "fl ?r \<le> ?r * (1 + ?u)" "?r * (1 - ?u) \<le> fl ?r"
    by (rule fl_bounds [OF rat_of_normal])+
  have d: "fl (fl ?e / 1000000000) \<le> fl ?e / 1000000000 * (1 + ?u)"
    "fl ?e / 1000000000 * (1 - ?u) \<le> fl (fl ?e / 1000000000)"
    by (rule fl_bounds [OF n1])+
  have t: "fl (token_quotient el rate) \<le> token_quotient el rate * (1 + ?u)"
    "token_quotient el rate * (1 - ?u) \<le> fl (token_quotient el rate)"
    by (rule fl_bounds [OF n2])+
  have "fl (fl ?e / 1000000000) \<le> ?e * (1 + ?u) / 1000000000 * (1 + ?u)"
    using d(1) e(1) u by (intro order_trans [OF d(1)] mult_right_mono divide_right_mono) simp_all
  then have "token_quotient el rate \<le> ?e * (1 + ?u) / 1000000000 * (1 + ?u) * (?r * (1 + ?u))"
    unfolding token_quotient_def using r(1) nonneg u by (intro mult_mono) simp_all
  then have "fl (token_quotient el rate) \<le> ?e * (1 + ?u) / 1000000000 * (1 + ?u) * (?r * (1 + ?u)) * (1 + ?u)"
    using u by (intro order_trans [OF t(1)] mult_right_mono) simp_all
  also have "\<dots> = q el rate * ((1 + ?u) * (1 + ?u) * (1 + ?u) * (1 + ?u))" by (simp add: q_def)
  also have "\<dots> \<le> q el rate * (1 + 8 * ?u)"
    using nonneg by (intro mult_left_mono) (simp_all add: q_def unit_roundoff_def)
  finally show "fl (token_quotient el rate) \<le> q el rate * (1 + 8 * ?u)" .
  have "?e * (1 - ?u) / 1000000000 * (1 - ?u) \<le> fl (fl ?e / 1000000000)"
    using u by (intro order_trans [OF _ d(2)] mult_right_mono divide_right_mono e(2)) simp_all
  then have "?e * (1 - ?u) / 1000000000 * (1 - ?u) * (?r * (1 - ?u)) \<le> token_quotient el rate"
    unfolding token_quotient_def using r(2) nonneg u by (intro mult_mono) simp_all
  then have "?e * (1 - ?u) / 1000000000 * (1 - ?u) * (?r * (1 - ?u)) * (1 - ?u) \<le> fl (token_quotient el rate)"
    using u by (intro order_trans [OF _ t(2)] mult_right_mono) simp_all
  moreover have "q el rate * (1 - 8 * ?u) \<le> q el rate * ((1 - ?u) * (1 - ?u) * (1 - ?u) * (1 - ?u))"
    using nonneg by (intro mult_left_mono) (simp_all add: q_def unit_roundoff_def)
  moreover have "q el rate * ((1 - ?u) * (1 - ?u) * (1 - ?u) * (1 - ?u)) =
      ?e * (1 - ?u) / 1000000000 * (1 - ?u) * (?r * (1 - ?u)) * (1 - ?u)" by (simp add: q_def)
  ultimately show "q el rate * (1 - 8 * ?u) \<le> fl (token_quotient el rate)" by linarith
qed


section \<open>Buckets\<close>

definition bucket_ok :: "token_bucket \<Rightarrow> bool" where
  "bucket_ok b \<longleftrightarrow> tokens b \<le> capacity b"

lemma refill_static [simp]: "capacity (refill now b) = capacity b" "refill_rate (refill now b) = refill_rate b"
  by (simp_all add: refill_def Let_def)

lemma min_sat_add: "c \<le> cap \<Longrightarrow> unat (min (sat_add c k) cap) = min (unat c + unat k) (unat cap)"
  for c k cap :: u64
  using unat_less_two_power [of cap] by (simp add: machine_arith)

lemma tokens_refill:
  "bucket_ok b \<Longrightarrow>
     unat (tokens (refill now b)) =
       (let el = sat_sub now (last_refill b) in
        if el = 0 then unat (tokens b)
        else min (unat (tokens b) + unat (tokens_to_add el (refill_rate b))) (unat (capacity b)))"
  by (auto simp: refill_def Let_def bucket_ok_def min_sat_add word_le_nat_alt word_gt_0)

lemma refill_ok: "bucket_ok b \<Longrightarrow> bucket_ok (refill now b)"
  unfolding bucket_ok_def [of "refill now b"]
  by (simp add: word_le_nat_alt tokens_refill Let_def) (simp add: bucket_ok_def word_le_nat_alt)

lemma refill_ge: "bucket_ok b \<Longrightarrow> tokens b \<le> tokens (refill now b)"
  by (simp add: word_le_nat_alt tokens_refill Let_def) (simp add: bucket_ok_def word_le_nat_alt)

lemma sat_sub_mono: "a \<le> b \<Longrightarrow> sat_sub a c \<le> sat_sub b c" for a b c :: u64
  by (simp add: word_le_nat_alt unat_sat_sub)

lemma refill_mono_time:
  assumes "bucket_ok b" and "now \<le> now'"
  shows "tokens (refill now b) \<le> tokens (refill now' b)"
proof -
  let ?e = "sat_sub now (last_refill b)" and ?e' = "sat_sub now' (last_refill b)"
  have "?e \<le> ?e'" using assms(2) by (rule sat_sub_mono)
  then have "tokens_to_add ?e (refill_rate b) \<le> tokens_to_add ?e' (refill_rate b)" "?e' = 0 \<longrightarrow> ?e = 0"
    by (auto intro: tokens_to_add_mono)
  then show ?thesis
    using assms(1) by (auto simp: word_le_nat_alt tokens_refill Let_def bucket_ok_def)
qed

text \<open>A full bucket keeps the time of its last refill, however long it has been full.\<close>

lemma f64_div_zero: "fl 0 = 0" "fround 0 = Fin 0"
  by (simp_all add: fl_def fround_def Let_def)

lemma refill_full: "tokens b = capacity b \<Longrightarrow> refill now b = b"
proof -
  assume full: "tokens b = capacity b"
  then have t: "min (sat_add (tokens b) k) (capacity b) = tokens b" for k
    using min_sat_add [OF eq_refl [OF full], of k] by (simp add: word_unat_eq_iff)
  have rate: "refill_rate b \<noteq> 0" if "0 < tokens_to_add el (refill_rate b)" for el
    using that by (auto simp: tokens_to_add_eq token_quotient_def rat_of_def f64_div_zero f64_to_u64_def)
  have "f64_to_u64 (f64_mul (f64_div (f64_of_u64 0) (f64_of_u64 (refill_rate b))) nanos_per_second) = 0"
    if "0 < tokens_to_add el (refill_rate b)" for el
  proof -
    have "fl (rat_of (refill_rate b)) \<noteq> 0"
      using rate [OF that] rat_of_ge_one [of "refill_rate b"] rat_of_zero_iff [of "refill_rate b"]
        fl_ge [OF representable_powi [of 0], of "rat_of (refill_rate b)"]
      by simp
    then show ?thesis
      using f64_of_u64_eq [of "refill_rate b"]
      by (simp add: nanos_per_second_eq f64_of_u64_def f64_of_int_def f64_div_zero f64_to_u64_def)
  qed
  moreover have "sat_sub (tokens b) (tokens b) = 0" "sat_add (last_refill b) 0 = last_refill b"
    by (simp_all add: sat_sub_def)
  ultimately show ?thesis
    by (simp add: refill_def Let_def t [unfolded full [symmetric]] full [symmetric])
qed

text \<open>The compare-and-exchange loop decides once, whatever the spurious failures.\<close>

lemma consume_loop_eq:
  "consume_loop n amount (tokens b) b =
     (if tokens b < amount then (b, False) else (b\<lparr>tokens := tokens b - amount\<rparr>, True))"
  by (induction n) (auto simp: sat_sub_def)

lemma try_consume_eq:
  "try_consume n now amount b =
     (let b1 = refill now b in
      if tokens b1 < amount then (b1, False) else (b1\<lparr>tokens := tokens b1 - amount\<rparr>, True))"
  by (simp add: try_consume_def consume_loop_eq Let_def)

lemma consume_ok: "bucket_ok b \<Longrightarrow> a \<le> tokens b \<Longrightarrow> bucket_ok (b\<lparr>tokens := tokens b - a\<rparr>)"
  by (auto simp: bucket_ok_def word_le_nat_alt unat_sub)

lemma try_consume_ok: "bucket_ok b \<Longrightarrow> bucket_ok (fst (try_consume n now a b))"
  using refill_ok [of b now] by (auto simp: try_consume_eq Let_def consume_ok not_less)

lemma time_until_full_state: "fst (time_until_full now b) = refill now b"
  by (simp add: time_until_full_def available_def Let_def)

text \<open>The wait time of a refused acquisition is a duration but for one case: the rate is one token a
  second and the tokens that are missing round up to 2^64.\<close>

lemma wait_panics:
  fixes now b
  defines "b' \<equiv> refill now b"
  assumes "bucket_ok b"
  shows "snd (time_until_full now b) = Panic \<longleftrightarrow>
    refill_rate b = 1 \<and> 2 ^ 64 - 1024 \<le> uint (capacity b) - uint (tokens b')"
proof -
  let ?k = "capacity b - tokens b'" and ?r = "refill_rate b"
  have le: "tokens b' \<le> capacity b" using refill_ok [OF assms(2), of now] by (simp add: b'_def bucket_ok_def)
  then have k: "uint ?k = uint (capacity b) - uint (tokens b')" by (simp add: uint_minus_simple_alt word_le_def)
  show ?thesis
  proof (cases "capacity b \<le> tokens b' \<or> ?r = 0")
    case True
    with k le show ?thesis by (auto simp: time_until_full_def available_def Let_def b'_def word_le_def)
  next
    case False
    have n: "f64_of_u64 ?k = Fin (fl (rat_of ?k))" "0 \<le> fl (rat_of ?k)" "fl (rat_of ?k) \<le> 2 powi 64"
      and r: "f64_of_u64 ?r = Fin (fl (rat_of ?r))"
      using f64_of_u64_eq [of ?k] f64_of_u64_eq [of ?r] by simp_all
    have wait: "snd (time_until_full now b) = duration_from_secs_f64 (f64_div (f64_of_u64 ?k) (f64_of_u64 ?r))"
      using False by (simp add: time_until_full_def available_def Let_def b'_def)
    show ?thesis
    proof (cases "?r = 1")
      case True
      then have one: "f64_of_u64 1 = Fin 1" using r by (simp add: rat_of_def fl_one)
      have "fround (fl (rat_of ?k)) = Fin (fl (fl (rat_of ?k)))" "fl (fl (rat_of ?k)) \<le> 2 powi 64" "0 \<le> fl (fl (rat_of ?k))"
        using fround_finite [OF n(2,3)] by simp_all
      moreover have "2 ^ 64 \<le> fl (fl (rat_of ?k)) \<longleftrightarrow> 2 ^ 64 - 1024 \<le> uint ?k"
      proof (cases "2 ^ 64 - 1024 \<le> uint ?k")
        case True
        then have "2 ^ 64 \<le> fl (rat_of ?k)" unfolding rat_of_def by (rule fl_top)
        then have "2 ^ 64 \<le> fl (fl (rat_of ?k))" using fl_ge [OF representable_powi [of 64]] by simp
        with True show ?thesis by simp
      next
        case no: False
        then have "fl (rat_of ?k) \<le> 18446744073709549568" unfolding rat_of_def by (intro fl_below_top) simp
        from fl_mono [OF this] have "fl (fl (rat_of ?k)) \<le> 18446744073709549568"
          using fl_below_top [of 18446744073709549568] by simp
        with no show ?thesis by simp
      qed
      ultimately show ?thesis using True k by (simp add: wait n(1) one duration_from_secs_f64_def)
    next
      case no: False
      have "2 \<le> uint ?r" 
      proof -
        have "uint ?r \<noteq> 0" using False by (simp only: uint_0_iff) simp
        moreover have "uint ?r \<noteq> 1" using no word_uint_eq_iff [of ?r 1] by simp
        ultimately show ?thesis using uint_nonnegative [of ?r] by linarith
      qed
      then have "of_int 2 \<le> rat_of ?r" unfolding rat_of_def by (simp only: of_int_le_iff)
      then have two: "2 \<le> fl (rat_of ?r)" using fl_ge [OF representable_powi [of 1], of "rat_of ?r"] by simp
      then have "fl (rat_of ?k) / fl (rat_of ?r) \<le> 2 powi 64 / 2"
        using n by (intro frac_le) simp_all
      then have "fl (rat_of ?k) / fl (rat_of ?r) \<le> 2 powi 63" by simp
      moreover have "0 \<le> fl (rat_of ?k) / fl (rat_of ?r)" using n two by simp
      ultimately have "fround (fl (rat_of ?k) / fl (rat_of ?r)) = Fin (fl (fl (rat_of ?k) / fl (rat_of ?r)))"
          "0 \<le> fl (fl (rat_of ?k) / fl (rat_of ?r))" "fl (fl (rat_of ?k) / fl (rat_of ?r)) \<le> 2 powi 63"
        using fround_finite [of "fl (rat_of ?k) / fl (rat_of ?r)" 63] by simp_all
      with no two show ?thesis by (simp add: wait n(1) r duration_from_secs_f64_def)
    qed
  qed
qed

section \<open>One type at a time\<close>

datatype limiter_event =
    Acquire acquire_clock u64
  | Status u64 u64
  | ResetType u64

datatype limiter_answer =
    Acquired "unit result outcome"
  | StatusIs "rate_limit_status outcome"
  | Done

fun limiter_step ::
  "rate_limit_type \<Rightarrow> limiter_event \<Rightarrow> rate_limiter \<Rightarrow> rate_limiter \<times> limiter_answer"
where
  "limiter_step t (Acquire q a) l = (case try_acquire q t a l of (l', r) \<Rightarrow> (l', Acquired r))"
| "limiter_step t (Status n1 n2) l = (case limiter_status n1 n2 t l of (l', r) \<Rightarrow> (l', StatusIs r))"
| "limiter_step t (ResetType now) l = (reset_type now t l, Done)"

definition only_bucket :: "rate_limit_type \<Rightarrow> token_bucket option \<Rightarrow> rate_limiter" where
  "only_bucket t b =
     \<lparr>rl_config = rate_limit_config_default,
      buckets = (case b of None \<Rightarrow> hm_empty | Some x \<Rightarrow> hm_insert t x hm_empty)\<rparr>"

definition bucket_view :: "rate_limit_type \<Rightarrow> rate_limiter \<Rightarrow> token_bucket option" where
  "bucket_view t l = hm_get (buckets l) t"

lemma bucket_view_set [simp]:
  "bucket_view t' (set_bucket t b l) = (if t' = t then Some b else bucket_view t' l)"
  by (simp add: bucket_view_def set_bucket_def hm.lookup_insert)

lemma bucket_view_only [simp]: "bucket_view t (only_bucket t b) = b"
  by (simp add: bucket_view_def only_bucket_def hm.lookup_insert split: option.splits)

lemma try_acquire_local:
  "bucket_view t l = bucket_view t l' \<Longrightarrow>
     bucket_view t (fst (try_acquire q t a l)) = bucket_view t (fst (try_acquire q t a l')) \<and>
     snd (try_acquire q t a l) = snd (try_acquire q t a l')"
  by (auto simp: try_acquire_def bucket_view_def set_bucket_def hm.lookup_insert
      split: option.splits prod.splits)

lemma limiter_status_local:
  "bucket_view t l = bucket_view t l' \<Longrightarrow>
     bucket_view t (fst (limiter_status n1 n2 t l)) = bucket_view t (fst (limiter_status n1 n2 t l')) \<and>
     snd (limiter_status n1 n2 t l) = snd (limiter_status n1 n2 t l')"
  by (auto simp: limiter_status_def bucket_view_def set_bucket_def hm.lookup_insert
      split: option.splits prod.splits)

lemma reset_type_local:
  "bucket_view t l = bucket_view t l' \<Longrightarrow>
     bucket_view t (reset_type now t l) = bucket_view t (reset_type now t l')"
  by (auto simp: reset_type_def bucket_view_def set_bucket_def hm.lookup_insert split: option.splits)

lemma limiter_step_local:
  "bucket_view t l = bucket_view t l' \<Longrightarrow>
     bucket_view t (fst (limiter_step t e l)) = bucket_view t (fst (limiter_step t e l')) \<and>
     snd (limiter_step t e l) = snd (limiter_step t e l')"
  using try_acquire_local [of t l l'] limiter_status_local [of t l l'] reset_type_local [of t l l']
  by (cases e) (simp_all add: case_prod_beta)

lemma limiter_step_other:
  "t' \<noteq> t \<Longrightarrow> bucket_view t' (fst (limiter_step t e l)) = bucket_view t' l"
  by (cases e)
    (auto simp: try_acquire_def limiter_status_def reset_type_def split: option.splits prod.splits)

interpretation types: keyed_machine limiter_step bucket_view
  "\<lambda>t e b. (bucket_view t (fst (limiter_step t e (only_bucket t b))), snd (limiter_step t e (only_bucket t b)))"
proof unfold_locales
  fix t t' :: rate_limit_type and e :: limiter_event and l :: rate_limiter
  have "bucket_view t l = bucket_view t (only_bucket t (bucket_view t l))" by simp
  from limiter_step_local [OF this, of e]
  show "bucket_view t (fst (limiter_step t e l)) =
      fst (bucket_view t (fst (limiter_step t e (only_bucket t (bucket_view t l)))),
           snd (limiter_step t e (only_bucket t (bucket_view t l))))"
    and "snd (limiter_step t e l) =
      snd (bucket_view t (fst (limiter_step t e (only_bucket t (bucket_view t l)))),
           snd (limiter_step t e (only_bucket t (bucket_view t l))))"
    by simp_all
  show "t' \<noteq> t \<Longrightarrow> bucket_view t' (fst (limiter_step t e l)) = bucket_view t' l"
    by (rule limiter_step_other)
qed


section \<open>Properties of the limiter\<close>

definition limiter_ok :: "rate_limiter \<Rightarrow> bool" where
  "limiter_ok l \<longleftrightarrow> hm_wf (buckets l) \<and>
     (\<forall>t. \<exists>b. hm_get (buckets l) t = Some b \<and> bucket_ok b \<and> 1 \<le> capacity b \<and>
        capacity b = bucket_capacity (rl_config l) t \<and> refill_rate b = get_limit (rl_config l) t)"

lemma limiter_ok_bucket:
  assumes "limiter_ok l"
  obtains b where "hm_get (buckets l) t = Some b" "bucket_ok b"
    "capacity b = bucket_capacity (rl_config l) t"
  using assms unfolding limiter_ok_def by blast

lemma limiter_ok_set:
  assumes "limiter_ok l" and "hm_get (buckets l) t = Some b" and "bucket_ok b'"
    and "capacity b' = capacity b" and "refill_rate b' = refill_rate b"
  shows "limiter_ok (set_bucket t b' l)"
proof -
  have "hm_wf (buckets l)" and get: "\<exists>b. hm_get (buckets l) t' = Some b \<and> bucket_ok b \<and> 1 \<le> capacity b \<and>
      capacity b = bucket_capacity (rl_config l) t' \<and> refill_rate b = get_limit (rl_config l) t'" for t'
    using assms(1) by (simp_all add: limiter_ok_def)
  with get [of t] assms(2-5) show ?thesis
    by (auto simp: limiter_ok_def set_bucket_def hm.lookup_insert hm.ok_insert)
qed

lemma limiter_ok_new: "limiter_ok (rate_limiter_new clock c)"
proof -
  have "hm_get (buckets (rate_limiter_new clock c)) t =
      Some (token_bucket_new (clock t) (bucket_capacity c t) (get_limit c t))" for t
    by (cases t) (simp_all add: rate_limiter_new_def rate_limit_types_all_def hm.lookup_insert)
  moreover have "1 \<le> bucket_capacity c t" for t
    by (cases t) (simp_all add: bucket_capacity_def word_le_nat_alt unat_max)
  ultimately show ?thesis
    by (simp add: limiter_ok_def token_bucket_new_def bucket_ok_def)
      (simp add: rate_limiter_new_def rate_limit_types_all_def hm.ok_insert hm.ok_empty)
qed

lemma refilled_bucket: "bucket_ok b \<Longrightarrow> bucket_ok (refill now b)"
  by (rule refill_ok)

lemma try_acquire_bucket:
  assumes "hm_get (buckets l) t = Some b" and "a \<noteq> 0"
  shows "try_acquire q t a l =
     (let b1 = refill (read1 q) b in
      if a \<le> tokens b1 then (set_bucket t (b1\<lparr>tokens := tokens b1 - a\<rparr>) l, Ret (Ok ()))
      else (set_bucket t (refill (read2 q) b1) l,
            bind_outcome (snd (time_until_full (read2 q) b1)) (\<lambda>d. Ret (Err (RateLimitExceeded t d)))))"
  using assms time_until_full_state [of "read2 q" "refill (read1 q) b"]
  by (cases "time_until_full (read2 q) (refill (read1 q) b)")
    (simp add: try_acquire_def try_consume_eq Let_def not_less [symmetric] split: prod.splits)

lemma limiter_ok_step: "limiter_ok l \<Longrightarrow> limiter_ok (fst (limiter_step t e l))"
proof -
  assume ok: "limiter_ok l"
  then obtain b where b: "hm_get (buckets l) t = Some b" "bucket_ok b"
    by (auto simp: limiter_ok_def)
  have upd: "limiter_ok (set_bucket t b' l)"
    if "bucket_ok b'" "capacity b' = capacity b" "refill_rate b' = refill_rate b" for b'
    using limiter_ok_set [OF ok b(1) that] .
  show ?thesis
  proof (cases e)
    case (Acquire q a)
    have "limiter_ok (fst (try_acquire q t a l))" if "a \<noteq> 0"
      unfolding try_acquire_bucket [OF b(1) that]
      using b(2) by (auto simp: Let_def intro!: upd consume_ok refill_ok)
    with Acquire ok show ?thesis
      by (cases "a = 0") (auto simp: case_prod_beta try_acquire_def)
  next
    case (Status n1 n2)
    then show ?thesis
      using b time_until_full_state [of n2 "refill n1 b"]
      by (cases "time_until_full n2 (refill n1 b)")
        (auto simp: limiter_status_def available_def Let_def intro!: upd refill_ok)
  next
    case (ResetType now)
    then show ?thesis
      using b by (simp add: reset_type_def) (intro upd; simp add: reset_bucket_def bucket_ok_def)
  qed
qed

text \<open>All that changes a limiter: the operations on one type, a call of \<^verbatim>\<open>acquire\<close> with the attempts it
  makes (each attempt may also stand alone among the others, as an \<open>Acquire\<close>), and the reset of all types.\<close>

datatype limiter_call =
    On rate_limit_type limiter_event
  | Waits "acquire_clock list" rate_limit_type u64
  | ResetAll "rate_limit_type \<Rightarrow> u64"

fun limiter_do :: "limiter_call \<Rightarrow> rate_limiter \<Rightarrow> rate_limiter" where
  "limiter_do (On t e) l = fst (limiter_step t e l)"
| "limiter_do (Waits qs t a) l = fst (acquire qs t a l)"
| "limiter_do (ResetAll clock) l = reset_limiter clock l"

lemma limiter_ok_acquire: "limiter_ok l \<Longrightarrow> limiter_ok (fst (acquire_loop qs t a l))"
proof (induction qs arbitrary: l)
  case (Cons q qs)
  have "limiter_ok (fst (try_acquire q t a l))"
    using limiter_ok_step [OF Cons.prems, of t "Acquire q a"] by (simp add: case_prod_beta)
  moreover from Cons.IH [OF this] have "limiter_ok (fst (acquire_loop qs t a (fst (try_acquire q t a l))))" .
  ultimately show ?case
    by (cases "acquire_loop qs t a (fst (try_acquire q t a l))")
      (auto split: prod.splits outcome.splits sum.splits ws_error.splits)
qed simp

lemma limiter_ok_reset: "limiter_ok l \<Longrightarrow> limiter_ok (reset_limiter clock l)"
  unfolding limiter_ok_def reset_limiter_def
  by (simp add: hm_wf_map_values hm_get_map_values) (fastforce simp: reset_bucket_def bucket_ok_def)

lemma limiter_ok_do: "limiter_ok l \<Longrightarrow> limiter_ok (limiter_do e l)"
  by (cases e) (simp_all add: limiter_ok_step limiter_ok_reset acquire_def limiter_ok_acquire)

interpretation limiter: invariant_machine limiter_do limiter_ok
  by unfold_locales (rule limiter_ok_do)

text \<open>C30: After any sequence of acquisitions, waiting acquisitions, status queries, resets of a type and
  resets of the whole limiter with any clock readings, the limiter has a bucket for every type,
  of the configured rate and capacity, the capacity being at least one, and no bucket holds more
  tokens than its capacity.\<close>

theorem limiter_invariant: "limiter_ok (fold limiter_do es (rate_limiter_new clock c))"
  by (rule limiter.run_inv [OF limiter_ok_new])

text \<open>C9: An acquisition of a positive amount succeeds exactly when the refilled bucket of its type
  has that many tokens, and then takes exactly these; a refused one takes none and reports the
  limit of that type with the time until the bucket is full, except when the bucket gains one
  token a second and lacks at least 2^64 - 1024 of them, where the conversion of that time
  panics; buckets of other types are untouched; spurious failures of the exchange change nothing.\<close>

theorem try_acquire_exact:
  assumes "limiter_ok l" and "a \<noteq> 0" and "hm_get (buckets l) t = Some b"
    and "try_acquire q t a l = (l', r)"
  shows "(r = Ret (Ok ()) \<longleftrightarrow> a \<le> tokens (refill (read1 q) b)) \<and>
         (r = Ret (Ok ()) \<longrightarrow>
            hm_get (buckets l') t =
              Some ((refill (read1 q) b)\<lparr>tokens := tokens (refill (read1 q) b) - a\<rparr>)) \<and>
         (r \<noteq> Ret (Ok ()) \<longrightarrow>
            (let left = refill (read2 q) (refill (read1 q) b) in
              hm_get (buckets l') t = Some left \<and>
              (if refill_rate b = 1 \<and> 2 ^ 64 - 1024 \<le> uint (capacity b) - uint (tokens left) then r = Panic
               else \<exists>d. snd (time_until_full (read2 q) (refill (read1 q) b)) = Ret d \<and>
                    r = Ret (Err (RateLimitExceeded t d))))) \<and>
         (\<forall>t'. t' \<noteq> t \<longrightarrow> hm_get (buckets l') t' = hm_get (buckets l) t') \<and>
         try_acquire (q\<lparr>spurious := n\<rparr>) t a l = (l', r)"
proof -
  obtain b' where "hm_get (buckets l) t = Some b'" "bucket_ok b'" using assms(1) by (rule limiter_ok_bucket)
  with assms(3) have ok: "bucket_ok (refill (read1 q) b)" by (simp add: refill_ok)
  have "try_acquire (q\<lparr>spurious := n\<rparr>) t a l = try_acquire q t a l"
    by (simp add: try_acquire_bucket [OF assms(3,2)] Let_def)
  with assms(4) wait_panics [OF ok, of "read2 q"] show ?thesis
    unfolding try_acquire_bucket [OF assms(3,2)]
    by (cases "snd (time_until_full (read2 q) (refill (read1 q) b))")
      (auto simp: Let_def set_bucket_def hm.lookup_insert split: if_splits)
qed

theorem try_acquire_exact_witness:
  "snd (try_acquire \<lparr>spurious = 2, read1 = 5, read2 = 5\<rparr> RL_Message 3
     (rate_limiter_new (\<lambda>_. 5) rate_limit_config_default)) = Ret (Ok ()) \<and>
   (\<exists>d. snd (try_acquire \<lparr>spurious = 0, read1 = 5, read2 = 5\<rparr> RL_Message 101
     (rate_limiter_new (\<lambda>_. 5) rate_limit_config_default)) = Ret (Err (RateLimitExceeded RL_Message d)))"
proof -
  let ?l = "rate_limiter_new (\<lambda>_. 5) rate_limit_config_default"
  have b: "hm_get (buckets ?l) RL_Message = Some (token_bucket_new 5 100 100)"
    by (simp add: rate_limiter_new_def rate_limit_types_all_def hm.lookup_insert bucket_capacity_def
        rate_limit_config_default_def get_limit_def max_def word_le_nat_alt)
  have "refill 5 (token_bucket_new 5 100 100) = token_bucket_new 5 100 100"
    by (rule refill_full) (simp add: token_bucket_new_def)
  with try_acquire_exact [OF limiter_ok_new _ b prod.collapse [symmetric],
      of 3 "\<lparr>spurious = 2, read1 = 5, read2 = 5\<rparr>"]
    try_acquire_exact [OF limiter_ok_new _ b prod.collapse [symmetric],
      of 101 "\<lparr>spurious = 0, read1 = 5, read2 = 5\<rparr>"]
  show ?thesis by (simp add: token_bucket_new_def Let_def) metis
qed


text \<open>The limit types do not interfere: the answers to the acquisitions, queries and resets of a
  type are those of its own bucket alone, in any interleaving with the other types.\<close>

theorem rate_limit_isolation:
  assumes "proj_key t tr = proj_key t tr'" and "hm_get (buckets l) t = hm_get (buckets l') t"
  shows "proj_key t (snd (run_keyed limiter_step tr l)) = proj_key t (snd (run_keyed limiter_step tr' l'))"
  by (rule types.same_projection) (use assms in \<open>simp_all add: bucket_view_def\<close>)

theorem rate_limit_isolation_witness:
  "proj_key RL_Byte (snd (run_keyed limiter_step
     [(RL_Message, ResetType 3), (RL_Byte, Status 7 8)] (rate_limiter_new (\<lambda>_. 0) rate_limit_config_default))) =
   proj_key RL_Byte (snd (run_keyed limiter_step
     [(RL_Byte, Status 7 8)] (rate_limiter_new (\<lambda>_. 0) rate_limit_config_default)))"
  by (rule rate_limit_isolation) simp_all

text \<open>The double arithmetic of the refill is accurate: the tokens it adds (before the cap) are the
  exact number, elapsed time times rate, rounded down, up to eight relative roundings of
  2^-53; after whole seconds (up to 2^53 ns and 2^53 tokens) they are exact.\<close>

theorem refill_accuracy:
  defines "exact \<equiv> \<lambda>el rate. rat_of el / 1000000000 * rat_of rate"
  shows "rat_of (tokens_to_add el rate) \<le> exact el rate * (1 + 8 * unit_roundoff) \<and>
         (tokens_to_add el rate \<noteq> - 1 \<longrightarrow>
            exact el rate * (1 - 8 * unit_roundoff) < rat_of (tokens_to_add el rate) + 1) \<and>
         (uint el = n * 1000000000 \<and> 0 \<le> n \<and> n * 1000000000 \<le> 2 ^ 53 \<and>
          uint rate \<le> 2 ^ 53 \<and> n * uint rate \<le> 2 ^ 53 \<longrightarrow>
            uint (tokens_to_add el rate) = n * uint rate)"
proof (intro conjI impI)
  define x where "x = fl (token_quotient el rate)"
  note err = fl_token_quotient_error [of el rate, folded exact_def x_def]
  have x: "0 \<le> x" unfolding x_def
    by (intro fl_nonneg) (simp add: token_quotient_def fl_nonneg rat_of_bounds)
  have add: "uint (tokens_to_add el rate) = max 0 (min \<lfloor>x\<rfloor> (2 ^ 64 - 1))"
    by (simp add: tokens_to_add_eq uint_f64_to_u64 x_def)
  have "uint (tokens_to_add el rate) \<le> \<lfloor>x\<rfloor>" using x add by simp
  then have "rat_of (tokens_to_add el rate) \<le> of_int \<lfloor>x\<rfloor>"
    unfolding rat_of_def by (simp only: of_int_le_iff)
  then have "rat_of (tokens_to_add el rate) \<le> x" by linarith
  then show "rat_of (tokens_to_add el rate) \<le> exact el rate * (1 + 8 * unit_roundoff)"
    using err(1) by (simp add: exact_def)
  show "exact el rate * (1 - 8 * unit_roundoff) < rat_of (tokens_to_add el rate) + 1"
    if "tokens_to_add el rate \<noteq> - 1"
  proof -
    have "uint (tokens_to_add el rate) \<noteq> 2 ^ 64 - 1"
      using that by (auto simp: word_uint_eq_iff uint_word_ariths)
    moreover have "0 \<le> \<lfloor>x\<rfloor>" using x by simp
    ultimately have "uint (tokens_to_add el rate) = \<lfloor>x\<rfloor>"
      using add by (auto simp: min_def split: if_splits)
    then have "rat_of (tokens_to_add el rate) = of_int \<lfloor>x\<rfloor>" by (simp only: rat_of_def)
    then show ?thesis using err(2) by (simp add: exact_def) linarith
  qed
  show "uint (tokens_to_add el rate) = n * uint rate"
    if "uint el = n * 1000000000 \<and> 0 \<le> n \<and> n * 1000000000 \<le> 2 ^ 53 \<and>
        uint rate \<le> 2 ^ 53 \<and> n * uint rate \<le> 2 ^ 53"
    using that tokens_to_add_whole_seconds by blast
qed

theorem refill_accuracy_witness:
  "uint (tokens_to_add 3000000000 100) = 300"
  using refill_accuracy [of 3000000000 100 3, THEN conjunct2, THEN conjunct2] by simp

text \<open>Waiting never hurts: an acquisition that would be granted is granted at any later reading of
  the clock, and no refill brings the bucket above its capacity or takes tokens away.\<close>

theorem grant_monotone:
  assumes "bucket_ok b" and "now \<le> now'"
  shows "(snd (try_consume n now a b) \<longrightarrow> snd (try_consume n' now' a b)) \<and>
         tokens b \<le> tokens (refill now b) \<and> tokens (refill now b) \<le> capacity b"
  using refill_mono_time [OF assms] refill_ge [OF assms(1), of now] refill_ok [OF assms(1), of now]
  by (auto simp: try_consume_eq Let_def bucket_ok_def)

theorem grant_monotone_witness:
  "snd (try_consume 0 9 10 (token_bucket_new 5 10 10))"
proof -
  have "refill 5 (token_bucket_new 5 10 10) = token_bucket_new 5 10 10"
    by (rule refill_full) (simp add: token_bucket_new_def)
  then have "snd (try_consume 0 5 10 (token_bucket_new 5 10 10))"
    by (simp add: try_consume_eq token_bucket_new_def)
  with grant_monotone [of "token_bucket_new 5 10 10" 5 9 0 10 0] show ?thesis
    by (simp add: bucket_ok_def token_bucket_new_def word_le_nat_alt)
qed

text \<open>C39: An amount above the capacity of its bucket is never granted: \<^verbatim>\<open>acquire\<close> does not return
  with success, whatever the clock readings, and against a full bucket it waits for a
  duration of zero, so that the loop is busy.\<close>

theorem acquire_above_capacity:
  assumes "limiter_ok l" and "bucket_capacity (rl_config l) t < a"
  shows "fst (snd (acquire qs t a l)) \<in> {None, Some Panic} \<and>
         (hm_get (buckets l) t = Some b \<and> tokens b = capacity b \<longrightarrow>
            acquire qs t a l = (l, None, replicate (length qs) 0))"
proof (intro conjI impI)
  have a: "a \<noteq> 0" using assms(2) by auto
  have refuse: "\<exists>l1. limiter_ok l1 \<and> rl_config l1 = rl_config l \<and>
      (try_acquire q t a l = (l1, Panic) \<or> (\<exists>d. try_acquire q t a l = (l1, Ret (Err (RateLimitExceeded t d)))))"
    if "limiter_ok l" "bucket_capacity (rl_config l) t < a" for l q
  proof -
    from that(1) obtain b where
      b: "hm_get (buckets l) t = Some b" "bucket_ok b" "capacity b = bucket_capacity (rl_config l) t"
      by (rule limiter_ok_bucket)
    have "\<not> a \<le> tokens (refill (read1 q) b)"
      using refill_ok [OF b(2), of "read1 q"] that(2) b(3) by (auto simp: bucket_ok_def)
    then have "try_acquire q t a l =
        (set_bucket t (refill (read2 q) (refill (read1 q) b)) l,
         bind_outcome (snd (time_until_full (read2 q) (refill (read1 q) b))) (\<lambda>d. Ret (Err (RateLimitExceeded t d))))"
      by (simp add: try_acquire_bucket [OF b(1) a] Let_def)
    moreover have "limiter_ok (set_bucket t (refill (read2 q) (refill (read1 q) b)) l)"
      by (rule limiter_ok_set [OF that(1) b(1)]) (simp_all add: refill_ok b(2))
    ultimately show ?thesis
      by (cases "snd (time_until_full (read2 q) (refill (read1 q) b))") (auto simp: set_bucket_def)
  qed
  have "fst (snd (acquire_loop qs t a l)) \<in> {None, Some Panic}"
    using assms
  proof (induction qs arbitrary: l)
    case Nil
    then show ?case by simp
  next
    case (Cons q qs)
    from refuse [OF Cons.prems, of q] Cons.IH Cons.prems(2) show ?case
      by (fastforce simp: case_prod_beta)
  qed
  then show "fst (snd (acquire qs t a l)) \<in> {None, Some Panic}" using a by (simp add: acquire_def)
  assume b: "hm_get (buckets l) t = Some b \<and> tokens b = capacity b"
  from assms(1) obtain b' where "hm_get (buckets l) t = Some b'" "capacity b' = bucket_capacity (rl_config l) t"
    by (rule limiter_ok_bucket)
  with b assms(2) have "\<not> a \<le> tokens b" by auto
  then have step: "try_acquire q t a l = (l, Ret (Err (RateLimitExceeded t 0)))" for q
    using b by (simp add: try_acquire_bucket [OF _ a] Let_def refill_full time_until_full_def available_def
        set_bucket_def hm_insert_same)
  have "acquire_loop qs t a l = (l, None, replicate (length qs) 0)"
    by (induction qs) (simp_all add: step)
  with a show "acquire qs t a l = (l, None, replicate (length qs) 0)"
    by (simp add: acquire_def)
qed

theorem acquire_above_capacity_witness:
  "fst (snd (acquire [\<lparr>spurious = 0, read1 = 7, read2 = 8\<rparr>, \<lparr>spurious = 1, read1 = 9, read2 = 9\<rparr>]
     RL_Message 101 (rate_limiter_new (\<lambda>_. 0) rate_limit_config_default))) \<in> {None, Some Panic}"
  by (rule acquire_above_capacity [OF limiter_ok_new, THEN conjunct1])
    (simp add: rate_limiter_new_def bucket_capacity_def rate_limit_config_default_def max_def word_le_nat_alt
      word_less_nat_alt)


text \<open>The credit of an idle bucket.\<close>

lemma fround_int: "0 \<le> k \<Longrightarrow> k \<le> 2 ^ 53 \<Longrightarrow> fround (of_int k) = Fin (of_int k)"
  using f64_of_int_exact [of k] by (simp add: f64_of_int_def)

lemma fround_one: "fround 1 = Fin 1"
  using fround_int [of 1] by simp

text \<open>The time that a refill credits for \<open>c\<close> tokens.\<close>

definition credited_nanos :: "u64 \<Rightarrow> u64 \<Rightarrow> u64" where
  "credited_nanos c rate = f64_to_u64 (f64_mul (f64_div (f64_of_u64 c) (f64_of_u64 rate)) nanos_per_second)"

lemma drain_step:
  fixes c r l w now :: u64
  defines "b \<equiv> \<lparr>tokens = 0, last_refill = l, capacity = c, refill_rate = r\<rparr>"
  assumes "c \<noteq> 0" and "c \<le> tokens_to_add w r" and "unat l + unat w \<le> unat now"
  shows "\<exists>l'. try_consume 0 now c b = (b\<lparr>last_refill := l'\<rparr>, True) \<and> unat l' \<le> unat l + unat (credited_nanos c r)"
proof -
  let ?el = "sat_sub now l" and ?A = "credited_nanos c r"
  have "tokens_to_add 0 r = 0" by (simp add: tokens_to_add_eq token_quotient_def rat_of_def f64_div_zero f64_to_u64_def)
  then have "w \<noteq> 0" using assms(2,3) by auto
  moreover have "w \<le> ?el" using assms(4) by (simp add: word_le_nat_alt unat_sat_sub)
  ultimately have nz: "?el \<noteq> 0" by auto
  have ge: "c \<le> tokens_to_add ?el r" using tokens_to_add_mono [OF \<open>w \<le> ?el\<close>] assms(3) by (rule order_trans [rotated])
  then have pos: "0 < tokens_to_add ?el r" using assms(2) by (metis word_gt_0 word_le_0_iff)
  have new: "min (sat_add 0 (tokens_to_add ?el r)) c = c"
    using min_sat_add [of 0 c "tokens_to_add ?el r"] ge by (simp add: word_unat_eq_iff word_le_nat_alt min_absorb2)
  have s0: "sat_sub c 0 = c" by (simp add: sat_sub_def)
  let ?l = "sat_add l (min ?A ?el)"
  have "try_consume 0 now c b = (b\<lparr>last_refill := ?l\<rparr>, True)"
    by (simp add: try_consume_eq refill_def Let_def b_def nz pos new s0 credited_nanos_def)
  moreover have "unat ?l \<le> unat l + unat ?A" by (simp add: unat_sat_add unat_min)
  ultimately show ?thesis by blast
qed

lemma drain_idle:
  fixes c r l w now :: u64
  assumes "c \<noteq> 0" and "c \<le> tokens_to_add w r" and "unat l + n * unat (credited_nanos c r) + unat w \<le> unat now"
  shows "snd (run_local (\<lambda>_. try_consume 0 now c) (replicate (Suc n) ())
           \<lparr>tokens = 0, last_refill = l, capacity = c, refill_rate = r\<rparr>) = replicate (Suc n) True"
  using assms(3)
proof (induction n arbitrary: l)
  case 0
  then show ?case using drain_step [OF assms(1,2), of l now] by auto
next
  case (Suc n)
  then have "unat l + unat w \<le> unat now" by simp
  from drain_step [OF assms(1,2) this] obtain l' where l': "unat l' \<le> unat l + unat (credited_nanos c r)"
      "try_consume 0 now c \<lparr>tokens = 0, last_refill = l, capacity = c, refill_rate = r\<rparr> =
        (\<lparr>tokens = 0, last_refill = l', capacity = c, refill_rate = r\<rparr>, True)" by auto
  then have "unat l' + n * unat (credited_nanos c r) + unat w \<le> unat now" using Suc.prems by simp
  from Suc.IH [OF this] l' show ?case by (simp add: case_prod_beta)
qed

text \<open>When the capacity is what the rate gives in \<open>k\<close> seconds, both times are \<open>k\<close> seconds.\<close>

lemma credited_seconds:
  fixes r c :: u64
  assumes "r \<noteq> 0" and "uint c = k * uint r" and "uint c \<le> 2 ^ 53" and "uint r \<le> 2 ^ 53"
    and "0 \<le> k" and "k * 1000000000 \<le> 2 ^ 53" and "uint w = k * 1000000000"
  shows "credited_nanos c r = w" and "tokens_to_add w r = c"
proof -
  have nz: "rat_of r \<noteq> 0" using assms(1) by (simp add: rat_of_zero_iff)
  have "rat_of c = of_int k * rat_of r" unfolding rat_of_def assms(2) by (rule of_int_mult)
  with nz have "rat_of c / rat_of r = of_int k" by simp
  moreover have "rat_of r \<noteq> 0" using assms(1) by (simp add: rat_of_zero_iff)
  moreover have "fround (of_int k) = Fin (of_int k)" using assms(5,6) by (intro fround_int) simp_all
  moreover have "fround (of_int (k * 1000000000)) = Fin (of_int (k * 1000000000))" using assms(5,6) by (intro fround_int) simp_all
  ultimately have "credited_nanos c r = f64_to_u64 (Fin (of_int (k * 1000000000)))"
    using f64_of_u64_exact [OF assms(3)] f64_of_u64_exact [OF assms(4)]
    by (simp add: credited_nanos_def nanos_per_second_eq)
  then have "uint (credited_nanos c r) = k * 1000000000"
    using assms(5,6) by (simp only: uint_f64_to_u64 f64_to_int.simps floor_of_int) simp
  with assms(7) show "credited_nanos c r = w" by (simp add: word_uint_eq_iff)
  show "tokens_to_add w r = c"
    using tokens_to_add_whole_seconds [OF assms(7,5,6,4)] assms(2,3) by (simp add: word_uint_eq_iff)
qed

text \<open>C19: The burst is not bounded by the capacity. Take any full bucket, a time in which its rate fills
  it (as the refill computes the tokens), and the time that a refill credits for its capacity. If
  it stays full and unused for the first and \<open>n\<close> times the second, it grants \<open>n + 2\<close> acquisitions of
  its whole capacity at one and the same instant, because a refill of a full bucket leaves
  the time of the last refill behind. The witness has a capacity of 100 and a rate of 10: both
  times are 10 s and after 100 s of rest it grants 11 times the capacity at once.\<close>

theorem idle_credit:
  assumes "tokens b = capacity b" and "capacity b \<noteq> 0" and "capacity b \<le> tokens_to_add fill (refill_rate b)"
    and "unat (last_refill b) + n * unat (credited_nanos (capacity b) (refill_rate b)) + unat fill \<le> unat now"
  shows "snd (run_local (\<lambda>_. try_consume 0 now (capacity b)) (replicate (Suc (Suc n)) ()) b) =
           replicate (Suc (Suc n)) True"
proof -
  have "try_consume 0 now (capacity b) b = (b\<lparr>tokens := 0\<rparr>, True)"
    by (simp add: try_consume_eq Let_def refill_full assms(1))
  moreover have "b\<lparr>tokens := 0\<rparr> = \<lparr>tokens = 0, last_refill = last_refill b, capacity = capacity b, refill_rate = refill_rate b\<rparr>"
    by simp
  ultimately show ?thesis using drain_idle [OF assms(2-4)] by (simp add: case_prod_beta del: replicate.simps) (simp add: case_prod_beta)
qed

theorem idle_credit_witness:
  "snd (run_local (\<lambda>_. try_consume 0 100000000000 100) (replicate (Suc (Suc 9)) ()) (token_bucket_new 0 100 10)) =
     replicate (Suc (Suc 9)) True"
proof -
  have "credited_nanos 100 10 = 10000000000" "tokens_to_add 10000000000 10 = 100"
    by (rule credited_seconds [of _ _ 10]; simp)+
  with idle_credit [of "token_bucket_new 0 100 10" 10000000000 9 100000000000] show ?thesis
    by (simp add: token_bucket_new_def)
qed


text \<open>The wait time can panic: for a drained bucket of the largest capacity and rate one, the
  seconds until full round up to 2^64, which no duration holds, and the refused acquisition
  panics instead of returning an error.\<close>

theorem retry_after_panics:
  assumes "hm_get (buckets l) t = Some \<lparr>tokens = 0, last_refill = lr, capacity = - 1, refill_rate = 1\<rparr>"
    and "read1 q \<le> lr" and "read2 q \<le> lr"
  shows "snd (try_acquire q t 1 l) = Panic"
proof -
  let ?b = "\<lparr>tokens = 0, last_refill = lr, capacity = - 1, refill_rate = 1\<rparr>"
  have "sat_sub now lr = 0" if "now \<le> lr" for now
    using that by (auto simp: sat_sub_def)
  then have r: "refill (read1 q) ?b = ?b" "refill (read2 q) ?b = ?b"
    using assms(2,3) by (simp_all add: refill_def)
  have "fround 18446744073709551615 = Fin 18446744073709551616"
    using fround_normal [of 63 18446744073709551615] by (simp add: round_even_eval)
  moreover have u: "uint (- 1 :: u64) = 18446744073709551615"
    by (simp add: unsigned_minus_1_eq_mask mask_eq_exp_minus_1)
  ultimately have mx: "f64_of_u64 (- 1) = Fin 18446744073709551616"
    by (simp only: f64_of_u64_def f64_of_int_def u of_int_numeral)
  have one: "f64_of_u64 1 = Fin 1"
    using fround_one by (simp add: f64_of_u64_def f64_of_int_def)
  have "fround 18446744073709551616 = Fin 18446744073709551616"
    using fround_normal [of 64 18446744073709551616] by (simp add: round_even_eval)
  then show ?thesis
    by (simp add: try_acquire_bucket [OF assms(1)] Let_def r time_until_full_def available_def
        mx one duration_from_secs_f64_def)
qed

theorem retry_after_panics_witness:
  "snd (try_acquire \<lparr>spurious = 0, read1 = 5, read2 = 5\<rparr> RL_Message 1
     (only_bucket RL_Message (Some \<lparr>tokens = 0, last_refill = 5, capacity = - 1, refill_rate = 1\<rparr>))) = Panic"
  by (rule retry_after_panics [of _ _ 5])
    (simp_all add: bucket_view_only [unfolded bucket_view_def])

section \<open>The connection limit\<close>

text \<open>
  Threads add and remove connections concurrently. A state holds the limiter, the number of
  connections admitted and not removed, and the number of refused additions that have not
  taken their increment back yet.
\<close>

record conn_state =
  cs_limiter :: global_limiter
  cs_active :: nat
  cs_refused :: nat

inductive conn_step :: "bool \<Rightarrow> conn_state \<Rightarrow> conn_state \<Rightarrow> bool" for ck where
  admit: "add_begin ck (cs_limiter s) = (g, Ret (Ok ())) \<Longrightarrow>
     conn_step ck s (s\<lparr>cs_limiter := g, cs_active := Suc (cs_active s)\<rparr>)"
| refuse: "add_begin ck (cs_limiter s) = (g, Ret (Err e)) \<Longrightarrow>
     conn_step ck s (s\<lparr>cs_limiter := g, cs_refused := Suc (cs_refused s)\<rparr>)"
| undo: "cs_refused s = Suc n \<Longrightarrow>
     conn_step ck s (s\<lparr>cs_limiter := add_undo (cs_limiter s), cs_refused := n\<rparr>)"
| leave: "cs_active s = Suc n \<Longrightarrow>
     conn_step ck s (s\<lparr>cs_limiter := remove_connection (cs_limiter s), cs_active := n\<rparr>)"

inductive_cases conn_step_cases: "conn_step ck s s'"

text \<open>Runs with at most \<open>n\<close> additions in progress at any time.\<close>

inductive conn_run :: "bool \<Rightarrow> nat \<Rightarrow> conn_state \<Rightarrow> conn_state \<Rightarrow> bool" for ck n s where
  start: "conn_run ck n s s"
| further: "conn_run ck n s s' \<Longrightarrow> conn_step ck s' s'' \<Longrightarrow> cs_refused s'' \<le> n \<Longrightarrow> conn_run ck n s s''"

definition conn_inv :: "u64 \<Rightarrow> conn_state \<Rightarrow> bool" where
  "conn_inv mx s \<longleftrightarrow>
     max_connections (cs_limiter s) = mx \<and>
     unat (connection_count (cs_limiter s)) = cs_active s + cs_refused s \<and>
     cs_active s \<le> unat mx"

lemma unat_pred: "unat (c :: u64) = Suc n \<Longrightarrow> unat (c - 1) = n"
  by (metis add_diff_cancel_left' diff_Suc_1 nat.simps(3) unat_eq_zero unat_minus_one)

lemma add_begin_eq:
  assumes "unat (connection_count g) + 1 < 2 ^ 64"
  shows "add_begin ck g =
     (g\<lparr>connection_count := connection_count g + 1\<rparr>,
      Ret (if max_connections g < connection_count g + 1
           then Err (ConnectionLimitExceeded (connection_count g + 1) (max_connections g)) else Ok ()))"
  using assms by (simp add: add_begin_def Let_def add_ck_def)

lemma conn_inv_step:
  assumes "conn_inv mx s" and "unat mx + n + 1 < 2 ^ 64" and "cs_refused s \<le> n" and "conn_step ck s s'"
  shows "conn_inv mx s'"
proof -
  have fits: "unat (connection_count (cs_limiter s)) + 1 < 2 ^ 64"
    using assms(1-3) by (simp add: conn_inv_def)
  then have plus: "unat (connection_count (cs_limiter s) + 1) = unat (connection_count (cs_limiter s)) + 1"
    by (simp add: unat_word_ariths)
  from assms(4) show ?thesis
  proof cases
    case (admit g)
    with add_begin_eq [OF fits, of ck] have
      g: "g = cs_limiter s\<lparr>connection_count := connection_count (cs_limiter s) + 1\<rparr>"
      and le: "\<not> max_connections (cs_limiter s) < connection_count (cs_limiter s) + 1"
      by (auto split: if_splits)
    from le have "unat (connection_count (cs_limiter s)) + 1 \<le> unat (max_connections (cs_limiter s))"
      by (simp add: word_less_nat_alt plus)
    with assms(1) show ?thesis by (simp add: admit(1) g conn_inv_def plus)
  next
    case (refuse g e)
    with add_begin_eq [OF fits, of ck] have
      g: "g = cs_limiter s\<lparr>connection_count := connection_count (cs_limiter s) + 1\<rparr>" by simp
    with assms(1) show ?thesis by (simp add: refuse(1) conn_inv_def plus)
  next
    case (undo n)
    with assms(1) show ?thesis by (simp add: conn_inv_def add_undo_def unat_pred)
  next
    case (leave n)
    with assms(1) show ?thesis by (simp add: conn_inv_def remove_connection_def unat_pred)
  qed
qed

definition conn_start :: "global_limiter \<Rightarrow> conn_state" where
  "conn_start g = \<lparr>cs_limiter = g, cs_active = 0, cs_refused = 0\<rparr>"

text \<open>C8: However the atomic steps of concurrent additions and removals interleave, the number of
  admitted connections never exceeds the maximum, and the counter is the number of admitted
  connections plus the refused additions that still have to take their increment back (so that
  it is exact whenever no addition is in progress), as long as the maximum and the concurrent
  additions together do not reach 2^64.\<close>

theorem connection_limit_concurrent:
  assumes "conn_run ck n (conn_start (global_limiter_new clock c mx)) s" and "unat mx + n + 1 < 2 ^ 64"
  shows "cs_active s \<le> unat mx \<and>
         unat (connection_count (cs_limiter s)) = cs_active s + cs_refused s"
proof -
  from assms(1) have "conn_inv mx s \<and> cs_refused s \<le> n"
  proof (induction rule: conn_run.induct)
    case start
    show ?case by (simp add: conn_inv_def conn_start_def global_limiter_new_def)
  next
    case (further s' s'')
    with conn_inv_step [OF _ assms(2)] show ?case by blast
  qed
  then show ?thesis by (simp add: conn_inv_def)
qed

theorem connection_limit_concurrent_witness:
  "\<exists>s. conn_run True 1 (conn_start (global_limiter_new (\<lambda>_. 0) rate_limit_config_default 1)) s \<and>
     cs_active s = 1 \<and> cs_refused s = 1 \<and> unat (connection_count (cs_limiter s)) = 2"
proof -
  let ?g = "global_limiter_new (\<lambda>_. 0) rate_limit_config_default 1"
  let ?g1 = "?g\<lparr>connection_count := 1\<rparr>" and ?g2 = "?g\<lparr>connection_count := 2\<rparr>"
  let ?s1 = "\<lparr>cs_limiter = ?g1, cs_active = 1, cs_refused = 0\<rparr>"
  let ?s2 = "\<lparr>cs_limiter = ?g2, cs_active = 1, cs_refused = 1\<rparr>"
  have "conn_step True (conn_start ?g) ?s1"
    using conn_step.admit [of True "conn_start ?g" ?g1]
    by (simp add: conn_start_def add_begin_def add_ck_def global_limiter_new_def Let_def)
  moreover have "conn_step True ?s1 ?s2"
    using conn_step.refuse [of True ?s1 ?g2]
    by (simp add: add_begin_def add_ck_def global_limiter_new_def Let_def)
  ultimately have run: "conn_run True 1 (conn_start ?g) ?s2"
    by (intro conn_run.further [OF conn_run.further [OF conn_run.start]]) simp_all
  from connection_limit_concurrent [OF run] show ?thesis
    using run by (intro exI [of _ ?s2]) simp
qed

end
