(* ===== verification/Settings.thy ===== *)
theory Settings
  imports F64 Errors
begin

text \<open>
  The constants of \<^verbatim>\<open>src/src/lib.rs\<close> and the configurations of \<^verbatim>\<open>src/src/config.rs\<close> that
  the reconnection, heartbeat and backpressure components take.
\<close>

section \<open>Constants of the crate\<close>

definition DEFAULT_MAX_MESSAGE_SIZE :: nat where
  "DEFAULT_MAX_MESSAGE_SIZE = 10 * 1024 * 1024"

definition DEFAULT_PING_INTERVAL :: nat where "DEFAULT_PING_INTERVAL = 30"
definition DEFAULT_PING_TIMEOUT :: nat where "DEFAULT_PING_TIMEOUT = 10"
definition DEFAULT_BUFFER_SIZE :: u64 where "DEFAULT_BUFFER_SIZE = 1000"
definition DEFAULT_CONNECTION_TIMEOUT :: nat where "DEFAULT_CONNECTION_TIMEOUT = 5"

section \<open>Reconnection\<close>

record reconnect_config =
  rc_enabled :: bool
  rc_max_attempts :: u32
  rc_initial_delay :: duration
  rc_max_delay :: duration
  rc_backoff_multiplier :: f64

definition reconnect_config_default :: reconnect_config where
  "reconnect_config_default =
     \<lparr>rc_enabled = True, rc_max_attempts = 0, rc_initial_delay = millis 100, rc_max_delay = secs 30,
      rc_backoff_multiplier = f64_lit (3/2)\<rparr>"

definition reconnect_config_disabled :: reconnect_config where
  "reconnect_config_disabled = reconnect_config_default\<lparr>rc_enabled := False\<rparr>"

definition with_max_attempts :: "u32 \<Rightarrow> reconnect_config \<Rightarrow> reconnect_config" where
  "with_max_attempts n c = c\<lparr>rc_max_attempts := n\<rparr>"

definition with_initial_delay :: "duration \<Rightarrow> reconnect_config \<Rightarrow> reconnect_config" where
  "with_initial_delay d c = c\<lparr>rc_initial_delay := d\<rparr>"

definition with_max_delay :: "duration \<Rightarrow> reconnect_config \<Rightarrow> reconnect_config" where
  "with_max_delay d c = c\<lparr>rc_max_delay := d\<rparr>"

definition with_backoff_multiplier :: "f64 \<Rightarrow> reconnect_config \<Rightarrow> reconnect_config" where
  "with_backoff_multiplier x c = c\<lparr>rc_backoff_multiplier := x\<rparr>"

definition reconnect_config_new :: reconnect_config where
  "reconnect_config_new = reconnect_config_default"

section \<open>Heartbeat\<close>

record heartbeat_config =
  hc_enabled :: bool
  hc_ping_interval :: duration
  hc_ping_timeout :: duration

definition heartbeat_config_default :: heartbeat_config where
  "heartbeat_config_default =
     \<lparr>hc_enabled = True, hc_ping_interval = secs DEFAULT_PING_INTERVAL,
      hc_ping_timeout = secs DEFAULT_PING_TIMEOUT\<rparr>"

definition heartbeat_config_disabled :: heartbeat_config where
  "heartbeat_config_disabled = heartbeat_config_default\<lparr>hc_enabled := False\<rparr>"

definition with_ping_interval :: "duration \<Rightarrow> heartbeat_config \<Rightarrow> heartbeat_config" where
  "with_ping_interval d c = c\<lparr>hc_ping_interval := d\<rparr>"

definition with_ping_timeout :: "duration \<Rightarrow> heartbeat_config \<Rightarrow> heartbeat_config" where
  "with_ping_timeout d c = c\<lparr>hc_ping_timeout := d\<rparr>"

definition heartbeat_config_new :: heartbeat_config where
  "heartbeat_config_new = heartbeat_config_default"

section \<open>Backpressure\<close>

record backpressure_config =
  bc_enabled :: bool
  bc_max_buffer_size :: u64
  bc_backpressure_threshold :: f64
  bc_recovery_threshold :: f64

definition backpressure_config_default :: backpressure_config where
  "backpressure_config_default =
     \<lparr>bc_enabled = True, bc_max_buffer_size = DEFAULT_BUFFER_SIZE,
      bc_backpressure_threshold = f64_lit (8/10), bc_recovery_threshold = f64_lit (6/10)\<rparr>"

definition backpressure_config_new :: backpressure_config where
  "backpressure_config_new = backpressure_config_default"

definition backpressure_config_disabled :: backpressure_config where
  "backpressure_config_disabled = backpressure_config_default\<lparr>bc_enabled := False\<rparr>"

definition with_max_buffer_size :: "u64 \<Rightarrow> backpressure_config \<Rightarrow> backpressure_config" where
  "with_max_buffer_size n c = c\<lparr>bc_max_buffer_size := n\<rparr>"

text \<open>The thresholds are asserted to lie between 0 and 1.\<close>

definition threshold_ok :: "f64 \<Rightarrow> bool" where
  "threshold_ok x \<longleftrightarrow> f64_le (Fin 0) x \<and> f64_le x (Fin 1)"

definition with_backpressure_threshold :: "f64 \<Rightarrow> backpressure_config \<Rightarrow> backpressure_config outcome" where
  "with_backpressure_threshold x c =
     (if threshold_ok x then Ret (c\<lparr>bc_backpressure_threshold := x\<rparr>) else Panic)"

definition with_recovery_threshold :: "f64 \<Rightarrow> backpressure_config \<Rightarrow> backpressure_config outcome" where
  "with_recovery_threshold x c =
     (if threshold_ok x then Ret (c\<lparr>bc_recovery_threshold := x\<rparr>) else Panic)"

lemma threshold_ok_iff: "threshold_ok x \<longleftrightarrow> (\<exists>r. x = Fin r \<and> 0 \<le> r \<and> r \<le> 1)"
  by (cases x) (simp_all add: threshold_ok_def)

end
