(* ===== verification/Backpressure.thy ===== *)
theory Backpressure
  imports Settings
begin

text \<open>
  \<^verbatim>\<open>src/src/backpressure.rs\<close>: the controller that counts the bytes in flight. The counter is a
  64-bit word; \<open>ck\<close> tells whether the build checks overflow.
\<close>

section \<open>The controller\<close>

record backpressure =
  bp_config :: backpressure_config
  bp_current_size :: u64

definition backpressure_new :: "backpressure_config \<Rightarrow> backpressure" where
  "backpressure_new c = \<lparr>bp_config = c, bp_current_size = 0\<rparr>"

definition activation_size :: "backpressure_config \<Rightarrow> u64" where
  "activation_size c =
     f64_to_u64 (f64_mul (f64_of_u64 (bc_max_buffer_size c)) (bc_backpressure_threshold c))"

definition is_backpressure_active :: "backpressure \<Rightarrow> bool" where
  "is_backpressure_active b \<longleftrightarrow>
     (if \<not> bc_enabled (bp_config b) then False
      else bp_current_size b > activation_size (bp_config b))"

definition can_send :: "backpressure \<Rightarrow> bool" where
  "can_send b \<longleftrightarrow> \<not> is_backpressure_active b"

definition record_send :: "bool \<Rightarrow> u64 \<Rightarrow> (backpressure, unit) op" where
  "record_send ck n = op_add ck bp_current_size bp_current_size_update n"

definition record_recv :: "u64 \<Rightarrow> backpressure \<Rightarrow> backpressure" where
  "record_recv n b = b\<lparr>bp_current_size := sat_sub (bp_current_size b) n\<rparr>"

definition utilization :: "backpressure \<Rightarrow> f64" where
  "utilization b = f64_div (f64_of_u64 (bp_current_size b)) (f64_of_u64 (bc_max_buffer_size (bp_config b)))"

definition is_full :: "backpressure \<Rightarrow> bool" where
  "is_full b \<longleftrightarrow> bp_current_size b \<ge> bc_max_buffer_size (bp_config b)"

text \<open>
  \<^verbatim>\<open>wait_for_backpressure_clear\<close> polls the shared controller every 10 ms; the list holds the
  states it sees. The answer is the time slept when it returns, \<open>None\<close> while it still waits.
\<close>

fun wait_for_backpressure_clear :: "backpressure list \<Rightarrow> duration option" where
  "wait_for_backpressure_clear [] = None"
| "wait_for_backpressure_clear (b # bs) =
     (if is_backpressure_active b
      then map_option (\<lambda>d. millis 10 + d) (wait_for_backpressure_clear bs)
      else Some 0)"

definition backpressure_current_size :: "backpressure \<Rightarrow> usize" where
  "backpressure_current_size b = bp_current_size b"

section \<open>Lemmas\<close>

lemma record_send_fits:
  "unat (bp_current_size b) + unat n < 2 ^ 64 \<Longrightarrow>
     record_send ck n b = (b\<lparr>bp_current_size := bp_current_size b + n\<rparr>, Ret ())"
  by (simp add: record_send_def op_add_fits)

lemma record_send_cases:
  "record_send ck n b = (b, Panic) \<or>
   record_send ck n b = (b\<lparr>bp_current_size := bp_current_size b + n\<rparr>, Ret ())"
  by (simp add: record_send_def op_add_def add_ck_def)

text \<open>The default configuration activates above 800 bytes: the double nearest to 0.8, times 1000,
  rounds to 800.\<close>

lemma activation_size_default: "activation_size backpressure_config_default = 800"
proof -
  have t: "fround (4 / 5) = Fin (3602879701896397 / 4503599627370496)"
    using fround_normal [of "- 1" "4 / 5"]
    by (simp add: round_even_eval power_int_minus)
  have m: "f64_of_u64 1000 = Fin 1000"
    using f64_of_int_exact [of 1000] by (simp add: f64_of_u64_def)
  have "fround (1000 * (3602879701896397 / 4503599627370496)) = Fin 800"
    using fround_normal [of 9 "1000 * (3602879701896397 / 4503599627370496)"]
    by (simp add: round_even_eval power_int_minus)
  then show ?thesis
    by (simp add: activation_size_def backpressure_config_default_def DEFAULT_BUFFER_SIZE_def t m
        f64_to_u64_def)
qed

text \<open>With a threshold that the builder accepts, the activation point is at most the buffer.\<close>

lemma activation_size_le:
  assumes "threshold_ok (bc_backpressure_threshold c)" and "uint (bc_max_buffer_size c) \<le> 2 ^ 53"
  shows "activation_size c \<le> bc_max_buffer_size c"
proof -
  let ?m = "uint (bc_max_buffer_size c)"
  obtain r where r: "bc_backpressure_threshold c = Fin r" "0 \<le> r" "r \<le> 1"
    using assms(1) by (auto simp: threshold_ok_iff)
  have m: "f64_of_u64 (bc_max_buffer_size c) = Fin (rat_of (bc_max_buffer_size c))"
    using assms(2) by (rule f64_of_u64_exact)
  have "rat_of (bc_max_buffer_size c) * r \<le> rat_of (bc_max_buffer_size c) * 1"
    using r rat_of_bounds(1) by (intro mult_left_mono) simp_all
  then have "rat_of (bc_max_buffer_size c) * r \<le> of_int ?m" by (simp only: rat_of_def mult_1_right)
  then have "f64_to_int (2 ^ 64 - 1) (fround (rat_of (bc_max_buffer_size c) * r)) \<le> ?m"
    using assms(2) by (intro f64_to_int_le) simp_all
  then show ?thesis
    by (simp only: word_le_def activation_size_def uint_f64_to_u64 m r f64_mul.simps)
qed

section \<open>The ledger\<close>

datatype flow = Sent u64 | Received u64

fun flow_step :: "bool \<Rightarrow> flow \<Rightarrow> backpressure \<Rightarrow> backpressure" where
  "flow_step ck (Sent n) b = fst (record_send ck n b)"
| "flow_step ck (Received n) b = record_recv n b"

text \<open>The specification: a counter of bytes in flight that never drops below zero.\<close>

fun in_flight :: "flow \<Rightarrow> nat \<Rightarrow> nat" where
  "in_flight (Sent n) k = k + unat n"
| "in_flight (Received n) k = k - unat n"

definition bytes_sent_in :: "flow list \<Rightarrow> nat" where
  "bytes_sent_in fs = sum_list (map (\<lambda>f. case f of Sent n \<Rightarrow> unat n | Received _ \<Rightarrow> 0) fs)"

lemma in_flight_bound: "fold in_flight fs k \<le> k + bytes_sent_in fs"
proof (induction fs arbitrary: k)
  case (Cons f fs)
  from Cons.IH [of "in_flight f k"] show ?case
    by (cases f) (simp_all add: bytes_sent_in_def)
qed (simp add: bytes_sent_in_def)

lemma flow_config: "bp_config (flow_step ck f b) = bp_config b"
proof (cases f)
  case (Sent n)
  with record_send_cases [of ck n b] show ?thesis by auto
qed (simp add: record_recv_def)

text \<open>C33: As long as the bytes sent fit a machine word, the controller implements a counter of bytes in
  flight: what was sent minus what was received, never below zero. Sending is refused exactly
  when it is enabled and this counter is above the activation point.\<close>

theorem backpressure_ledger:
  assumes "bytes_sent_in fs < 2 ^ 64"
  shows "unat (bp_current_size (fold (flow_step ck) fs (backpressure_new c))) = fold in_flight fs 0 \<and>
         (can_send (fold (flow_step ck) fs (backpressure_new c)) \<longleftrightarrow>
            \<not> bc_enabled c \<or> fold in_flight fs 0 \<le> unat (activation_size c))"
proof -
  have "unat (bp_current_size (fold (flow_step ck) fs b)) = fold in_flight fs (unat (bp_current_size b)) \<and>
      bp_config (fold (flow_step ck) fs b) = bp_config b"
    if "unat (bp_current_size b) + bytes_sent_in fs < 2 ^ 64" for b
    using that
  proof (induction fs arbitrary: b)
    case (Cons f fs)
    have size: "unat (bp_current_size (flow_step ck f b)) = in_flight f (unat (bp_current_size b))"
    proof (cases f)
      case (Sent n)
      with Cons.prems have "unat (bp_current_size b) + unat n < 2 ^ 64"
        by (simp add: bytes_sent_in_def)
      with Sent show ?thesis by (simp add: record_send_fits unat_add_fits)
    qed (simp add: record_recv_def unat_sat_sub)
    moreover have "in_flight f (unat (bp_current_size b)) + bytes_sent_in fs < 2 ^ 64"
      using Cons.prems by (cases f) (simp_all add: bytes_sent_in_def)
    ultimately show ?case
      using Cons.IH [of "flow_step ck f b"] by (simp add: flow_config)
  qed (simp add: bytes_sent_in_def)
  from this [of "backpressure_new c"] assms show ?thesis
    by (auto simp: backpressure_new_def can_send_def is_backpressure_active_def word_less_nat_alt not_less)
qed

theorem backpressure_ledger_witness:
  "can_send (fold (flow_step True) [Sent 900, Received 100] (backpressure_new backpressure_config_default))"
  using backpressure_ledger [of "[Sent 900, Received 100]" True backpressure_config_default]
  by (simp add: bytes_sent_in_def activation_size_default)

text \<open>Thresholds: with a threshold the builder accepts, a buffer beyond its maximum is always under
  backpressure; the default configuration refuses above 800 bytes; and there is no
  hysteresis: the recovery threshold has no influence, sending resumes as soon as the counter
  is back at the activation point.\<close>

theorem backpressure_thresholds:
  "(bc_enabled (bp_config b) \<and> threshold_ok (bc_backpressure_threshold (bp_config b)) \<and>
    uint (bc_max_buffer_size (bp_config b)) \<le> 2 ^ 53 \<and>
    bc_max_buffer_size (bp_config b) < bp_current_size b \<longrightarrow> \<not> can_send b) \<and>
   (bp_config b = backpressure_config_default \<longrightarrow> (can_send b \<longleftrightarrow> bp_current_size b \<le> 800)) \<and>
   can_send (b\<lparr>bp_config := (bp_config b)\<lparr>bc_recovery_threshold := x\<rparr>\<rparr>) = can_send b"
proof (intro conjI impI)
  assume *: "bc_enabled (bp_config b) \<and> threshold_ok (bc_backpressure_threshold (bp_config b)) \<and>
    uint (bc_max_buffer_size (bp_config b)) \<le> 2 ^ 53 \<and>
    bc_max_buffer_size (bp_config b) < bp_current_size b"
  then have "activation_size (bp_config b) < bp_current_size b"
    using activation_size_le [of "bp_config b"] by (blast intro: le_less_trans)
  with * show "\<not> can_send b" by (simp add: can_send_def is_backpressure_active_def)
next
  assume "bp_config b = backpressure_config_default"
  then show "can_send b \<longleftrightarrow> bp_current_size b \<le> 800"
    by (simp add: can_send_def is_backpressure_active_def activation_size_default not_less)
      (simp add: backpressure_config_default_def)
next
  show "can_send (b\<lparr>bp_config := (bp_config b)\<lparr>bc_recovery_threshold := x\<rparr>\<rparr>) = can_send b"
    by (simp add: can_send_def is_backpressure_active_def activation_size_def)
qed

theorem backpressure_thresholds_witness:
  "\<not> can_send \<lparr>bp_config = backpressure_config_default, bp_current_size = 801\<rparr>"
  using backpressure_thresholds [of "\<lparr>bp_config = backpressure_config_default, bp_current_size = 801\<rparr>"]
  by (simp add: word_le_nat_alt)

end
