(* ===== verification/Heartbeat.thy ===== *)
theory Heartbeat
  imports Settings Messages
begin

text \<open>
  \<^verbatim>\<open>src/src/heartbeat.rs\<close>: ping counting, matching of pongs, liveness. Counters are machine
  words; \<open>ck\<close> tells whether the build checks overflow. \<^verbatim>\<open>ping\<close> takes the lock twice: once to
  read the count for the payload, once to update.
\<close>

section \<open>The manager\<close>

record heartbeat =
  hb_config :: heartbeat_config
  last_ping :: "instant option"
  last_pong :: "instant option"
  ping_count :: u64
  pong_count :: u64
  missed_pings :: u8

definition heartbeat_new :: "heartbeat_config \<Rightarrow> heartbeat" where
  "heartbeat_new c =
     \<lparr>hb_config = c, last_ping = None, last_pong = None, ping_count = 0, pong_count = 0, missed_pings = 0\<rparr>"

definition hb_is_enabled :: "heartbeat \<Rightarrow> bool" where
  "hb_is_enabled h \<longleftrightarrow> hc_enabled (hb_config h)"

definition ping_payload :: "heartbeat \<Rightarrow> bytes" where
  "ping_payload h = to_be 8 (unat (ping_count h))"

definition ping_commit :: "bool \<Rightarrow> instant \<Rightarrow> (heartbeat, unit) op" where
  "ping_commit ck now =
     op_then (op_update (\<lambda>h. h\<lparr>last_ping := Some now\<rparr>)) (\<lambda>_.
     op_add ck ping_count ping_count_update 1)"

definition ping :: "bool \<Rightarrow> instant \<Rightarrow> (heartbeat, message) op" where
  "ping ck now h =
     (let p = ping_payload h in op_then (ping_commit ck now) (\<lambda>_. op_return (message_ping p)) h)"

definition expected_ping :: "heartbeat \<Rightarrow> u64" where
  "expected_ping h = (if 0 < ping_count h then ping_count h - 1 else 0)"

definition handle_pong :: "bool \<Rightarrow> instant \<Rightarrow> bytes \<Rightarrow> (heartbeat, unit result) op" where
  "handle_pong ck now p h =
     (if length p = 8 \<and> of_nat (from_be p) = expected_ping h
      then
        op_then (op_update (\<lambda>h. h\<lparr>last_pong := Some now\<rparr>)) (\<lambda>_.
        op_then (op_add ck pong_count pong_count_update 1) (\<lambda>_.
        op_then (op_update (\<lambda>h. h\<lparr>missed_pings := 0\<rparr>)) (\<lambda>_. op_return (Ok ())))) h
      else
        op_then (op_add ck missed_pings missed_pings_update 1) (\<lambda>_ h.
          (h, Ret (if missed_pings h > 3 then Err Timeout else Ok ()))) h)"

definition is_alive :: "instant \<Rightarrow> heartbeat \<Rightarrow> bool" where
  "is_alive now h \<longleftrightarrow>
     (if \<not> hb_is_enabled h then True
      else (case last_pong h of
              Some t \<Rightarrow> elapsed now t < hc_ping_timeout (hb_config h)
            | None \<Rightarrow>
                (case last_ping h of
                   Some t \<Rightarrow> elapsed now t < hc_ping_timeout (hb_config h)
                 | None \<Rightarrow> True)))"

definition hb_reset :: "heartbeat \<Rightarrow> heartbeat" where
  "hb_reset h = h\<lparr>last_ping := None, last_pong := None, missed_pings := 0\<rparr>"

text \<open>The timer is \<^verbatim>\<open>tokio\<close>'s; the model answers the period it is created with.\<close>

definition ping_interval :: "heartbeat \<Rightarrow> duration result" where
  "ping_interval h =
     (if \<not> hb_is_enabled h then Err (NotSupported (lit ''Heartbeat is disabled''))
      else Ok (hc_ping_interval (hb_config h)))"

definition handle_ping :: "bytes \<Rightarrow> message" where
  "handle_ping p = message_pong p"

definition time_since_last_pong :: "instant \<Rightarrow> heartbeat \<Rightarrow> duration option" where
  "time_since_last_pong now h = map_option (\<lambda>t. elapsed now t) (last_pong h)"

text \<open>The readers, each one critical section.\<close>

definition read_ping_count :: "heartbeat \<Rightarrow> u64" where
  "read_ping_count h = ping_count h"

definition read_pong_count :: "heartbeat \<Rightarrow> u64" where
  "read_pong_count h = pong_count h"

definition read_missed_pings :: "heartbeat \<Rightarrow> u8" where
  "read_missed_pings h = missed_pings h"

section \<open>Lemmas\<close>

lemma unat_ping_payload: "from_be (ping_payload h) = unat (ping_count h)"
  unfolding ping_payload_def
  by (rule from_be_to_be) (use unat_less_two_power [of "ping_count h"] in simp)

lemma length_ping_payload [simp]: "length (ping_payload h) = 8"
  by (simp add: ping_payload_def)

lemma ping_fits:
  "unat (ping_count h) + 1 < 2 ^ 64 \<Longrightarrow>
     ping ck now h =
       (h\<lparr>last_ping := Some now, ping_count := ping_count h + 1\<rparr>, Ret (message_ping (ping_payload h)))"
  by (simp add: ping_def ping_commit_def Let_def op_then_def op_update_def op_return_def op_add_fits)

lemma handle_pong_match:
  "length p = 8 \<Longrightarrow> of_nat (from_be p) = expected_ping h \<Longrightarrow> unat (pong_count h) + 1 < 2 ^ 64 \<Longrightarrow>
     handle_pong ck now p h =
       (h\<lparr>last_pong := Some now, pong_count := pong_count h + 1, missed_pings := 0\<rparr>, Ret (Ok ()))"
  by (simp add: handle_pong_def op_then_def op_update_def op_return_def op_add_fits)

lemma handle_pong_mismatch:
  "\<not> (length p = 8 \<and> of_nat (from_be p) = expected_ping h) \<Longrightarrow>
     handle_pong ck now p h =
       (case add_ck ck (missed_pings h) 1 of
          Panic \<Rightarrow> (h, Panic)
        | Ret v \<Rightarrow> (h\<lparr>missed_pings := v\<rparr>, Ret (if v > 3 then Err Timeout else Ok ())))"
  by (cases "add_ck ck (missed_pings h) 1") (auto simp: handle_pong_def op_then_def op_add_def)


section \<open>Properties\<close>

lemma expected_ping_missed [simp]: "expected_ping (h\<lparr>missed_pings := m\<rparr>) = expected_ping h"
  by (simp add: expected_ping_def)

lemma expected_after_ping:
  "unat (ping_count h) + 1 < 2 ^ 64 \<Longrightarrow>
     expected_ping (h\<lparr>last_ping := t, ping_count := ping_count h + 1\<rparr>) = ping_count h"
  by (simp add: expected_ping_def word_less_nat_alt unat_add_fits)

text \<open>The pong that echoes the payload of the last ping is accepted: it clears the missed count, is
  counted and times the connection as alive; any other pong is counted as missed and is
  an error from the fourth on.\<close>

theorem ping_pong_matching:
  assumes "unat (ping_count h) + 1 < 2 ^ 64" and "unat (pong_count h) + 1 < 2 ^ 64"
    and "ping ck now h = (h1, Ret m)"
  shows "handle_pong ck now' (payload (handle_ping (payload m))) h1 =
           (h1\<lparr>last_pong := Some now', pong_count := pong_count h + 1, missed_pings := 0\<rparr>, Ret (Ok ())) \<and>
         (p \<noteq> payload m \<and> unat (missed_pings h) + 1 < 256 \<longrightarrow>
            handle_pong ck now' p h1 =
              (h1\<lparr>missed_pings := missed_pings h + 1\<rparr>,
               Ret (if missed_pings h + 1 > 3 then Err Timeout else Ok ())))"
proof -
  have h1: "h1 = h\<lparr>last_ping := Some now, ping_count := ping_count h + 1\<rparr>"
    and m: "payload m = ping_payload h"
    using assms(3) by (auto simp: ping_fits [OF assms(1)] message_ping_def)
  have ex: "expected_ping h1 = ping_count h"
    using assms(1) by (simp add: h1 expected_after_ping)
  have ok: "handle_pong ck now' (payload (handle_ping (payload m))) h1 =
           (h1\<lparr>last_pong := Some now', pong_count := pong_count h + 1, missed_pings := 0\<rparr>, Ret (Ok ()))"
    using assms(2)
    by (subst handle_pong_match) (simp_all add: handle_ping_def message_pong_def m ex [unfolded h1] unat_ping_payload h1)
  have "\<not> (length p = 8 \<and> of_nat (from_be p) = expected_ping h1)" if "p \<noteq> payload m"
  proof
    assume *: "length p = 8 \<and> of_nat (from_be p) = expected_ping h1"
    then have "from_be p < 2 ^ 64" using from_be_bound [of p] by simp
    then have "from_be p = unat (of_nat (from_be p) :: u64)" by (simp add: unat_of_nat)
    with * ex have "from_be p = unat (ping_count h)" by simp
    then have "p = ping_payload h"
      using * to_be_from_be [of p 8] by (simp add: ping_payload_def)
    with that m show False by simp
  qed
  then show ?thesis
    using ok by (auto simp: handle_pong_mismatch machine_arith h1)
qed

theorem ping_pong_matching_witness:
  "\<exists>h1 m. ping True 0 (heartbeat_new heartbeat_config_default) = (h1, Ret m) \<and>
     snd (handle_pong True 1 (payload (handle_ping (payload m))) h1) = Ret (Ok ())"
proof -
  let ?h = "heartbeat_new heartbeat_config_default"
  have "unat (ping_count ?h) + 1 < 2 ^ 64" "unat (pong_count ?h) + 1 < 2 ^ 64"
    by (simp_all add: heartbeat_new_def)
  from ping_pong_matching [OF this ping_fits [OF this(1)], of True 1] ping_fits [OF this(1), of True 0]
  show ?thesis by fastforce
qed

text \<open>The missed count is a byte. In a release build it wraps: of consecutive unmatched pongs the
  \<open>i\<close>-th is an error exactly when \<open>i mod 256 > 3\<close>, so that the 256th is accepted again; in a
  build with overflow checks the 256th panics.\<close>

theorem missed_pings_wrap:
  assumes "missed_pings h = 0"
    and "\<forall>p \<in> set ps. \<not> (length p = 8 \<and> of_nat (from_be p) = expected_ping h)"
  shows "snd (run_local (\<lambda>p. handle_pong False now p) ps h) =
           map (\<lambda>i. Ret (if 3 < i mod 256 then Err Timeout else Ok ())) [1..<Suc (length ps)] \<and>
         (missed_pings h' = 255 \<and> expected_ping h' = expected_ping h \<and> ps \<noteq> [] \<longrightarrow>
           snd (handle_pong True now (hd ps) h') = Panic)"
proof (intro conjI)
  have "snd (run_local (\<lambda>p. handle_pong False now p) ps g) =
           map (\<lambda>i. Ret (if 3 < i mod 256 then Err Timeout else Ok ())) [Suc k..<Suc (k + length ps)]"
    if "missed_pings g = of_nat k" "expected_ping g = expected_ping h" for g k
    using assms(2) that
  proof (induction ps arbitrary: g k)
    case (Cons p ps)
    have gt: "3 < (of_nat (Suc k) :: u8) \<longleftrightarrow> 3 < Suc k mod 256"
    proof -
      have "unat (of_nat (Suc k) :: u8) = Suc k mod 2 ^ LENGTH(8)" by (rule unat_of_nat)
      then show ?thesis by (simp only: word_less_nat_alt) simp
    qed
    have step: "handle_pong False now p g =
        (g\<lparr>missed_pings := of_nat (Suc k)\<rparr>, Ret (if 3 < Suc k mod 256 then Err Timeout else Ok ()))"
      using Cons.prems gt by (simp add: handle_pong_mismatch add_ck_release add.commute)
    have "expected_ping (g\<lparr>missed_pings := of_nat (Suc k)\<rparr>) = expected_ping h"
      using Cons.prems(3) by simp
    with Cons.IH [of "g\<lparr>missed_pings := of_nat (Suc k)\<rparr>" "Suc k"] Cons.prems(1) step
    show ?case by (simp add: case_prod_beta upt_rec del: upt_Suc)
  qed simp
  from this [of h 0] assms(1)
  show "snd (run_local (\<lambda>p. handle_pong False now p) ps h) =
           map (\<lambda>i. Ret (if 3 < i mod 256 then Err Timeout else Ok ())) [1..<Suc (length ps)]"
    by simp
  show "missed_pings h' = 255 \<and> expected_ping h' = expected_ping h \<and> ps \<noteq> [] \<longrightarrow>
           snd (handle_pong True now (hd ps) h') = Panic"
    using assms(2) by (cases ps) (auto simp: handle_pong_mismatch add_ck_def)
qed

theorem missed_pings_wrap_witness:
  "snd (run_local (\<lambda>p. handle_pong False 9 p) [[1], [2], [3], [4], [5]] (heartbeat_new heartbeat_config_default)) =
     [Ret (Ok ()), Ret (Ok ()), Ret (Ok ()), Ret (Err Timeout), Ret (Err Timeout)]"
  using missed_pings_wrap [of "heartbeat_new heartbeat_config_default" "[[1], [2], [3], [4], [5]]" 9]
  by (simp add: heartbeat_new_def upt_rec)

text \<open>Two pings sent at the same time carry the same number, because the count is read before the
  lock of the update is taken, and then the pongs of both are counted as missed.\<close>

theorem concurrent_pings:
  assumes "unat (ping_count h) + 2 < 2 ^ 64" and "unat (missed_pings h) + 1 < 256"
    and "h2 = fst (ping_commit ck t2 (fst (ping_commit ck t1 h)))"
  shows "ping_payload h2 \<noteq> ping_payload h \<and>
         handle_pong ck now (ping_payload h) h2 =
           (h2\<lparr>missed_pings := missed_pings h + 1\<rparr>,
            Ret (if missed_pings h + 1 > 3 then Err Timeout else Ok ()))"
proof -
  have one: "unat (ping_count h + 1) = unat (ping_count h) + 1"
    using assms(1) by (simp add: unat_add_fits)
  then have two: "unat (ping_count h + 1 + 1) = unat (ping_count h) + 2"
    using assms(1) unat_add_fits [of "ping_count h + 1" 1] by simp
  have h2: "h2 = h\<lparr>last_ping := Some t2, ping_count := ping_count h + 1 + 1\<rparr>"
    using assms(1,3) one by (simp add: ping_commit_def op_add_fits)
  have ne: "ping_count h + 1 \<noteq> ping_count h" "ping_count h + 1 + 1 \<noteq> ping_count h"
    using one two by (auto simp: word_unat_eq_iff)
  have "expected_ping h2 = ping_count h + 1"
    using two by (simp add: expected_ping_def h2 word_less_nat_alt)
  then have mis: "\<not> (length (ping_payload h) = 8 \<and> of_nat (from_be (ping_payload h)) = expected_ping h2)"
    using ne(1) by (simp add: unat_ping_payload)
  have "from_be (ping_payload h2) \<noteq> from_be (ping_payload h)"
    using two by (simp add: unat_ping_payload h2)
  then have "ping_payload h2 \<noteq> ping_payload h" by auto
  moreover have "handle_pong ck now (ping_payload h) h2 =
           (h2\<lparr>missed_pings := missed_pings h + 1\<rparr>,
            Ret (if missed_pings h + 1 > 3 then Err Timeout else Ok ()))"
    using assms(2) by (simp add: handle_pong_mismatch [OF mis] machine_arith) (simp add: h2 machine_arith)
  ultimately show ?thesis by blast
qed

theorem concurrent_pings_witness:
  "missed_pings (fst (handle_pong True 5 (ping_payload (heartbeat_new heartbeat_config_default))
     (fst (ping_commit True 2 (fst (ping_commit True 1 (heartbeat_new heartbeat_config_default))))))) = 1"
  using concurrent_pings [OF _ _ refl, of "heartbeat_new heartbeat_config_default" True 2 1 5]
  by (simp add: heartbeat_new_def)

text \<open>One turn of a heartbeat whose round trip is longer than the interval: the next ping goes out, then
  the echo of the ping before it comes back.\<close>

definition late_turn :: "instant \<times> instant \<Rightarrow> heartbeat \<Rightarrow> heartbeat" where
  "late_turn ts h =
     fst (handle_pong False (snd ts) (payload (handle_ping (to_be 8 (unat (ping_count h) - 1)))) (fst (ping False (fst ts) h)))"

lemma late_turn_missed:
  assumes "0 < unat (ping_count h)" and "unat (ping_count h) + 1 < 2 ^ 64"
  shows "late_turn ts h =
    h\<lparr>last_ping := Some (fst ts), ping_count := ping_count h + 1, missed_pings := missed_pings h + 1\<rparr>"
proof -
  let ?n = "unat (ping_count h)" and ?h = "h\<lparr>last_ping := Some (fst ts), ping_count := ping_count h + 1\<rparr>"
  let ?p = "to_be 8 (?n - 1)"
  have "from_be ?p = ?n - 1" using unat_less_two_power [of "ping_count h"] by (intro from_be_to_be) simp
  moreover have "of_nat (?n - 1) \<noteq> ping_count h"
  proof
    assume eq: "of_nat (?n - 1) = ping_count h"
    obtain k where k: "?n = Suc k" using assms(1) by (cases ?n) simp_all
    then have "unat (of_nat k :: u64) = k" using assms(2) by (simp add: unat_of_nat)
    moreover have "of_nat k = ping_count h" using eq unfolding k by simp
    ultimately show False using k by simp
  qed
  ultimately have "\<not> (length ?p = 8 \<and> of_nat (from_be ?p) = expected_ping ?h)"
    using expected_after_ping [OF assms(2)] by simp
  then show ?thesis
    by (simp add: late_turn_def ping_fits [OF assms(2)] handle_ping_def message_pong_def handle_pong_mismatch
        add_ck_release del: to_be.simps)
qed

text \<open>C25: Only the echo of the very last ping counts (release build). When the round trip is longer than
  the interval, so that each echo arrives after the next ping has gone out, every ping is
  answered and every answer is counted as a missed ping (modulo 256), none as a pong. What such a
  connection is reported as, if the heartbeat is enabled: with a pong from before, alive until
  the timeout has passed since that pong and dead from then on, however many pings are answered;
  with no pong before, alive or dead by the age of the last ping alone, whatever is answered.\<close>

theorem late_pongs_missed:
  assumes "0 < unat (ping_count h)" and "unat (ping_count h) + length turns < 2 ^ 64" and "turns \<noteq> []"
  shows "missed_pings (fold late_turn turns h) = missed_pings h + of_nat (length turns) \<and>
    pong_count (fold late_turn turns h) = pong_count h \<and>
    unat (ping_count (fold late_turn turns h)) = unat (ping_count h) + length turns \<and>
    (is_alive now (fold late_turn turns h) \<longleftrightarrow>
       \<not> hb_is_enabled h \<or>
       (case last_pong h of
          Some t \<Rightarrow> now - t < hc_ping_timeout (hb_config h)
        | None \<Rightarrow> now - fst (last turns) < hc_ping_timeout (hb_config h)))"
proof -
  have "missed_pings (fold late_turn turns h) = missed_pings h + of_nat (length turns) \<and>
    pong_count (fold late_turn turns h) = pong_count h \<and>
    unat (ping_count (fold late_turn turns h)) = unat (ping_count h) + length turns \<and>
    hb_config (fold late_turn turns h) = hb_config h \<and> last_pong (fold late_turn turns h) = last_pong h \<and>
    last_ping (fold late_turn turns h) = (if turns = [] then last_ping h else Some (fst (last turns)))"
    using assms(1,2)
  proof (induction turns arbitrary: h)
    case (Cons ts turns)
    have "unat (ping_count h) + 1 < 2 ^ 64" using Cons.prems(2) by simp
    note turn = late_turn_missed [OF Cons.prems(1) this, of ts] and one = unat_add_fits [of "ping_count h" 1]
    have "unat (ping_count h + 1) = unat (ping_count h) + 1" using one \<open>unat (ping_count h) + 1 < 2 ^ 64\<close> by simp
    with Cons.IH [of "late_turn ts h"] Cons.prems show ?case by (simp add: turn add.assoc)
  qed simp
  with assms(3) show ?thesis
    by (auto simp: is_alive_def elapsed_def hb_is_enabled_def split: option.split)
qed

theorem late_pongs_missed_witness:
  "let turns = [(70, 71), (100, 101), (130, 131)];
       fresh = fst (ping False 10 (heartbeat_new heartbeat_config_default));
       h = fst (ping False 40 (fst (handle_pong False 11 (to_be 8 0) fresh)))
   in missed_pings (fold late_turn turns h) = 3 \<and> is_alive (10 + secs 10) (fold late_turn turns h) \<and>
      \<not> is_alive (11 + secs 10) (fold late_turn turns h) \<and>
      is_alive (129 + secs 10) (fold late_turn turns fresh) \<and> \<not> is_alive (130 + secs 10) (fold late_turn turns fresh)"
proof -
  let ?turns = "[(70, 71), (100, 101), (130, 131)]"
  let ?n = "heartbeat_new heartbeat_config_default"
  define fresh where "fresh = fst (ping False 10 ?n)"
  have fresh: "fresh = ?n\<lparr>last_ping := Some 10, ping_count := 1\<rparr>"
    unfolding fresh_def by (subst ping_fits) (simp_all add: heartbeat_new_def)
  have "of_nat (from_be (to_be 8 0)) = expected_ping fresh"
    using from_be_to_be [of 0 8] by (simp add: fresh expected_ping_def del: to_be.simps)
  then have "fst (handle_pong False 11 (to_be 8 0) fresh) =
      fresh\<lparr>last_pong := Some 11, pong_count := 1, missed_pings := 0\<rparr>"
    by (subst handle_pong_match) (simp_all add: fresh heartbeat_new_def)
  then have h: "fst (ping False 40 (fst (handle_pong False 11 (to_be 8 0) fresh))) =
      fresh\<lparr>last_pong := Some 11, pong_count := 1, missed_pings := 0, last_ping := Some 40, ping_count := 2\<rparr>"
    by (simp add: fresh) (subst ping_fits; simp add: heartbeat_new_def)
  note late = late_pongs_missed [of _ ?turns]
  show ?thesis
    unfolding Let_def fresh_def [symmetric] h
    using late [of "fresh\<lparr>last_pong := Some 11, pong_count := 1, missed_pings := 0, last_ping := Some 40, ping_count := 2\<rparr>" "10 + secs 10"]
      late [of "fresh\<lparr>last_pong := Some 11, pong_count := 1, missed_pings := 0, last_ping := Some 40, ping_count := 2\<rparr>" "11 + secs 10"]
      late [of fresh "129 + secs 10"] late [of fresh "130 + secs 10"]
    by (simp add: fresh heartbeat_new_def hb_is_enabled_def heartbeat_config_default_def DEFAULT_PING_TIMEOUT_def)
qed

text \<open>Liveness is the age of the last pong against the timeout. With the default configuration
  (interval 30 s, timeout 10 s) a connection that answers every ping at once is reported dead
  from 10 s after each pong until the next.\<close>

theorem heartbeat_liveness:
  assumes "unat (pong_count h) + 1 < 2 ^ 64" and "length p = 8" and "of_nat (from_be p) = expected_ping h"
    and "handle_pong ck t p h = (h1, r)"
  shows "(is_alive now h1 \<longleftrightarrow> \<not> hb_is_enabled h \<or> now - t < hc_ping_timeout (hb_config h)) \<and>
         (hb_config h = heartbeat_config_default \<and> t + secs 10 \<le> now \<and> now < t + secs 30 \<longrightarrow>
            \<not> is_alive now h1 \<and> ping_interval h1 = Ok (secs 30))"
proof -
  have "h1 = h\<lparr>last_pong := Some t, pong_count := pong_count h + 1, missed_pings := 0\<rparr>"
    using assms(4) by (simp add: handle_pong_match [OF assms(2,3,1)])
  then show ?thesis
    by (auto simp: is_alive_def hb_is_enabled_def elapsed_def ping_interval_def
        heartbeat_config_default_def DEFAULT_PING_TIMEOUT_def DEFAULT_PING_INTERVAL_def)
qed

theorem heartbeat_liveness_witness:
  "\<not> is_alive (secs 20) (fst (handle_pong True (secs 5) (to_be 8 0) (heartbeat_new heartbeat_config_default)))"
proof -
  let ?h = "heartbeat_new heartbeat_config_default"
  have "from_be (to_be 8 0) = 0" by (simp add: from_be_to_be)
  then have "of_nat (from_be (to_be 8 0)) = expected_ping ?h"
    by (simp add: expected_ping_def heartbeat_new_def)
  from heartbeat_liveness [where ck = True and t = "secs 5" and now = "secs 20",
      OF _ _ this prod.collapse [symmetric], THEN conjunct2, THEN mp, THEN conjunct1]
  show ?thesis by (simp add: heartbeat_new_def)
qed

end
