(* ===== verification/Reconnect.thy ===== *)
theory Reconnect
  imports Settings
begin

text \<open>
  \<^verbatim>\<open>src/src/reconnect.rs\<close>: attempts, limits and the exponential backoff, computed in \<^verbatim>\<open>f64\<close>
  milliseconds as the code does.
\<close>

section \<open>The state\<close>

record reconnect_state =
  rs_config :: reconnect_config
  rs_attempt :: u32
  rs_last_attempt :: "instant option"
  rs_current_delay :: duration

definition reconnect_new :: "reconnect_config \<Rightarrow> reconnect_state" where
  "reconnect_new c =
     \<lparr>rs_config = c, rs_attempt = 0, rs_last_attempt = None, rs_current_delay = rc_initial_delay c\<rparr>"

definition rs_is_enabled :: "reconnect_state \<Rightarrow> bool" where
  "rs_is_enabled s \<longleftrightarrow> rc_enabled (rs_config s)"

definition should_reconnect :: "reconnect_state \<Rightarrow> bool" where
  "should_reconnect s \<longleftrightarrow>
     (if \<not> rs_is_enabled s then False
      else if 0 < rc_max_attempts (rs_config s) \<and> rc_max_attempts (rs_config s) \<le> rs_attempt s then False
      else True)"

definition next_delay :: "reconnect_state \<Rightarrow> duration" where
  "next_delay s = rs_current_delay s"

definition millis_f64 :: "duration \<Rightarrow> f64" where
  "millis_f64 d = f64_of_int (int (as_millis d))"

definition backoff :: "reconnect_config \<Rightarrow> duration \<Rightarrow> duration" where
  "backoff c d =
     millis (unat (f64_to_u64
       (f64_min (f64_mul (millis_f64 d) (rc_backoff_multiplier c)) (millis_f64 (rc_max_delay c)))))"

definition record_attempt :: "bool \<Rightarrow> instant \<Rightarrow> (reconnect_state, unit) op" where
  "record_attempt ck now =
     op_then (op_add ck rs_attempt rs_attempt_update 1) (\<lambda>_.
     op_update (\<lambda>s. s\<lparr>rs_last_attempt := Some now,
                       rs_current_delay := backoff (rs_config s) (rs_current_delay s)\<rparr>))"

definition rs_reset :: "reconnect_state \<Rightarrow> reconnect_state" where
  "rs_reset s =
     s\<lparr>rs_attempt := 0, rs_last_attempt := None, rs_current_delay := rc_initial_delay (rs_config s)\<rparr>"

text \<open>\<^verbatim>\<open>wait_for_next_attempt\<close>: the error, or the time it slept.\<close>

definition wait_for_next_attempt :: "reconnect_state \<Rightarrow> duration result" where
  "wait_for_next_attempt s =
     (if \<not> should_reconnect s then Err ReconnectTimeout else Ok (next_delay s))"

definition read_attempts :: "reconnect_state \<Rightarrow> u32" where
  "read_attempts s = rs_attempt s"

section \<open>The backoff\<close>

definition whole_millis :: "duration \<Rightarrow> rat" where
  "whole_millis d = of_int (int (as_millis d))"

lemma millis_f64_exact: "as_millis d \<le> 2 ^ 53 \<Longrightarrow> millis_f64 d = Fin (whole_millis d)"
proof -
  assume "as_millis d \<le> 2 ^ 53"
  then have "int (as_millis d) \<le> int (2 ^ 53)" by (simp only: of_nat_le_iff)
  then show ?thesis
    unfolding millis_f64_def whole_millis_def by (intro f64_of_int_exact) simp_all
qed

lemma as_millis_millis [simp]: "as_millis (millis n) = n"
  by (simp add: as_millis_def)

text \<open>The next delay in terms of one rounding, for a multiplier that is a non-negative number.\<close>

lemma backoff_eq:
  assumes "as_millis (rc_max_delay c) \<le> 2 ^ 53" and "as_millis d \<le> 2 ^ 53"
    and "rc_backoff_multiplier c = Fin m" and "0 \<le> m"
  shows "as_millis (backoff c d) = min (nat \<lfloor>fl (whole_millis d * m)\<rfloor>) (as_millis (rc_max_delay c))"
proof -
  let ?p = "whole_millis d * m" and ?mx = "int (as_millis (rc_max_delay c))"
  have p: "0 \<le> fl ?p" using assms(4) by (intro fl_nonneg) (simp add: whole_millis_def)
  have mx: "?mx \<le> int (2 ^ 53)" using assms(1) by (simp only: of_nat_le_iff)
  have small: "(of_int ?mx :: rat) < 2 ^ 1024"
  proof -
    have "(of_int ?mx :: rat) \<le> of_int (int (2 ^ 53))" using mx by (simp only: of_int_le_iff)
    then show ?thesis by (rule le_less_trans) simp
  qed
  have fp: "fround ?p = (if 2 ^ 1024 \<le> fl ?p then PInf else Fin (fl ?p))"
    using p by (auto simp: fround_def Let_def)
  have "f64_to_int (2 ^ 64 - 1) (f64_min (fround ?p) (Fin (of_int ?mx))) = min \<lfloor>fl ?p\<rfloor> ?mx"
  proof (cases "fl ?p \<le> of_int ?mx")
    case True
    then have "\<lfloor>fl ?p\<rfloor> \<le> ?mx" by (simp add: floor_le_iff)
    with True small p mx show ?thesis by (simp add: fp f64_min_def)
  next
    case False
    then have "?mx \<le> \<lfloor>fl ?p\<rfloor>" by (simp add: le_floor_iff)
    with False small mx show ?thesis by (auto simp: fp f64_min_def)
  qed
  then have "unat (f64_to_u64 (f64_min (fround ?p) (Fin (of_int ?mx)))) = nat (min \<lfloor>fl ?p\<rfloor> ?mx)"
    by (simp only: unat_f64_to_u64)
  also have "\<dots> = min (nat \<lfloor>fl ?p\<rfloor>) (as_millis (rc_max_delay c))"
    by (auto simp: min_def nat_le_iff)
  finally show ?thesis
    by (simp add: backoff_def millis_f64_exact [OF assms(1)] millis_f64_exact [OF assms(2)]
        assms(3) whole_millis_def)
qed


lemma backoff_le_max:
  assumes "as_millis (rc_max_delay c) \<le> 2 ^ 53" and "as_millis d \<le> 2 ^ 53"
    and "rc_backoff_multiplier c = Fin m" and "0 \<le> m"
  shows "as_millis (backoff c d) \<le> as_millis (rc_max_delay c)"
  by (simp add: backoff_eq [OF assms])

text \<open>A multiplier of at least one never shortens a delay that is within the maximum: the delay is
  itself a double, and rounding does not cross it.\<close>

lemma backoff_ge:
  assumes "as_millis (rc_max_delay c) \<le> 2 ^ 53" and "as_millis d \<le> as_millis (rc_max_delay c)"
    and "rc_backoff_multiplier c = Fin m" and "1 \<le> m"
  shows "as_millis d \<le> as_millis (backoff c d)"
proof -
  let ?d = "int (as_millis d)"
  have d: "as_millis d \<le> 2 ^ 53" using assms(1,2) by simp
  then have "?d \<le> int (2 ^ 53)" by (simp only: of_nat_le_iff)
  then have r: "representable (whole_millis d)"
    unfolding whole_millis_def by (intro representable_int) simp_all
  have "whole_millis d * 1 \<le> whole_millis d * m"
    using assms(4) by (intro mult_left_mono) (simp_all add: whole_millis_def)
  then have "whole_millis d \<le> fl (whole_millis d * m)"
    using r by (intro fl_ge) simp_all
  then have "?d \<le> \<lfloor>fl (whole_millis d * m)\<rfloor>"
    unfolding whole_millis_def by (simp only: le_floor_iff)
  then have "as_millis d \<le> nat \<lfloor>fl (whole_millis d * m)\<rfloor>" by simp
  with assms(2) show ?thesis
    using assms(4) by (simp add: backoff_eq [OF assms(1) d assms(3)])
qed

section \<open>Runs of attempts\<close>

definition after_attempts :: "bool \<Rightarrow> reconnect_config \<Rightarrow> instant list \<Rightarrow> reconnect_state" where
  "after_attempts ck c ts = fold (\<lambda>t s. fst (record_attempt ck t s)) ts (reconnect_new c)"

lemma record_attempt_fits:
  "unat (rs_attempt s) + 1 < 2 ^ 32 \<Longrightarrow>
     fst (record_attempt ck t s) =
       s\<lparr>rs_attempt := rs_attempt s + 1, rs_last_attempt := Some t,
         rs_current_delay := backoff (rs_config s) (rs_current_delay s)\<rparr>"
  by (simp add: record_attempt_def op_then_def op_update_def op_add_fits)

lemma after_attempts_snoc:
  "after_attempts ck c (ts @ [t]) = fst (record_attempt ck t (after_attempts ck c ts))"
  by (simp add: after_attempts_def)

lemma after_attempts_count:
  "length ts < 2 ^ 32 \<Longrightarrow>
     unat (rs_attempt (after_attempts ck c ts)) = length ts \<and> rs_config (after_attempts ck c ts) = c"
proof (induction ts rule: rev_induct)
  case Nil
  then show ?case by (simp add: after_attempts_def reconnect_new_def)
next
  case (snoc t ts)
  then have IH: "unat (rs_attempt (after_attempts ck c ts)) = length ts"
    "rs_config (after_attempts ck c ts) = c" by simp_all
  with snoc.prems have fits: "unat (rs_attempt (after_attempts ck c ts)) + 1 < 2 ^ 32" by simp
  with IH show ?case
    by (simp add: after_attempts_snoc record_attempt_fits unat_add_fits)
qed

lemma after_attempts_delay:
  "length ts + 1 < 2 ^ 32 \<Longrightarrow>
     next_delay (after_attempts ck c (ts @ [t])) = backoff c (next_delay (after_attempts ck c ts))"
  using after_attempts_count [of ts ck c]
  by (simp add: after_attempts_snoc record_attempt_fits next_delay_def)

text \<open>After any number of attempts (below 2^32) the attempt counter is that number and a further
  attempt is allowed exactly while reconnection is enabled and the limit, if there is one, is
  not reached.\<close>

theorem reconnect_attempts:
  assumes "length ts < 2 ^ 32"
  shows "unat (rs_attempt (after_attempts ck c ts)) = length ts \<and>
         (should_reconnect (after_attempts ck c ts) \<longleftrightarrow>
            rc_enabled c \<and> (rc_max_attempts c = 0 \<or> length ts < unat (rc_max_attempts c))) \<and>
         (wait_for_next_attempt (after_attempts ck c ts) = Err ReconnectTimeout \<longleftrightarrow>
            \<not> should_reconnect (after_attempts ck c ts)) \<and>
         rs_reset (after_attempts ck c ts) = reconnect_new c"
proof -
  note cnt = after_attempts_count [OF assms, of ck c]
  then have "should_reconnect (after_attempts ck c ts) \<longleftrightarrow>
      rc_enabled c \<and> (rc_max_attempts c = 0 \<or> length ts < unat (rc_max_attempts c))"
    by (auto simp: should_reconnect_def rs_is_enabled_def word_le_nat_alt word_gt_0)
  moreover have "rs_reset (after_attempts ck c ts) = reconnect_new c"
    using cnt by (cases "after_attempts ck c ts") (simp add: rs_reset_def reconnect_new_def)
  ultimately show ?thesis
    using cnt by (simp add: wait_for_next_attempt_def)
qed

theorem reconnect_attempts_witness:
  "\<not> should_reconnect (after_attempts True (with_max_attempts 2 reconnect_config_default) [5, 6])"
  using reconnect_attempts [of "[5, 6]" True "with_max_attempts 2 reconnect_config_default"]
  by (simp add: with_max_attempts_def)

text \<open>C36: The backoff, for a multiplier that is a number of at least one, an initial delay within the
  maximum, a maximum of at most 2^53 ms and fewer than 2^32 attempts. The delay before the first
  attempt is the initial delay; each attempt multiplies it (one rounding of a double, then
  down to whole milliseconds) and cuts it at the maximum; so, in whole milliseconds, the delays never
  decrease from one attempt to the next and stay between the initial delay and the maximum.\<close>

theorem backoff_monotone_bounded:
  assumes "rc_backoff_multiplier c = Fin m" and "1 \<le> m"
    and "as_millis (rc_max_delay c) \<le> 2 ^ 53"
    and "as_millis (rc_initial_delay c) \<le> as_millis (rc_max_delay c)"
    and "length ts + 1 < 2 ^ 32"
  shows "next_delay (after_attempts ck c []) = rc_initial_delay c \<and>
         as_millis (next_delay (after_attempts ck c (ts @ [t]))) =
           min (nat \<lfloor>fl (of_nat (as_millis (next_delay (after_attempts ck c ts))) * m)\<rfloor>) (as_millis (rc_max_delay c)) \<and>
         as_millis (rc_initial_delay c) \<le> as_millis (next_delay (after_attempts ck c ts)) \<and>
         as_millis (next_delay (after_attempts ck c ts)) \<le> as_millis (next_delay (after_attempts ck c (ts @ [t]))) \<and>
         as_millis (next_delay (after_attempts ck c (ts @ [t]))) \<le> as_millis (rc_max_delay c)"
proof -
  have in_range: "as_millis (rc_initial_delay c) \<le> as_millis (next_delay (after_attempts ck c ts)) \<and>
      as_millis (next_delay (after_attempts ck c ts)) \<le> as_millis (rc_max_delay c)"
    using assms(5)
  proof (induction ts rule: rev_induct)
    case Nil
    then show ?case using assms(4) by (simp add: after_attempts_def reconnect_new_def next_delay_def)
  next
    case (snoc t ts)
    let ?d = "next_delay (after_attempts ck c ts)"
    have IH: "as_millis (rc_initial_delay c) \<le> as_millis ?d" "as_millis ?d \<le> as_millis (rc_max_delay c)"
      using snoc by simp_all
    then have "as_millis ?d \<le> as_millis (backoff c ?d)"
      using backoff_ge [OF assms(3) _ assms(1,2)] by blast
    moreover have "as_millis (backoff c ?d) \<le> as_millis (rc_max_delay c)"
      using backoff_le_max [OF assms(3) _ assms(1)] IH(2) assms(2,3) by simp
    ultimately show ?case
      using IH snoc.prems by (simp add: after_attempts_delay)
  qed
  then have small: "as_millis (next_delay (after_attempts ck c ts)) \<le> 2 ^ 53" using assms(3) by linarith
  moreover have "next_delay (after_attempts ck c []) = rc_initial_delay c"
    by (simp add: after_attempts_def reconnect_new_def next_delay_def)
  moreover have "as_millis (next_delay (after_attempts ck c (ts @ [t]))) =
      min (nat \<lfloor>fl (of_nat (as_millis (next_delay (after_attempts ck c ts))) * m)\<rfloor>) (as_millis (rc_max_delay c))"
    using backoff_eq [OF assms(3) small assms(1)] assms(2)
    by (simp add: after_attempts_delay [OF assms(5)] whole_millis_def)
  moreover have "as_millis (next_delay (after_attempts ck c ts)) \<le> as_millis (next_delay (after_attempts ck c (ts @ [t])))"
    using in_range backoff_ge [OF assms(3) _ assms(1,2)] by (simp add: after_attempts_delay [OF assms(5)])
  moreover have "as_millis (next_delay (after_attempts ck c (ts @ [t]))) \<le> as_millis (rc_max_delay c)"
    using backoff_le_max [OF assms(3) small assms(1)] assms(2) by (simp add: after_attempts_delay [OF assms(5)])
  ultimately show ?thesis using in_range by blast
qed

lemma fround_three_halves: "fround (3 / 2) = Fin (3 / 2)"
  using fround_normal [of 0 "3 / 2"] by (simp add: round_even_eval power_int_minus)

theorem backoff_monotone_bounded_witness:
  "as_millis (next_delay (after_attempts True reconnect_config_default ([1, 2, 3] @ [4]))) \<le> 30000"
  using backoff_monotone_bounded [of reconnect_config_default "3/2" "[1, 2, 3]" True 4]
  by (simp add: reconnect_config_default_def fround_three_halves as_millis_def)

text \<open>The default backoff is exact: below 2^50 ms the next delay is one and a half times the
  last, rounded down to whole milliseconds, at most 30 s. The first delay is the configured
  initial delay whatever the maximum is.\<close>

theorem default_backoff_exact:
  assumes "as_millis d \<le> 2 ^ 50"
  shows "as_millis (backoff reconnect_config_default d) = min (3 * as_millis d div 2) 30000 \<and>
         next_delay (reconnect_new c) = rc_initial_delay c"
proof -
  define n where "n = int (as_millis d)"
  define x where "x = whole_millis d * (3 / 2)"
  have n: "0 \<le> n" "n \<le> 2 ^ 50"
    using assms of_nat_le_iff [of "as_millis d" "2 ^ 50", where ?'a = int] by (simp_all add: n_def)
  have x: "x = of_int (3 * n) / 2" by (simp add: x_def whole_millis_def n_def)
  have "\<lfloor>fl x\<rfloor> = 3 * n div 2"
  proof (cases "n = 0")
    case True
    then show ?thesis by (simp add: x fl_def)
  next
    case False
    with n have "1 \<le> n" by linarith
    then have "(of_int 1 :: rat) \<le> of_int n" by (simp only: of_int_le_iff)
    then have x1: "1 \<le> x" by (simp add: x)
    have "(of_int n :: rat) \<le> of_int (2 ^ 50)" using n(2) by (simp only: of_int_le_iff)
    then have "x * unit_roundoff < 1 / 2" by (simp add: x unit_roundoff_def)
    moreover have "(2::rat) powi (- 1022) \<le> x"
      using x1 powi_mono [of "- 1022" 0] by (intro order_trans [of "2 powi (- 1022)" 1 x]) simp_all
    then have "\<bar>fl x - x\<bar> \<le> x * unit_roundoff" by (rule fl_relative_error)
    ultimately have err: "fl x < x + 1 / 2" by linarith
    let ?k = "3 * n div 2"
    have k: "of_int ?k \<le> x" "x \<le> of_int ?k + 1 / 2"
    proof -
      have "2 * ?k \<le> 3 * n" "3 * n \<le> 2 * ?k + 1" by linarith+
      then have "(of_int (2 * ?k) :: rat) \<le> of_int (3 * n)" "(of_int (3 * n) :: rat) \<le> of_int (2 * ?k + 1)"
        by (simp_all only: of_int_le_iff)
      then show "of_int ?k \<le> x" "x \<le> of_int ?k + 1 / 2" by (simp_all add: x)
    qed
    have "0 \<le> ?k" "?k \<le> 2 ^ 53" using n by simp_all
    then have "of_int ?k \<le> fl x" using k(1) by (intro fl_ge representable_int)
    moreover have "fl x < of_int ?k + 1" using err k(2) by linarith
    ultimately show ?thesis by (simp add: floor_eq_iff)
  qed
  moreover have "nat (3 * n div 2) = 3 * as_millis d div 2"
    by (simp add: n_def nat_div_distrib nat_mult_distrib)
  moreover have "as_millis (backoff reconnect_config_default d) =
      min (nat \<lfloor>fl x\<rfloor>) (as_millis (rc_max_delay reconnect_config_default))"
    unfolding x_def
    by (rule backoff_eq) (use assms in \<open>simp_all add: reconnect_config_default_def fround_three_halves as_millis_def\<close>)
  ultimately show ?thesis
    by (simp add: reconnect_config_default_def as_millis_def next_delay_def reconnect_new_def)
qed

theorem default_backoff_exact_witness:
  "as_millis (backoff reconnect_config_default (millis 225)) = 337"
  using default_backoff_exact [of "millis 225" reconnect_config_default] by (simp add: as_millis_def)

end
