(* ===== verification/Metrics.thy ===== *)
theory Metrics
  imports F64 Errors
begin

text \<open>
  \<^verbatim>\<open>src/src/metrics.rs\<close>: counters, the window of latencies, percentiles and their formatting.
  Counters are 64-bit words; \<open>ck\<close> tells whether the build checks overflow.
\<close>

section \<open>The collector\<close>

record metrics =
  active_connections :: u64
  total_connections :: u64
  disconnections :: u64
  connection_errors :: u64
  reconnections :: u64
  messages_sent :: u64
  messages_received :: u64
  bytes_sent :: u64
  bytes_received :: u64
  send_errors :: u64
  receive_errors :: u64
  latencies :: "u64 list"
  connection_duration :: duration
  last_activity :: "instant option"

definition metrics_new :: metrics where
  "metrics_new =
     \<lparr>active_connections = 0, total_connections = 0, disconnections = 0, connection_errors = 0,
      reconnections = 0, messages_sent = 0, messages_received = 0, bytes_sent = 0, bytes_received = 0,
      send_errors = 0, receive_errors = 0, latencies = [], connection_duration = 0, last_activity = None\<rparr>"

definition touch :: "instant \<Rightarrow> (metrics, unit) op" where
  "touch now = op_update (\<lambda>m. m\<lparr>last_activity := Some now\<rparr>)"

definition record_connection :: "bool \<Rightarrow> instant \<Rightarrow> (metrics, unit) op" where
  "record_connection ck now =
     op_then (op_add ck active_connections active_connections_update 1) (\<lambda>_.
     op_then (op_add ck total_connections total_connections_update 1) (\<lambda>_. touch now))"

definition record_disconnection :: "bool \<Rightarrow> instant \<Rightarrow> (metrics, unit) op" where
  "record_disconnection ck now =
     op_then (op_update (\<lambda>m. m\<lparr>active_connections := sat_sub (active_connections m) 1\<rparr>)) (\<lambda>_.
     op_then (op_add ck disconnections disconnections_update 1) (\<lambda>_. touch now))"

definition record_connection_error :: "bool \<Rightarrow> (metrics, unit) op" where
  "record_connection_error ck = op_add ck connection_errors connection_errors_update 1"

definition record_reconnection :: "bool \<Rightarrow> (metrics, unit) op" where
  "record_reconnection ck = op_add ck reconnections reconnections_update 1"

definition record_message_sent :: "bool \<Rightarrow> instant \<Rightarrow> u64 \<Rightarrow> (metrics, unit) op" where
  "record_message_sent ck now sz =
     op_then (op_add ck messages_sent messages_sent_update 1) (\<lambda>_.
     op_then (op_add ck bytes_sent bytes_sent_update sz) (\<lambda>_. touch now))"

definition record_message_received :: "bool \<Rightarrow> instant \<Rightarrow> u64 \<Rightarrow> (metrics, unit) op" where
  "record_message_received ck now sz =
     op_then (op_add ck messages_received messages_received_update 1) (\<lambda>_.
     op_then (op_add ck bytes_received bytes_received_update sz) (\<lambda>_. touch now))"

definition record_send_error :: "bool \<Rightarrow> (metrics, unit) op" where
  "record_send_error ck = op_add ck send_errors send_errors_update 1"

definition record_receive_error :: "bool \<Rightarrow> (metrics, unit) op" where
  "record_receive_error ck = op_add ck receive_errors receive_errors_update 1"

text \<open>\<^verbatim>\<open>as_micros() as u64\<close> keeps the low 64 bits.\<close>

definition record_latency :: "duration \<Rightarrow> metrics \<Rightarrow> metrics" where
  "record_latency d m =
     (let micros = of_nat (d div 1000);
          ls = latencies m @ [micros]
      in m\<lparr>latencies := (if 1000 < length ls then tl ls else ls)\<rparr>)"

definition message_stats :: "metrics \<Rightarrow> u64 \<times> u64" where
  "message_stats m = (messages_sent m, messages_received m)"

definition byte_stats :: "metrics \<Rightarrow> u64 \<times> u64" where
  "byte_stats m = (bytes_sent m, bytes_received m)"

record percentiles =
  p50 :: u64
  p95 :: u64
  p99 :: u64
  p999 :: u64

definition latency_percentiles :: "metrics \<Rightarrow> percentiles" where
  "latency_percentiles m =
     (if latencies m = [] then \<lparr>p50 = 0, p95 = 0, p99 = 0, p999 = 0\<rparr>
      else
        (let sorted = sort (latencies m); len = length sorted in
         \<lparr>p50 = sorted ! (len * 50 div 100),
          p95 = sorted ! (len * 95 div 100),
          p99 = sorted ! (len * 99 div 100),
          p999 = sorted ! ((len - 1) * 999 div 1000)\<rparr>))"

definition is_idle :: "instant \<Rightarrow> duration \<Rightarrow> metrics \<Rightarrow> bool" where
  "is_idle now timeout m \<longleftrightarrow>
     (case last_activity m of Some t \<Rightarrow> elapsed now t > timeout | None \<Rightarrow> False)"

definition error_counts :: "metrics \<Rightarrow> u64 \<times> u64 \<times> u64" where
  "error_counts m = (connection_errors m, send_errors m, receive_errors m)"

definition snapshot :: "metrics \<Rightarrow> (rstr, u64) hmap" where
  "snapshot m =
     fold (\<lambda>(name, v). hm_insert name v)
       [(lit ''active_connections'', active_connections m),
        (lit ''total_connections'', total_connections m),
        (lit ''disconnections'', disconnections m),
        (lit ''connection_errors'', connection_errors m),
        (lit ''reconnections'', reconnections m),
        (lit ''messages_sent'', messages_sent m),
        (lit ''messages_received'', messages_received m),
        (lit ''bytes_sent'', bytes_sent m),
        (lit ''bytes_received'', bytes_received m),
        (lit ''send_errors'', send_errors m),
        (lit ''receive_errors'', receive_errors m)] hm_empty"

definition metrics_reset :: "metrics \<Rightarrow> metrics" where
  "metrics_reset m = metrics_new"

text \<open>The readers, each one critical section.\<close>

definition read_active_connections :: "metrics \<Rightarrow> u64" where
  "read_active_connections m = active_connections m"

definition read_total_connections :: "metrics \<Rightarrow> u64" where
  "read_total_connections m = total_connections m"

definition read_messages_sent :: "metrics \<Rightarrow> u64" where
  "read_messages_sent m = messages_sent m"

definition read_messages_received :: "metrics \<Rightarrow> u64" where
  "read_messages_received m = messages_received m"

definition read_bytes_sent :: "metrics \<Rightarrow> u64" where
  "read_bytes_sent m = bytes_sent m"

definition read_bytes_received :: "metrics \<Rightarrow> u64" where
  "read_bytes_received m = bytes_received m"

definition read_last_activity :: "metrics \<Rightarrow> instant option" where
  "read_last_activity m = last_activity m"

definition metrics_default :: metrics where
  "metrics_default = metrics_new"

section \<open>Formatting\<close>

text \<open>\<^verbatim>\<open>{:.2}\<close> of a non-negative double: its exact value rounded to hundredths.\<close>

definition show_fixed2 :: "f64 \<Rightarrow> rstr" where
  "show_fixed2 x =
     (case x of
        Fin r \<Rightarrow>
          (let n = nat (round_even (r * 100)) in
           show_nat (n div 100) @ [46, 48 + n mod 100 div 10, 48 + n mod 10])
      | NaN \<Rightarrow> lit ''NaN''
      | PInf \<Rightarrow> lit ''inf''
      | NInf \<Rightarrow> lit ''-inf'')"

definition format_percentile :: "percentiles \<Rightarrow> rstr \<Rightarrow> rstr" where
  "format_percentile p name =
     (let micros =
            (if name = lit ''p50'' then p50 p
             else if name = lit ''p95'' then p95 p
             else if name = lit ''p99'' then p99 p
             else if name = lit ''p999'' then p999 p
             else p50 p)
      in
        if micros < 1000 then show_nat (unat micros) @ [0xB5, 115]
        else if micros < 1000000 then show_fixed2 (f64_div (f64_of_u64 micros) (f64_lit 1000)) @ lit ''ms''
        else show_fixed2 (f64_div (f64_of_u64 micros) (f64_lit 1000000)) @ lit ''s'')"

section \<open>The window of latencies\<close>

definition last_thousand :: "'a list \<Rightarrow> 'a list" where
  "last_thousand xs = drop (length xs - 1000) xs"

lemma last_thousand_snoc:
  "last_thousand (xs @ [x]) =
     (if length xs < 1000 then xs @ [x] else tl (last_thousand xs @ [x]))"
proof (cases "length xs < 1000")
  case False
  then have "Suc (length xs) - 1000 = Suc (length xs - 1000)" and "last_thousand xs \<noteq> []"
    by (auto simp: last_thousand_def)
  with False show ?thesis
    by (simp add: last_thousand_def drop_Suc tl_drop Suc_diff_le)
qed (simp add: last_thousand_def)

lemma latencies_window:
  "latencies (fold record_latency ds metrics_new) = last_thousand (map (\<lambda>d. of_nat (d div 1000)) ds)"
proof (induction ds rule: rev_induct)
  case Nil
  then show ?case by (simp add: metrics_new_def last_thousand_def)
next
  case (snoc d ds)
  let ?w = "map (\<lambda>d. of_nat (d div 1000) :: u64) ds"
  have "length (last_thousand ?w) = min (length ds) 1000"
    by (simp add: last_thousand_def)
  moreover have "last_thousand ?w = ?w" if "length ds < 1000"
    using that by (simp add: last_thousand_def)
  ultimately show ?case
    using snoc by (simp add: record_latency_def Let_def last_thousand_snoc)
qed

section \<open>Ranks\<close>

text \<open>The element at index \<open>i\<close> of the sorted list has more than \<open>i\<close> values at most it and at
  least \<open>n - i\<close> values at least it.\<close>

definition rank_ok :: "'a::linorder list \<Rightarrow> nat \<Rightarrow> 'a \<Rightarrow> bool" where
  "rank_ok xs i v \<longleftrightarrow>
     v \<in> set xs \<and> i < length (filter (\<lambda>x. x \<le> v) xs) \<and> length xs - i \<le> length (filter (\<lambda>x. v \<le> x) xs)"

lemma length_filter_sort: "length (filter P (sort xs)) = length (filter P xs)"
  by (simp add: filter_sort)

lemma rank_sorted:
  assumes "i < length xs"
  shows "rank_ok xs i (sort xs ! i)"
proof -
  let ?s = "sort xs" and ?v = "sort xs ! i"
  have len: "i < length ?s" using assms by simp
  have "filter (\<lambda>x. x \<le> ?v) (take (Suc i) ?s) = take (Suc i) ?s"
    using len sorted_nth_mono [OF sorted_sort, of _ i xs]
    by (auto simp: filter_id_conv in_set_conv_nth)
  then have "Suc i \<le> length (filter (\<lambda>x. x \<le> ?v) ?s)"
    using len append_take_drop_id [of "Suc i" ?s]
    by (metis filter_append length_append length_take le_add1 min_absorb2 Suc_leI)
  moreover have "filter (\<lambda>x. ?v \<le> x) (drop i ?s) = drop i ?s"
    using len sorted_nth_mono [OF sorted_sort, of i _ xs]
    by (auto simp: filter_id_conv in_set_conv_nth)
  then have "length ?s - i \<le> length (filter (\<lambda>x. ?v \<le> x) ?s)"
    using append_take_drop_id [of i ?s]
    by (metis filter_append length_append length_drop le_add2)
  moreover have "?v \<in> set xs" using len by (metis nth_mem set_sort)
  ultimately show ?thesis
    by (simp add: rank_ok_def length_filter_sort)
qed

section \<open>Traces of events\<close>

datatype metric_event =
    Connected instant
  | Disconnected instant
  | ConnectionError
  | Reconnected
  | MessageSent instant u64
  | MessageReceived instant u64
  | SendError
  | ReceiveError
  | Latency duration

fun metrics_step :: "bool \<Rightarrow> metric_event \<Rightarrow> metrics \<Rightarrow> metrics" where
  "metrics_step ck (Connected t) m = fst (record_connection ck t m)"
| "metrics_step ck (Disconnected t) m = fst (record_disconnection ck t m)"
| "metrics_step ck ConnectionError m = fst (record_connection_error ck m)"
| "metrics_step ck Reconnected m = fst (record_reconnection ck m)"
| "metrics_step ck (MessageSent t n) m = fst (record_message_sent ck t n m)"
| "metrics_step ck (MessageReceived t n) m = fst (record_message_received ck t n m)"
| "metrics_step ck SendError m = fst (record_send_error ck m)"
| "metrics_step ck ReceiveError m = fst (record_receive_error ck m)"
| "metrics_step ck (Latency d) m = record_latency d m"

text \<open>The specification: what a trace adds to each counter, as plain numbers.\<close>

definition count_events :: "(metric_event \<Rightarrow> nat) \<Rightarrow> metric_event list \<Rightarrow> nat" where
  "count_events w es = sum_list (map w es)"

definition is_conn :: "metric_event \<Rightarrow> nat" where
  "is_conn e = (case e of Connected _ \<Rightarrow> 1 | _ \<Rightarrow> 0)"
definition is_disc :: "metric_event \<Rightarrow> nat" where
  "is_disc e = (case e of Disconnected _ \<Rightarrow> 1 | _ \<Rightarrow> 0)"
definition sent_one :: "metric_event \<Rightarrow> nat" where
  "sent_one e = (case e of MessageSent _ _ \<Rightarrow> 1 | _ \<Rightarrow> 0)"
definition sent_bytes :: "metric_event \<Rightarrow> nat" where
  "sent_bytes e = (case e of MessageSent _ n \<Rightarrow> unat n | _ \<Rightarrow> 0)"
definition received_one :: "metric_event \<Rightarrow> nat" where
  "received_one e = (case e of MessageReceived _ _ \<Rightarrow> 1 | _ \<Rightarrow> 0)"
definition received_bytes :: "metric_event \<Rightarrow> nat" where
  "received_bytes e = (case e of MessageReceived _ n \<Rightarrow> unat n | _ \<Rightarrow> 0)"

lemmas event_weights = is_conn_def is_disc_def sent_one_def sent_bytes_def received_one_def received_bytes_def

fun active_after :: "metric_event \<Rightarrow> nat \<Rightarrow> nat" where
  "active_after (Connected _) n = n + 1"
| "active_after (Disconnected _) n = n - 1"
| "active_after _ n = n"

lemmas metrics_ops = record_connection_def record_disconnection_def record_connection_error_def
  record_reconnection_def record_message_sent_def record_message_received_def record_send_error_def
  record_receive_error_def touch_def

lemma op_add_release: "op_add False get upd n m = (upd (\<lambda>_. get m + n) m, Ret ())"
  by (simp add: op_add_def add_ck_release)

lemma metrics_step_release:
  "total_connections (metrics_step False e m) = total_connections m + of_nat (is_conn e)"
  "disconnections (metrics_step False e m) = disconnections m + of_nat (is_disc e)"
  "messages_sent (metrics_step False e m) = messages_sent m + of_nat (sent_one e)"
  "bytes_sent (metrics_step False e m) = bytes_sent m + of_nat (sent_bytes e)"
  "messages_received (metrics_step False e m) = messages_received m + of_nat (received_one e)"
  "bytes_received (metrics_step False e m) = bytes_received m + of_nat (received_bytes e)"
  "active_connections (metrics_step False e m) =
     (case e of Connected _ \<Rightarrow> active_connections m + 1
              | Disconnected _ \<Rightarrow> sat_sub (active_connections m) 1 | _ \<Rightarrow> active_connections m)"
  by (cases e; simp add: metrics_ops op_then_def op_update_def op_add_release event_weights
      record_latency_def Let_def)+

lemma count_events_simps [simp]:
  "count_events w [] = 0" "count_events w (e # es) = w e + count_events w es"
  by (simp_all add: count_events_def)

lemma fold_counter:
  fixes c :: "metrics \<Rightarrow> u64"
  assumes "\<And>e m. c (metrics_step False e m) = c m + of_nat (w e)" and "c metrics_new = 0"
  shows "c (fold (metrics_step False) es metrics_new) = of_nat (count_events w es)"
proof -
  have "c (fold (metrics_step False) es m) = c m + of_nat (count_events w es)" for m
    by (induction es arbitrary: m) (simp_all add: assms(1) add.assoc)
  with assms(2) show ?thesis by simp
qed

lemma active_after_bound: "active_after e n \<le> n + 1"
  by (cases e) simp_all

lemma fold_active:
  "unat (active_connections m) + length es < 2 ^ 64 \<Longrightarrow>
     unat (active_connections (fold (metrics_step False) es m)) = fold active_after es (unat (active_connections m))"
proof (induction es arbitrary: m)
  case (Cons e es)
  have "unat (active_connections (metrics_step False e m)) = active_after e (unat (active_connections m))"
    unfolding metrics_step_release(7)
    using Cons.prems by (cases e) (simp_all add: unat_add_fits unat_sat_sub)
  moreover have "active_after e (unat (active_connections m)) + length es < 2 ^ 64"
    using Cons.prems active_after_bound [of e "unat (active_connections m)"] by simp
  ultimately show ?case using Cons.IH [of "metrics_step False e m"] by simp
qed simp

section \<open>Properties\<close>

text \<open>C34: In a release build the counters after any trace of events are the numbers of events and the
  sums of bytes modulo 2^64, and (for fewer than 2^64 events) the active connections are the
  connections minus the disconnections, never below zero.\<close>

theorem metrics_counters:
  defines "m es \<equiv> fold (metrics_step False) es metrics_new"
  shows "message_stats (m es) = (of_nat (count_events sent_one es), of_nat (count_events received_one es)) \<and>
         byte_stats (m es) = (of_nat (count_events sent_bytes es), of_nat (count_events received_bytes es)) \<and>
         total_connections (m es) = of_nat (count_events is_conn es) \<and>
         disconnections (m es) = of_nat (count_events is_disc es) \<and>
         (length es < 2 ^ 64 \<longrightarrow> unat (active_connections (m es)) = fold active_after es 0)"
proof (intro conjI impI)
  have z: "messages_sent metrics_new = 0" "messages_received metrics_new = 0" "bytes_sent metrics_new = 0"
    "bytes_received metrics_new = 0" "total_connections metrics_new = 0" "disconnections metrics_new = 0"
    "active_connections metrics_new = 0"
    by (simp_all add: metrics_new_def)
  show "message_stats (m es) = (of_nat (count_events sent_one es), of_nat (count_events received_one es))"
    by (simp add: m_def message_stats_def fold_counter [OF metrics_step_release(3) z(1)]
        fold_counter [OF metrics_step_release(5) z(2)])
  show "byte_stats (m es) = (of_nat (count_events sent_bytes es), of_nat (count_events received_bytes es))"
    by (simp add: m_def byte_stats_def fold_counter [OF metrics_step_release(4) z(3)]
        fold_counter [OF metrics_step_release(6) z(4)])
  show "total_connections (m es) = of_nat (count_events is_conn es)"
    by (simp add: m_def fold_counter [OF metrics_step_release(1) z(5)])
  show "disconnections (m es) = of_nat (count_events is_disc es)"
    by (simp add: m_def fold_counter [OF metrics_step_release(2) z(6)])
  show "unat (active_connections (m es)) = fold active_after es 0" if "length es < 2 ^ 64"
    using fold_active [of metrics_new es] that by (simp add: m_def z)
qed

theorem metrics_counters_witness:
  "unat (active_connections (fold (metrics_step False) [Disconnected 1, Connected 2] metrics_new)) = 1"
  using metrics_counters [of "[Disconnected 1, Connected 2]"] by simp

text \<open>The percentiles are taken over the last thousand latencies: every index is in range, each
  value is a recorded latency of its rank, and the median, the 95th and the 99th are in order.\<close>

theorem percentiles_ranked:
  assumes "ds \<noteq> []"
  shows "let w = last_thousand (map (\<lambda>d. of_nat (d div 1000)) ds); n = length w;
             p = latency_percentiles (fold record_latency ds metrics_new)
         in rank_ok w (n * 50 div 100) (p50 p) \<and> rank_ok w (n * 95 div 100) (p95 p) \<and>
            rank_ok w (n * 99 div 100) (p99 p) \<and> rank_ok w ((n - 1) * 999 div 1000) (p999 p) \<and>
            p50 p \<le> p95 p \<and> p95 p \<le> p99 p \<and> n = min (length ds) 1000"
proof -
  define w where "w = last_thousand (map (\<lambda>d. of_nat (d div 1000) :: u64) ds)"
  have n: "length w = min (length ds) 1000" "0 < length w"
    using assms by (simp_all add: w_def last_thousand_def)
  have "w \<noteq> []" using n(2) by auto
  then have p: "latency_percentiles (fold record_latency ds metrics_new) =
      \<lparr>p50 = sort w ! (length w * 50 div 100), p95 = sort w ! (length w * 95 div 100),
       p99 = sort w ! (length w * 99 div 100), p999 = sort w ! ((length w - 1) * 999 div 1000)\<rparr>"
    by (simp add: latency_percentiles_def latencies_window Let_def flip: w_def)
  have idx: "length w * 50 div 100 < length w" "length w * 95 div 100 < length w"
    "length w * 99 div 100 < length w" "(length w - 1) * 999 div 1000 < length w"
    "length w * 50 div 100 \<le> length w * 95 div 100" "length w * 95 div 100 \<le> length w * 99 div 100"
    using n(2) by linarith+
  then have "sort w ! (length w * 50 div 100) \<le> sort w ! (length w * 95 div 100)"
    "sort w ! (length w * 95 div 100) \<le> sort w ! (length w * 99 div 100)"
    by (intro sorted_nth_mono; simp)+
  then show ?thesis
    unfolding w_def [symmetric] Let_def p
    using rank_sorted [OF idx(1)] rank_sorted [OF idx(2)] rank_sorted [OF idx(3)] rank_sorted [OF idx(4)] n(1)
    by (simp only: percentiles.simps simp_thms)
qed

theorem percentiles_ranked_witness:
  "rank_ok [7, 9] 1 (p50 (latency_percentiles (fold record_latency [7000, 9000] metrics_new)))"
  using percentiles_ranked [of "[7000, 9000]"] by (simp add: Let_def last_thousand_def)

text \<open>The 99.9th percentile is the second largest latency as soon as there are two; for up to a
  hundred latencies it is therefore at most the 99th, which is then the largest.\<close>

theorem p999_below_p99:
  assumes "latencies m = ls" and "2 \<le> length ls" and "length ls \<le> 1000"
  shows "p999 (latency_percentiles m) = sort ls ! (length ls - 2) \<and>
         (length ls \<le> 100 \<longrightarrow>
            p99 (latency_percentiles m) = sort ls ! (length ls - 1) \<and>
            p999 (latency_percentiles m) \<le> p99 (latency_percentiles m))"
proof -
  have ne: "ls \<noteq> []" using assms(2) by auto
  obtain k where k: "length ls = Suc (Suc k)" using assms(2) by (metis add_2_eq_Suc le_Suc_ex)
  have "(k + 1) * 999 div 1000 = k"
    by (rule div_nat_eqI) (use assms(3) k in simp_all)
  then have i: "(length ls - 1) * 999 div 1000 = length ls - 2" by (simp add: k)
  have j: "length ls * 99 div 100 = length ls - 1" if "length ls \<le> 100"
    by (rule div_nat_eqI) (use that assms(2) in simp_all)
  have "sort ls ! (length ls - 2) \<le> sort ls ! (length ls - 1)"
    using assms(2) by (intro sorted_nth_mono) simp_all
  then show ?thesis
    using ne i j by (simp add: latency_percentiles_def assms(1) Let_def)
qed

theorem p999_below_p99_witness:
  "p999 (latency_percentiles (metrics_new\<lparr>latencies := [5, 9]\<rparr>)) = 5 \<and>
   p99 (latency_percentiles (metrics_new\<lparr>latencies := [5, 9]\<rparr>)) = 9"
  using p999_below_p99 [of "metrics_new\<lparr>latencies := [5, 9]\<rparr>" "[5, 9]"]
  by (simp add: insort_key.simps word_le_nat_alt)

end
