(* ===== verification/Compression.thy ===== *)
theory Compression
  imports F64 Errors
begin

text \<open>
  \<^verbatim>\<open>src/src/compression.rs\<close>: the compression configuration, compressor, decompressor and the
  extension header. The \<^verbatim>\<open>flate2\<close> encoder and decoder are a record of functions; \<open>ul\<close> is the
  lower casing of strings that are not ASCII.
\<close>

section \<open>Configuration\<close>

definition DEFAULT_COMPRESSION_THRESHOLD :: nat where "DEFAULT_COMPRESSION_THRESHOLD = 1024"
definition DEFAULT_COMPRESSION_LEVEL :: u8 where "DEFAULT_COMPRESSION_LEVEL = 6"
definition MAX_COMPRESSION_LEVEL :: u8 where "MAX_COMPRESSION_LEVEL = 9"
definition MIN_COMPRESSION_LEVEL :: u8 where "MIN_COMPRESSION_LEVEL = 0"

record compression_config =
  cc_enabled :: bool
  cc_level :: u8
  cc_threshold :: nat
  cc_server_max_window_bits :: u8
  cc_client_max_window_bits :: u8
  cc_server_no_context_takeover :: bool
  cc_client_no_context_takeover :: bool

definition compression_config_default :: compression_config where
  "compression_config_default =
     \<lparr>cc_enabled = True, cc_level = DEFAULT_COMPRESSION_LEVEL, cc_threshold = DEFAULT_COMPRESSION_THRESHOLD,
      cc_server_max_window_bits = 15, cc_client_max_window_bits = 15,
      cc_server_no_context_takeover = False, cc_client_no_context_takeover = False\<rparr>"

definition compression_config_disabled :: compression_config where
  "compression_config_disabled = compression_config_default\<lparr>cc_enabled := False\<rparr>"

definition with_level :: "u8 \<Rightarrow> compression_config \<Rightarrow> compression_config outcome" where
  "with_level l c = (if l \<le> MAX_COMPRESSION_LEVEL then Ret (c\<lparr>cc_level := l\<rparr>) else Panic)"

definition with_threshold :: "nat \<Rightarrow> compression_config \<Rightarrow> compression_config" where
  "with_threshold n c = c\<lparr>cc_threshold := n\<rparr>"

definition window_bits_ok :: "u8 \<Rightarrow> bool" where
  "window_bits_ok b \<longleftrightarrow> 8 \<le> b \<and> b \<le> 15"

definition with_server_max_window_bits :: "u8 \<Rightarrow> compression_config \<Rightarrow> compression_config outcome" where
  "with_server_max_window_bits b c =
     (if window_bits_ok b then Ret (c\<lparr>cc_server_max_window_bits := b\<rparr>) else Panic)"

definition with_client_max_window_bits :: "u8 \<Rightarrow> compression_config \<Rightarrow> compression_config outcome" where
  "with_client_max_window_bits b c =
     (if window_bits_ok b then Ret (c\<lparr>cc_client_max_window_bits := b\<rparr>) else Panic)"

definition with_server_no_context_takeover :: "bool \<Rightarrow> compression_config \<Rightarrow> compression_config" where
  "with_server_no_context_takeover e c = c\<lparr>cc_server_no_context_takeover := e\<rparr>"

definition with_client_no_context_takeover :: "bool \<Rightarrow> compression_config \<Rightarrow> compression_config" where
  "with_client_no_context_takeover e c = c\<lparr>cc_client_no_context_takeover := e\<rparr>"

section \<open>Compressor and decompressor\<close>

text \<open>\<open>z_write\<close> is the error of \<^verbatim>\<open>write_all\<close>, if any; \<open>z_finish\<close> the answer of \<^verbatim>\<open>finish\<close> and
  \<open>z_read\<close> that of the decoder's \<^verbatim>\<open>read_to_end\<close>, with rendered errors on the left.\<close>

record zlib =
  z_write :: "u8 \<Rightarrow> bytes \<Rightarrow> rstr option"
  z_finish :: "u8 \<Rightarrow> bytes \<Rightarrow> rstr + bytes"
  z_read :: "bytes \<Rightarrow> rstr + bytes"

record compressor =
  cm_config :: compression_config
  cm_total_in :: u64
  cm_total_out :: u64

definition compressor_new :: "compression_config \<Rightarrow> compressor result" where
  "compressor_new c =
     (if \<not> cc_enabled c then Err (NotSupported (lit ''Compression is disabled''))
      else Ok \<lparr>cm_config = c, cm_total_in = 0, cm_total_out = 0\<rparr>)"

definition compressor_with_level :: "u8 \<Rightarrow> compressor result outcome" where
  "compressor_with_level l =
     bind_outcome (with_level l compression_config_default) (\<lambda>c. Ret (compressor_new c))"

definition compress :: "bool \<Rightarrow> zlib \<Rightarrow> bytes \<Rightarrow> (compressor, bytes result) op" where
  "compress ck z b c =
     (if length b < cc_threshold (cm_config c) then (c, Ret (Ok b))
      else
        (case z_write z (cc_level (cm_config c)) b of
           Some e \<Rightarrow> (c, Ret (Err (InvalidFrame (lit ''Compression failed: '' @ e))))
         | None \<Rightarrow>
             (case z_finish z (cc_level (cm_config c)) b of
                Inl e \<Rightarrow> (c, Ret (Err (InvalidFrame (lit ''Compression finish failed: '' @ e))))
              | Inr out \<Rightarrow>
                  op_then (op_add ck cm_total_in cm_total_in_update (of_nat (length b))) (\<lambda>_.
                  op_then (op_add ck cm_total_out cm_total_out_update (of_nat (length out))) (\<lambda>_.
                  op_return (if length b \<le> length out then Ok b else Ok out))) c)))"

definition compressor_reset :: "compressor \<Rightarrow> compressor" where
  "compressor_reset c = c\<lparr>cm_total_in := 0, cm_total_out := 0\<rparr>"

definition compression_ratio :: "compressor \<Rightarrow> f64" where
  "compression_ratio c =
     (if cm_total_in c = 0 then f64_lit 1
      else f64_div (f64_of_u64 (cm_total_out c)) (f64_of_u64 (cm_total_in c)))"

record decompressor =
  dm_total_in :: u64
  dm_total_out :: u64

definition decompressor_new :: decompressor where
  "decompressor_new = \<lparr>dm_total_in = 0, dm_total_out = 0\<rparr>"

definition decompress :: "bool \<Rightarrow> zlib \<Rightarrow> bytes \<Rightarrow> (decompressor, bytes result) op" where
  "decompress ck z b d =
     (case z_read z b of
        Inl e \<Rightarrow> (d, Ret (Err (InvalidFrame (lit ''Decompression failed: '' @ e))))
      | Inr out \<Rightarrow>
          op_then (op_add ck dm_total_in dm_total_in_update (of_nat (length b))) (\<lambda>_.
          op_then (op_add ck dm_total_out dm_total_out_update (of_nat (length out))) (\<lambda>_.
          op_return (Ok out))) d)"

definition decompressor_reset :: "decompressor \<Rightarrow> decompressor" where
  "decompressor_reset d = d\<lparr>dm_total_in := 0, dm_total_out := 0\<rparr>"

definition decompression_ratio :: "decompressor \<Rightarrow> f64" where
  "decompression_ratio d =
     (if dm_total_in d = 0 then f64_lit 1
      else f64_div (f64_of_u64 (dm_total_out d)) (f64_of_u64 (dm_total_in d)))"

definition should_compress :: "compression_config \<Rightarrow> bytes \<Rightarrow> bool" where
  "should_compress c b \<longleftrightarrow> cc_enabled c \<and> cc_threshold c \<le> length b"

definition compression_config_new :: compression_config where
  "compression_config_new = compression_config_default"

definition compressor_total_input :: "compressor \<Rightarrow> u64" where
  "compressor_total_input c = cm_total_in c"

definition compressor_total_output :: "compressor \<Rightarrow> u64" where
  "compressor_total_output c = cm_total_out c"

definition decompressor_total_input :: "decompressor \<Rightarrow> u64" where
  "decompressor_total_input d = dm_total_in d"

definition decompressor_total_output :: "decompressor \<Rightarrow> u64" where
  "decompressor_total_output d = dm_total_out d"

definition decompressor_default :: decompressor where
  "decompressor_default = decompressor_new"

section \<open>The extension header\<close>

definition compression_offer :: "compression_config \<Rightarrow> rstr" where
  "compression_offer c =
     (let params =
            [lit ''permessage-deflate; server_max_window_bits='' @ show_nat (unat (cc_server_max_window_bits c)),
             lit ''client_max_window_bits='' @ show_nat (unat (cc_client_max_window_bits c))];
          params = (if cc_server_no_context_takeover c
                    then params @ [lit ''server_no_context_takeover''] else params);
          params = (if cc_client_no_context_takeover c
                    then params @ [lit ''client_no_context_takeover''] else params)
      in join_with (lit ''; '') params)"

text \<open>The match of the pattern \<^verbatim>\<open>name=(\d+)\<close>: the digits after the leftmost occurrence of the
  literal that a digit follows.\<close>

definition is_digit :: "nat \<Rightarrow> bool" where
  "is_digit c \<longleftrightarrow> 48 \<le> c \<and> c \<le> 57"

fun capture_digits :: "rstr \<Rightarrow> rstr \<Rightarrow> rstr option" where
  "capture_digits pat [] = None"
| "capture_digits pat (c # s) =
     (let digits = takeWhile is_digit (drop (length pat) (c # s)) in
      if take (length pat) (c # s) = pat \<and> digits \<noteq> [] then Some digits else capture_digits pat s)"

text \<open>\<^verbatim>\<open>parse::<u8>\<close> on a string of digits.\<close>

definition parse_u8 :: "rstr \<Rightarrow> u8 option" where
  "parse_u8 ds = (if digits_value ds < 256 then Some (of_nat (digits_value ds)) else None)"

definition parse_window_bits :: "rstr \<Rightarrow> rstr \<Rightarrow> u8 \<Rightarrow> u8" where
  "parse_window_bits pat h old =
     (case capture_digits pat h of
        None \<Rightarrow> old
      | Some ds \<Rightarrow>
          (case parse_u8 ds of None \<Rightarrow> old | Some v \<Rightarrow> if window_bits_ok v then v else old))"

definition parse_compression_response :: "(rstr \<Rightarrow> rstr) \<Rightarrow> rstr \<Rightarrow> compression_config result" where
  "parse_compression_response ul hdr =
     (let h = to_lowercase ul hdr in
      if \<not> str_contains h (lit ''permessage-deflate'') then Ok compression_config_disabled
      else
        (let c = compression_config_default;
             c = c\<lparr>cc_server_max_window_bits :=
                     parse_window_bits (lit ''server_max_window_bits='') h (cc_server_max_window_bits c)\<rparr>;
             c = c\<lparr>cc_client_max_window_bits :=
                     parse_window_bits (lit ''client_max_window_bits='') h (cc_client_max_window_bits c)\<rparr>
         in Ok (c\<lparr>cc_server_no_context_takeover := str_contains h (lit ''server_no_context_takeover''),
                  cc_client_no_context_takeover := str_contains h (lit ''client_no_context_takeover'')\<rparr>)))"

section \<open>Searching\<close>

lemma capture_digits_skip:
  "pat \<noteq> [] \<Longrightarrow> hd pat \<notin> set p \<Longrightarrow> capture_digits pat (p @ s) = capture_digits pat s"
  by (induction p) (cases pat; auto simp: Let_def)+

lemma str_contains_skip:
  "pat \<noteq> [] \<Longrightarrow> hd pat \<notin> set p \<Longrightarrow> str_contains (p @ s) pat = str_contains s pat"
  by (induction p) (cases pat; auto)+

lemma show_nat_no: "48 > c \<or> c > 57 \<Longrightarrow> c \<notin> set (show_nat n)"
  using show_nat_digits [of n] by fastforce

lemma takeWhile_show_nat:
  "s = [] \<or> \<not> is_digit (hd s) \<Longrightarrow> takeWhile is_digit (show_nat n @ s) = show_nat n"
proof -
  have "list_all is_digit (show_nat n)"
    using show_nat_digits [of n] by (auto simp: list_all_iff is_digit_def)
  moreover assume "s = [] \<or> \<not> is_digit (hd s)"
  then have "takeWhile is_digit s = []" by (cases s) auto
  ultimately show ?thesis by (simp add: list_all_iff)
qed

lemma show_nat_not_Nil: "show_nat n \<noteq> []"
  by (simp add: show_nat.simps [of n])

lemma parse_shown_bits: "window_bits_ok b \<Longrightarrow> parse_u8 (show_nat (unat b)) = Some b"
  using unat_less_two_power [of b] by (simp add: parse_u8_def digits_value_show)

text \<open>The tail of an offer after the client's window bits.\<close>

definition offer_flags :: "bool \<Rightarrow> bool \<Rightarrow> rstr" where
  "offer_flags s c =
     (if s then lit ''; server_no_context_takeover'' else []) @
     (if c then lit ''; client_no_context_takeover'' else [])"

lemma compression_offer_eq:
  "compression_offer c =
     lit ''permessage-deflate; '' @ lit ''server_max_window_bits='' @ show_nat (unat (cc_server_max_window_bits c)) @
     lit ''; '' @ lit ''client_max_window_bits='' @ show_nat (unat (cc_client_max_window_bits c)) @
     offer_flags (cc_server_no_context_takeover c) (cc_client_no_context_takeover c)"
  by (simp add: compression_offer_def Let_def offer_flags_def lit_def)

lemma capture_here:
  assumes "s = [] \<or> \<not> is_digit (hd s)" and "pat \<noteq> []"
  shows "capture_digits pat (pat @ show_nat n @ s) = Some (show_nat n)"
proof -
  obtain c q where "pat = c # q" using assms(2) by (cases pat) auto
  then show ?thesis using takeWhile_show_nat [OF assms(1), of n] show_nat_not_Nil [of n] by (simp add: Let_def)
qed

lemma capture_server:
  "capture_digits (lit ''server_max_window_bits='') (compression_offer c) =
     Some (show_nat (unat (cc_server_max_window_bits c)))"
proof -
  let ?rest = "lit ''; '' @ lit ''client_max_window_bits='' @ show_nat (unat (cc_client_max_window_bits c)) @
     offer_flags (cc_server_no_context_takeover c) (cc_client_no_context_takeover c)"
  have "capture_digits (lit ''server_max_window_bits='') (lit ''permessage-deflate; '' @ t) =
      capture_digits (lit ''server_max_window_bits='') t" for t
    by (simp add: lit_def Let_def)
  moreover have "?rest = [] \<or> \<not> is_digit (hd ?rest)" by (simp add: lit_def is_digit_def)
  then have "capture_digits (lit ''server_max_window_bits='')
      (lit ''server_max_window_bits='' @ show_nat (unat (cc_server_max_window_bits c)) @ ?rest) =
      Some (show_nat (unat (cc_server_max_window_bits c)))"
    by (rule capture_here) (simp add: lit_def)
  ultimately show ?thesis by (simp only: compression_offer_eq)
qed

lemma capture_client:
  "capture_digits (lit ''client_max_window_bits='') (compression_offer c) =
     Some (show_nat (unat (cc_client_max_window_bits c)))"
proof -
  let ?flags = "offer_flags (cc_server_no_context_takeover c) (cc_client_no_context_takeover c)"
  let ?pre = "lit ''permessage-deflate; '' @ lit ''server_max_window_bits='' @
    show_nat (unat (cc_server_max_window_bits c)) @ lit ''; ''"
  have "99 \<notin> set ?pre" by (simp add: lit_def show_nat_no)
  then have "capture_digits (lit ''client_max_window_bits='') (?pre @ t) =
      capture_digits (lit ''client_max_window_bits='') t" for t
    by (intro capture_digits_skip) (simp_all add: lit_def)
  moreover have "?flags = [] \<or> \<not> is_digit (hd ?flags)"
    by (auto simp: offer_flags_def lit_def is_digit_def)
  then have "capture_digits (lit ''client_max_window_bits='')
      (lit ''client_max_window_bits='' @ show_nat (unat (cc_client_max_window_bits c)) @ ?flags) =
      Some (show_nat (unat (cc_client_max_window_bits c)))"
    by (rule capture_here) (simp add: lit_def)
  ultimately show ?thesis by (simp only: compression_offer_eq append_assoc)
qed

lemma contains_digits:
  "pat \<noteq> [] \<Longrightarrow> hd pat > 57 \<Longrightarrow> str_contains (show_nat n @ s) pat = str_contains s pat"
  using show_nat_no [of "hd pat" n] by (intro str_contains_skip) simp_all

lemma contains_flag:
  assumes "pat = lit ''server_no_context_takeover'' \<or> pat = lit ''client_no_context_takeover''"
  shows "str_contains (compression_offer c) pat =
     str_contains (offer_flags (cc_server_no_context_takeover c) (cc_client_no_context_takeover c)) pat"
proof -
  have pat: "pat \<noteq> []" "hd pat > 57" using assms by (auto simp: lit_def)
  have "str_contains (lit ''permessage-deflate; '' @ t) pat = str_contains t pat"
    "str_contains (lit ''server_max_window_bits='' @ t) pat = str_contains t pat"
    "str_contains (lit ''; '' @ t) pat = str_contains t pat"
    "str_contains (lit ''client_max_window_bits='' @ t) pat = str_contains t pat" for t
    using assms by (auto simp: lit_def)
  then show ?thesis by (simp only: compression_offer_eq contains_digits [OF pat])
qed

lemma flags_contained:
  "str_contains (offer_flags s c) (lit ''server_no_context_takeover'') = s"
  "str_contains (offer_flags s c) (lit ''client_no_context_takeover'') = c"
  by (cases s; cases c; simp add: offer_flags_def lit_def)+

lemma offer_lowercase: "to_lowercase ul (compression_offer c) = compression_offer c"
proof -
  have "list_all (\<lambda>c. c < 128 \<and> ascii_lower c = c) (show_nat n)" for n
    using show_nat_digits [of n] by (auto simp: list_all_iff ascii_lower_def)
  moreover have "list_all (\<lambda>c. c < 128 \<and> ascii_lower c = c) (offer_flags s d)" for s d
    by (simp add: offer_flags_def lit_def ascii_lower_def)
  moreover have "list_all (\<lambda>c. c < 128 \<and> ascii_lower c = c)
      (lit ''permessage-deflate; '' @ lit ''server_max_window_bits='' @ lit ''; '' @ lit ''client_max_window_bits='')"
    by (simp add: lit_def ascii_lower_def)
  ultimately have "list_all (\<lambda>c. c < 128 \<and> ascii_lower c = c) (compression_offer c)"
    by (simp add: compression_offer_eq)
  then show ?thesis
    by (auto simp: to_lowercase_def list_all_iff intro: map_idI)
qed

lemma offer_names_extension: "str_contains (compression_offer c) (lit ''permessage-deflate'')"
  by (simp add: compression_offer_eq lit_def)

section \<open>Properties\<close>

text \<open>The extension header round trips: parsing the offer of a configuration with valid window bits
  gives back its window bits and its context-takeover flags, with the default level and
  threshold; window bits outside 8..15 are replaced by 15.\<close>

theorem compression_offer_roundtrip:
  "parse_compression_response ul (compression_offer c) =
     Ok (compression_config_default
       \<lparr>cc_server_max_window_bits :=
          (if window_bits_ok (cc_server_max_window_bits c) then cc_server_max_window_bits c else 15),
        cc_client_max_window_bits :=
          (if window_bits_ok (cc_client_max_window_bits c) then cc_client_max_window_bits c else 15),
        cc_server_no_context_takeover := cc_server_no_context_takeover c,
        cc_client_no_context_takeover := cc_client_no_context_takeover c\<rparr>)"
proof -
  have shown: "parse_u8 (show_nat (unat b)) = Some b" for b :: u8
    using unat_less_two_power [of b] by (simp add: parse_u8_def digits_value_show)
  show ?thesis
    by (simp add: parse_compression_response_def offer_lowercase offer_names_extension Let_def
        parse_window_bits_def capture_server capture_client shown contains_flag flags_contained
        compression_config_default_def)
qed

text \<open>What the crate relies on of \<^verbatim>\<open>zlib\<close>: the decoder reverses the encoder.\<close>

definition zlib_ok :: "zlib \<Rightarrow> bool" where
  "zlib_ok z \<longleftrightarrow> (\<forall>l b out. z_finish z l b = Inr out \<longrightarrow> z_read z out = Inr b)"

lemma compress_cases:
  assumes "compress ck z b c = (c', Ret (Ok out))"
  shows "out = b \<or> (z_finish z (cc_level (cm_config c)) b = Inr out \<and> length out < length b)"
  using assms
  by (auto simp: compress_def op_then_def op_return_def op_add_def
      split: if_splits option.splits sum.splits outcome.splits prod.splits)

text \<open>C37: Compression never enlarges a message and loses nothing: what \<^verbatim>\<open>compress\<close> answers is the
  message itself or something shorter from which the decompressor recovers the message.\<close>

theorem compress_decompress:
  assumes "zlib_ok z" and "compress ck z b c = (c', Ret (Ok out))"
    and "unat (dm_total_in d) + length out < 2 ^ 64" and "unat (dm_total_out d) + length b < 2 ^ 64"
  shows "length out \<le> length b \<and>
         (out = b \<or> (length out < length b \<and> snd (decompress ck z out d) = Ret (Ok b)))"
proof (cases "out = b")
  case False
  with compress_cases [OF assms(2)] have
    f: "z_finish z (cc_level (cm_config c)) b = Inr out" "length out < length b" by auto
  with assms(1) have r: "z_read z out = Inr b" by (auto simp: zlib_ok_def)
  have "unat (of_nat (length out) :: u64) = length out" "unat (of_nat (length b) :: u64) = length b"
    using assms(3,4) by (simp_all add: unat_of_nat)
  then have "snd (decompress ck z out d) = Ret (Ok b)"
    using assms(3,4) by (simp add: decompress_def r op_then_def op_return_def op_add_fits)
  with f(2) show ?thesis by simp
qed simp

definition run_length_zlib :: zlib where
  "run_length_zlib =
     \<lparr>z_write = (\<lambda>l b. None),
      z_finish = (\<lambda>l b. if b = replicate 2000 7 then Inr [1] else Inr (0 # b)),
      z_read = (\<lambda>b. case b of [] \<Rightarrow> Inl [] | x # r \<Rightarrow> if x = 0 then Inr r else Inr (replicate 2000 7))\<rparr>"

theorem compress_decompress_witness:
  "snd (decompress True run_length_zlib [1] decompressor_new) = Ret (Ok (replicate 2000 7))"
proof -
  let ?c = "\<lparr>cm_config = compression_config_default, cm_total_in = 0, cm_total_out = 0\<rparr>"
  have "zlib_ok run_length_zlib"
    by (simp add: zlib_ok_def run_length_zlib_def)
  moreover have "compress True run_length_zlib (replicate 2000 7) ?c =
      (?c\<lparr>cm_total_in := 2000, cm_total_out := 1\<rparr>, Ret (Ok [1]))"
    by (simp add: compress_def run_length_zlib_def compression_config_default_def
        DEFAULT_COMPRESSION_THRESHOLD_def op_then_def op_return_def op_add_def add_ck_def)
  moreover have "length [1 :: u8] \<noteq> length (replicate 2000 (7 :: u8))" by simp
  then have "[1 :: u8] \<noteq> replicate 2000 7" by metis
  ultimately show ?thesis
    using compress_decompress [of run_length_zlib True "replicate 2000 7" ?c
        "?c\<lparr>cm_total_in := 2000, cm_total_out := 1\<rparr>" "[1]" decompressor_new]
    by (simp add: decompressor_new_def)
qed

text \<open>The answer of \<^verbatim>\<open>compress\<close> does not say whether it is compressed: a message below the
  threshold is answered as it is, so that a message and the compression of another can be
  answered by the same bytes.\<close>

theorem compress_ambiguous:
  assumes "z_write z (cc_level (cm_config c)) b = None" and "z_finish z (cc_level (cm_config c)) b = Inr out"
    and "cc_threshold (cm_config c) \<le> length b" and "length out < cc_threshold (cm_config c)"
  shows "snd (compress False z out c) = Ret (Ok out) \<and> snd (compress False z b c) = Ret (Ok out)"
  using assms
  by (simp add: compress_def op_then_def op_return_def op_add_def add_ck_def)

theorem compress_ambiguous_witness:
  "snd (compress False run_length_zlib [1] \<lparr>cm_config = compression_config_default, cm_total_in = 0, cm_total_out = 0\<rparr>) =
   snd (compress False run_length_zlib (replicate 2000 7)
     \<lparr>cm_config = compression_config_default, cm_total_in = 0, cm_total_out = 0\<rparr>)"
  using compress_ambiguous [of run_length_zlib
      "\<lparr>cm_config = compression_config_default, cm_total_in = 0, cm_total_out = 0\<rparr>" "replicate 2000 7" "[1]"]
  by (simp add: run_length_zlib_def compression_config_default_def DEFAULT_COMPRESSION_THRESHOLD_def)

end
