(* ===== verification/Config.thy ===== *)
theory Config
  imports Settings Compression Subprotocol Headers RateLimit
begin

text \<open>
  \<^verbatim>\<open>src/src/config.rs\<close>: the client and server configurations and their builders. A builder
  that can fail inside (subprotocols, headers) swallows the error as the code does.
\<close>

section \<open>Client configuration\<close>

record client_config =
  cl_url :: rstr
  cl_max_message_size :: nat
  cl_auto_reconnect :: bool
  cl_reconnect_config :: reconnect_config
  cl_heartbeat_config :: heartbeat_config
  cl_backpressure_config :: backpressure_config
  cl_compression_config :: compression_config
  cl_rate_limit_config :: rate_limit_config
  cl_connection_timeout :: duration
  cl_subprotocols :: subprotocol_list
  cl_headers :: header_map

definition client_config_new :: "rstr \<Rightarrow> client_config" where
  "client_config_new url =
     \<lparr>cl_url = url, cl_max_message_size = DEFAULT_MAX_MESSAGE_SIZE, cl_auto_reconnect = True,
      cl_reconnect_config = reconnect_config_default, cl_heartbeat_config = heartbeat_config_default,
      cl_backpressure_config = backpressure_config_default,
      cl_compression_config = compression_config_default,
      cl_rate_limit_config = rate_limit_config_default,
      cl_connection_timeout = secs DEFAULT_CONNECTION_TIMEOUT,
      cl_subprotocols = subprotocol_list_new, cl_headers = header_map_new\<rparr>"

definition client_with_max_message_size :: "nat \<Rightarrow> client_config \<Rightarrow> client_config" where
  "client_with_max_message_size x c = c\<lparr>cl_max_message_size := x\<rparr>"

definition client_with_auto_reconnect :: "bool \<Rightarrow> client_config \<Rightarrow> client_config" where
  "client_with_auto_reconnect x c = c\<lparr>cl_auto_reconnect := x\<rparr>"

definition client_with_reconnect_config :: "reconnect_config \<Rightarrow> client_config \<Rightarrow> client_config" where
  "client_with_reconnect_config x c = c\<lparr>cl_reconnect_config := x\<rparr>"

definition client_with_heartbeat_config :: "heartbeat_config \<Rightarrow> client_config \<Rightarrow> client_config" where
  "client_with_heartbeat_config x c = c\<lparr>cl_heartbeat_config := x\<rparr>"

definition client_with_backpressure_config :: "backpressure_config \<Rightarrow> client_config \<Rightarrow> client_config" where
  "client_with_backpressure_config x c = c\<lparr>cl_backpressure_config := x\<rparr>"

definition client_with_connection_timeout :: "duration \<Rightarrow> client_config \<Rightarrow> client_config" where
  "client_with_connection_timeout x c = c\<lparr>cl_connection_timeout := x\<rparr>"

definition client_with_compression_config :: "compression_config \<Rightarrow> client_config \<Rightarrow> client_config" where
  "client_with_compression_config x c = c\<lparr>cl_compression_config := x\<rparr>"

definition client_with_rate_limit_config :: "rate_limit_config \<Rightarrow> client_config \<Rightarrow> client_config" where
  "client_with_rate_limit_config x c = c\<lparr>cl_rate_limit_config := x\<rparr>"

definition client_with_subprotocols :: "unicode \<Rightarrow> rstr list \<Rightarrow> client_config \<Rightarrow> client_config" where
  "client_with_subprotocols u ps c =
     c\<lparr>cl_subprotocols :=
         (case subprotocol_list_from_slice (fst u) ps of Inl _ \<Rightarrow> subprotocol_list_new | Inr l \<Rightarrow> l)\<rparr>"

definition client_with_header :: "unicode \<Rightarrow> rstr \<Rightarrow> rstr \<Rightarrow> client_config \<Rightarrow> client_config" where
  "client_with_header u n v c = c\<lparr>cl_headers := fst (insert_header u n v (cl_headers c))\<rparr>"

definition client_with_headers :: "header_map \<Rightarrow> client_config \<Rightarrow> client_config" where
  "client_with_headers h c = c\<lparr>cl_headers := extend_headers h (cl_headers c)\<rparr>"

definition client_with_authorization :: "unicode \<Rightarrow> rstr \<Rightarrow> client_config \<Rightarrow> client_config" where
  "client_with_authorization u v c = c\<lparr>cl_headers := fst (set_authorization u v (cl_headers c))\<rparr>"

definition client_with_user_agent :: "unicode \<Rightarrow> rstr \<Rightarrow> client_config \<Rightarrow> client_config" where
  "client_with_user_agent u v c = c\<lparr>cl_headers := fst (set_user_agent u v (cl_headers c))\<rparr>"

definition client_with_origin :: "unicode \<Rightarrow> rstr \<Rightarrow> client_config \<Rightarrow> client_config" where
  "client_with_origin u v c = c\<lparr>cl_headers := fst (set_origin u v (cl_headers c))\<rparr>"

definition client_with_cookie :: "unicode \<Rightarrow> rstr \<Rightarrow> client_config \<Rightarrow> client_config" where
  "client_with_cookie u v c = c\<lparr>cl_headers := fst (set_cookie u v (cl_headers c))\<rparr>"

definition client_with_api_key :: "unicode \<Rightarrow> rstr \<Rightarrow> client_config \<Rightarrow> client_config" where
  "client_with_api_key u v c = c\<lparr>cl_headers := fst (set_api_key u v (cl_headers c))\<rparr>"

section \<open>Server configuration\<close>

record server_config =
  sv_bind_address :: rstr
  sv_max_connections :: nat
  sv_max_message_size :: nat
  sv_ping_interval :: duration
  sv_ping_timeout :: duration
  sv_buffer_size :: u64
  sv_compression_config :: compression_config
  sv_rate_limit_config :: rate_limit_config
  sv_subprotocols :: "rstr list"
  sv_headers :: header_map
  sv_required_headers :: "rstr list"

definition server_config_new :: "rstr \<Rightarrow> server_config" where
  "server_config_new addr =
     \<lparr>sv_bind_address = addr, sv_max_connections = 10000, sv_max_message_size = DEFAULT_MAX_MESSAGE_SIZE,
      sv_ping_interval = secs DEFAULT_PING_INTERVAL, sv_ping_timeout = secs DEFAULT_PING_TIMEOUT,
      sv_buffer_size = DEFAULT_BUFFER_SIZE, sv_compression_config = compression_config_default,
      sv_rate_limit_config = rate_limit_config_default, sv_subprotocols = [],
      sv_headers = header_map_new, sv_required_headers = []\<rparr>"

definition server_with_max_connections :: "nat \<Rightarrow> server_config \<Rightarrow> server_config" where
  "server_with_max_connections x c = c\<lparr>sv_max_connections := x\<rparr>"

definition server_with_max_message_size :: "nat \<Rightarrow> server_config \<Rightarrow> server_config" where
  "server_with_max_message_size x c = c\<lparr>sv_max_message_size := x\<rparr>"

definition server_with_ping_interval :: "duration \<Rightarrow> server_config \<Rightarrow> server_config" where
  "server_with_ping_interval x c = c\<lparr>sv_ping_interval := x\<rparr>"

definition server_with_ping_timeout :: "duration \<Rightarrow> server_config \<Rightarrow> server_config" where
  "server_with_ping_timeout x c = c\<lparr>sv_ping_timeout := x\<rparr>"

definition server_with_buffer_size :: "u64 \<Rightarrow> server_config \<Rightarrow> server_config" where
  "server_with_buffer_size x c = c\<lparr>sv_buffer_size := x\<rparr>"

definition server_with_compression_config :: "compression_config \<Rightarrow> server_config \<Rightarrow> server_config" where
  "server_with_compression_config x c = c\<lparr>sv_compression_config := x\<rparr>"

definition server_with_rate_limit_config :: "rate_limit_config \<Rightarrow> server_config \<Rightarrow> server_config" where
  "server_with_rate_limit_config x c = c\<lparr>sv_rate_limit_config := x\<rparr>"

definition server_with_subprotocols :: "rstr list \<Rightarrow> server_config \<Rightarrow> server_config" where
  "server_with_subprotocols x c = c\<lparr>sv_subprotocols := x\<rparr>"

definition server_with_header :: "unicode \<Rightarrow> rstr \<Rightarrow> rstr \<Rightarrow> server_config \<Rightarrow> server_config" where
  "server_with_header u n v c = c\<lparr>sv_headers := fst (insert_header u n v (sv_headers c))\<rparr>"

definition server_with_headers :: "header_map \<Rightarrow> server_config \<Rightarrow> server_config" where
  "server_with_headers h c = c\<lparr>sv_headers := extend_headers h (sv_headers c)\<rparr>"

definition server_with_required_header :: "rstr \<Rightarrow> server_config \<Rightarrow> server_config" where
  "server_with_required_header h c = c\<lparr>sv_required_headers := sv_required_headers c @ [h]\<rparr>"

section \<open>Chains of client builders\<close>

text \<open>Any chain of builder calls; the map given to \<^verbatim>\<open>with_headers\<close> is any map, by the operations that
  built it.\<close>

datatype client_option =
    WithMaxMessageSize nat
  | WithAutoReconnect bool
  | WithReconnect reconnect_config
  | WithHeartbeat heartbeat_config
  | WithBackpressure backpressure_config
  | WithTimeout duration
  | WithCompression compression_config
  | WithRateLimit rate_limit_config
  | WithSubprotocols "rstr list"
  | WithHeader rstr rstr
  | WithHeaders "header_op list"
  | WithAuthorization rstr
  | WithUserAgent rstr
  | WithOrigin rstr
  | WithCookie rstr
  | WithApiKey rstr

fun client_builder :: "unicode \<Rightarrow> client_option \<Rightarrow> client_config \<Rightarrow> client_config" where
  "client_builder u (WithMaxMessageSize n) = client_with_max_message_size n"
| "client_builder u (WithAutoReconnect b) = client_with_auto_reconnect b"
| "client_builder u (WithReconnect x) = client_with_reconnect_config x"
| "client_builder u (WithHeartbeat x) = client_with_heartbeat_config x"
| "client_builder u (WithBackpressure x) = client_with_backpressure_config x"
| "client_builder u (WithTimeout d) = client_with_connection_timeout d"
| "client_builder u (WithCompression x) = client_with_compression_config x"
| "client_builder u (WithRateLimit x) = client_with_rate_limit_config x"
| "client_builder u (WithSubprotocols ps) = client_with_subprotocols u ps"
| "client_builder u (WithHeader n v) = client_with_header u n v"
| "client_builder u (WithHeaders es) = client_with_headers (header_run u es header_map_new)"
| "client_builder u (WithAuthorization v) = client_with_authorization u v"
| "client_builder u (WithUserAgent v) = client_with_user_agent u v"
| "client_builder u (WithOrigin v) = client_with_origin u v"
| "client_builder u (WithCookie v) = client_with_cookie u v"
| "client_builder u (WithApiKey v) = client_with_api_key u v"

definition client_config_ok :: "unicode \<Rightarrow> client_config \<Rightarrow> bool" where
  "client_config_ok u c \<longleftrightarrow> headers_valid u (cl_headers c) \<and> list_ok (fst u) (cl_subprotocols c)"

lemmas client_builder_defs = client_with_max_message_size_def client_with_auto_reconnect_def
  client_with_reconnect_config_def client_with_heartbeat_config_def client_with_backpressure_config_def
  client_with_connection_timeout_def client_with_compression_config_def client_with_rate_limit_config_def
  client_with_subprotocols_def client_with_header_def client_with_headers_def client_with_authorization_def
  client_with_user_agent_def client_with_origin_def client_with_cookie_def client_with_api_key_def

lemmas header_setter_defs = set_authorization_def set_user_agent_def set_origin_def set_cookie_def
  set_api_key_def

lemma subprotocols_or_none_ok:
  "list_ok ua (case subprotocol_list_from_slice ua ps of Inl _ \<Rightarrow> subprotocol_list_new | Inr l \<Rightarrow> l)"
proof (cases "subprotocol_list_from_slice ua ps")
  case (Inl e)
  then show ?thesis by (simp add: list_ok_def subprotocol_list_new_def)
next
  case (Inr l)
  then show ?thesis using from_slice_ok [of ua ps] by simp
qed

lemma client_builder_ok: "client_config_ok u c \<Longrightarrow> client_config_ok u (client_builder u x c)"
  by (cases x)
    (simp_all add: client_builder_defs header_setter_defs client_config_ok_def headers_valid_insert
      headers_valid_extend headers_valid_run headers_valid_new subprotocols_or_none_ok)

interpretation client_builders: invariant_machine "client_builder u" "client_config_ok u" for u
  by unfold_locales (rule client_builder_ok)

section \<open>Properties\<close>

text \<open>C38: Whatever names, values and header maps are given to the builders of a client configuration,
  in any chain of calls, its headers are valid (every name in the map is the lower case of a name
  that \<^verbatim>\<open>HeaderName::new\<close> accepts and has at least one value, every value is printable
  ASCII) and its subprotocols are valid names, so that the header it offers is parsed back by the
  server as the same list. Hypothesis: the table of alphanumeric characters has no
  white space.\<close>

theorem client_config_safe:
  assumes "alnum_table_ok (fst u)"
  shows "let c = fold (client_builder u) xs (client_config_new url) in
         header_names_ok u (cl_headers c) \<and>
         list_all printable (get_all u n (cl_headers c)) \<and>
         (contains_header u n (cl_headers c) \<longleftrightarrow> get_all u n (cl_headers c) \<noteq> []) \<and>
         list_ok (fst u) (cl_subprotocols c) \<and>
         parse_header (fst u) (to_header_value (cl_subprotocols c)) = cl_subprotocols c"
proof -
  define c where "c = fold (client_builder u) xs (client_config_new url)"
  have "client_config_ok u (client_config_new url)"
    by (simp add: client_config_ok_def client_config_new_def headers_valid_new list_ok_def
        subprotocol_list_new_def)
  then have ok: "client_config_ok u c"
    unfolding c_def by (rule client_builders.run_inv)
  then have map: "header_map_ok (cl_headers c)" and "header_names_ok u (cl_headers c)"
    by (simp_all add: client_config_ok_def headers_valid_def)
  moreover have "contains_header u n (cl_headers c) \<longleftrightarrow> get_all u n (cl_headers c) \<noteq> []"
    using header_map_ok_get [OF map, of "to_lowercase (snd u) n"]
    by (auto simp: contains_header_def get_all_def values_ok_def split: option.split)
  ultimately show ?thesis
    using ok assms header_map_ok_get_all [OF map]
    by (simp add: client_config_ok_def parse_header_value flip: c_def)
qed

theorem client_config_safe_witness:
  "let c = fold (client_builder (\<lambda>_. False, id))
       [WithHeader [120] [97, 13, 10, 98], WithHeaders [AppendHeader [88] [49], AppendHeader [120] [50]],
        WithSubprotocols [[109]]] (client_config_new [])
   in list_all printable (get_all (\<lambda>_. False, id) [120] (cl_headers c)) \<and>
      get_all (\<lambda>_. False, id) [120] (cl_headers c) = [[49], [50]] \<and>
      parse_header (\<lambda>_. False) (to_header_value (cl_subprotocols c)) = cl_subprotocols c"
proof -
  let ?xs = "[WithHeader [120] [97, 13, 10, 98], WithHeaders [AppendHeader [88] [49], AppendHeader [120] [50]],
        WithSubprotocols [[109]]]"
  have "get_all (\<lambda>_. False, id) [120] (cl_headers (fold (client_builder (\<lambda>_. False, id)) ?xs (client_config_new []))) =
      [[49], [50]]"
  proof -
    let ?u = "(\<lambda>_::nat. False, id :: rstr \<Rightarrow> rstr)"
    have "fst (insert_header ?u [120] [97, 13, 10, 98] header_map_new) = header_map_new"
      by (subst insert_header_eq) (simp add: printable_def trim_def is_whitespace_def)
    moreover have "header_run ?u [AppendHeader [88] [49], AppendHeader [120] [50]] header_map_new =
        \<lparr>inner = [([120], [[49], [50]])]\<rparr>"
      by (simp add: append_header_eq printable_def trim_def is_whitespace_def header_name_ok_chars is_alphanumeric_def
          ascii_alnum_def to_lowercase_def ascii_lower_def entry_append_def header_map_new_def hm_insert_def
          hm_empty_def hm_get_def)
    ultimately have "cl_headers (fold (client_builder ?u) ?xs (client_config_new [])) =
        extend_headers \<lparr>inner = [([120], [[49], [50]])]\<rparr> header_map_new"
      by (simp add: client_with_header_def client_with_headers_def client_with_subprotocols_def client_config_new_def
          del: header_run.simps)
    also have "\<dots> = \<lparr>inner = [([120], [[49], [50]])]\<rparr>"
      by (simp add: extend_headers_def entry_append_def hm_get_def hm_insert_def header_map_new_def hm_empty_def)
    finally show ?thesis by (simp add: get_all_def to_lowercase_def ascii_lower_def hm_get_def)
  qed
  moreover have "alnum_table_ok (fst (\<lambda>_. False, id :: rstr \<Rightarrow> rstr))" by (simp add: alnum_table_ok_def)
  from client_config_safe [OF this, of ?xs "[]" "[120]"]
  have "list_all printable (get_all (\<lambda>_. False, id) [120]
        (cl_headers (fold (client_builder (\<lambda>_. False, id)) ?xs (client_config_new []))))"
    and "parse_header (\<lambda>_. False) (to_header_value (cl_subprotocols
        (fold (client_builder (\<lambda>_. False, id)) ?xs (client_config_new [])))) =
      cl_subprotocols (fold (client_builder (\<lambda>_. False, id)) ?xs (client_config_new []))"
    unfolding Let_def fst_conv by blast+
  ultimately show ?thesis unfolding Let_def by blast
qed

end
