(* ===== verification/Pool.thy ===== *)
theory Pool
  imports Config Metrics
begin

text \<open>
  \<^verbatim>\<open>src/src/pool.rs\<close>: the pool configuration, the connections of one server and the pool
  over all servers. A client is opaque: the operations that ask whether it is connected take
  the answers, \<open>alive\<close>, at the time of the call. \<^verbatim>\<open>get_with_config\<close> takes the lock in three
  places; each is a definition of its own, so that calls of several tasks can interleave
  between them. A fresh id stands for \<^verbatim>\<open>Uuid::new_v4\<close>.
\<close>

section \<open>Configuration\<close>

record pool_config =
  po_min_connections :: nat
  po_max_connections :: nat
  po_idle_timeout :: duration
  po_health_check_interval :: duration
  po_acquire_timeout :: duration
  po_enable_health_check :: bool

definition pool_config_default :: pool_config where
  "pool_config_default =
     \<lparr>po_min_connections = 1, po_max_connections = 10, po_idle_timeout = secs 300,
      po_health_check_interval = secs 30, po_acquire_timeout = secs 5, po_enable_health_check = True\<rparr>"

definition pool_with_min_connections :: "nat \<Rightarrow> pool_config \<Rightarrow> pool_config outcome" where
  "pool_with_min_connections n c = (if 0 < n then Ret (c\<lparr>po_min_connections := n\<rparr>) else Panic)"

definition pool_with_max_connections :: "nat \<Rightarrow> pool_config \<Rightarrow> pool_config outcome" where
  "pool_with_max_connections n c = (if 0 < n then Ret (c\<lparr>po_max_connections := n\<rparr>) else Panic)"

definition pool_with_idle_timeout :: "duration \<Rightarrow> pool_config \<Rightarrow> pool_config" where
  "pool_with_idle_timeout d c = c\<lparr>po_idle_timeout := d\<rparr>"

definition pool_with_health_check_interval :: "duration \<Rightarrow> pool_config \<Rightarrow> pool_config" where
  "pool_with_health_check_interval d c = c\<lparr>po_health_check_interval := d\<rparr>"

definition pool_with_acquire_timeout :: "duration \<Rightarrow> pool_config \<Rightarrow> pool_config" where
  "pool_with_acquire_timeout d c = c\<lparr>po_acquire_timeout := d\<rparr>"

definition pool_with_health_check :: "bool \<Rightarrow> pool_config \<Rightarrow> pool_config" where
  "pool_with_health_check b c = c\<lparr>po_enable_health_check := b\<rparr>"

definition validate :: "pool_config \<Rightarrow> unit result" where
  "validate c =
     (if po_min_connections c = 0 then Err (InvalidState (lit ''min_connections must be greater than 0''))
      else if po_max_connections c = 0 then Err (InvalidState (lit ''max_connections must be greater than 0''))
      else if po_max_connections c < po_min_connections c
        then Err (InvalidState (lit ''min_connections cannot be greater than max_connections''))
      else Ok ())"

definition pool_config_new :: pool_config where
  "pool_config_new = pool_config_default"

section \<open>Connections\<close>

type_synonym conn_id = rstr

record 'c pooled_connection =
  pc_id :: conn_id
  pc_client :: 'c
  pc_last_used :: instant
  pc_created_at :: instant
  pc_in_use :: bool
  pc_url :: rstr

definition pooled_new :: "instant \<Rightarrow> conn_id \<Rightarrow> 'c \<Rightarrow> rstr \<Rightarrow> 'c pooled_connection" where
  "pooled_new now i c url =
     \<lparr>pc_id = i, pc_client = c, pc_last_used = now, pc_created_at = now, pc_in_use = False, pc_url = url\<rparr>"

definition is_healthy :: "('c \<Rightarrow> bool) \<Rightarrow> 'c pooled_connection \<Rightarrow> bool" where
  "is_healthy alive p = alive (pc_client p)"

definition conn_is_idle :: "instant \<Rightarrow> duration \<Rightarrow> 'c pooled_connection \<Rightarrow> bool" where
  "conn_is_idle now d p \<longleftrightarrow> \<not> pc_in_use p \<and> elapsed now (pc_last_used p) > d"

definition should_evict :: "('c \<Rightarrow> bool) \<Rightarrow> instant \<Rightarrow> duration \<Rightarrow> 'c pooled_connection \<Rightarrow> bool" where
  "should_evict alive now d p \<longleftrightarrow> \<not> pc_in_use p \<and> (conn_is_idle now d p \<or> \<not> is_healthy alive p)"

definition mark_used :: "instant \<Rightarrow> 'c pooled_connection \<Rightarrow> 'c pooled_connection" where
  "mark_used now p = p\<lparr>pc_last_used := now\<rparr>"

definition conn_age :: "instant \<Rightarrow> 'c pooled_connection \<Rightarrow> duration" where
  "conn_age now p = elapsed now (pc_created_at p)"

section \<open>The pool of one server\<close>

text \<open>The semaphore is created and never acquired; its permits are kept as a number.\<close>

record 'c server_pool =
  sp_url :: rstr
  sp_config :: client_config
  sp_available :: "'c pooled_connection list"
  sp_in_use :: "'c pooled_connection list"
  sp_semaphore :: nat
  sp_total_created :: u64
  sp_total_acquired :: u64
  sp_total_released :: u64

definition server_pool_new :: "rstr \<Rightarrow> client_config \<Rightarrow> nat \<Rightarrow> 'c server_pool" where
  "server_pool_new url cfg mx =
     \<lparr>sp_url = url, sp_config = cfg, sp_available = [], sp_in_use = [], sp_semaphore = mx,
      sp_total_created = 0, sp_total_acquired = 0, sp_total_released = 0\<rparr>"

definition sp_total_connections :: "'c server_pool \<Rightarrow> nat" where
  "sp_total_connections p = length (sp_available p) + length (sp_in_use p)"

text \<open>\<^verbatim>\<open>Vec::pop\<close>.\<close>

definition get_available :: "'c server_pool \<Rightarrow> 'c server_pool \<times> 'c pooled_connection option" where
  "get_available p =
     (if sp_available p = [] then (p, None)
      else (p\<lparr>sp_available := butlast (sp_available p)\<rparr>, Some (last (sp_available p))))"

definition add_available :: "'c pooled_connection \<Rightarrow> 'c server_pool \<Rightarrow> 'c server_pool" where
  "add_available c p = p\<lparr>sp_available := sp_available p @ [c]\<rparr>"

definition add_in_use :: "'c pooled_connection \<Rightarrow> 'c server_pool \<Rightarrow> 'c server_pool" where
  "add_in_use c p = p\<lparr>sp_in_use := sp_in_use p @ [c]\<rparr>"

text \<open>\<^verbatim>\<open>position\<close> followed by \<^verbatim>\<open>Vec::remove\<close>.\<close>

fun remove_by_id :: "conn_id \<Rightarrow> 'c pooled_connection list \<Rightarrow> ('c pooled_connection \<times> 'c pooled_connection list) option" where
  "remove_by_id i [] = None"
| "remove_by_id i (c # cs) =
     (if pc_id c = i then Some (c, cs)
      else (case remove_by_id i cs of None \<Rightarrow> None | Some (d, ds) \<Rightarrow> Some (d, c # ds)))"

definition remove_in_use :: "conn_id \<Rightarrow> 'c server_pool \<Rightarrow> 'c server_pool \<times> 'c pooled_connection option" where
  "remove_in_use i p =
     (case remove_by_id i (sp_in_use p) of
        None \<Rightarrow> (p, None)
      | Some (c, cs) \<Rightarrow> (p\<lparr>sp_in_use := cs\<rparr>, Some c))"

definition server_cleanup :: "('c \<Rightarrow> bool) \<Rightarrow> instant \<Rightarrow> duration \<Rightarrow> 'c server_pool \<Rightarrow> 'c server_pool \<times> nat" where
  "server_cleanup alive now d p =
     (let kept = filter (\<lambda>c. \<not> should_evict alive now d c) (sp_available p) in
      (p\<lparr>sp_available := kept\<rparr>, length (sp_available p) - length kept))"

definition created_minus_one :: "'c server_pool \<Rightarrow> 'c server_pool" where
  "created_minus_one p = p\<lparr>sp_total_created := sat_sub (sp_total_created p) 1\<rparr>"

section \<open>The pool\<close>

record 'c conn_pool =
  cp_config :: pool_config
  cp_pools :: "(rstr, 'c server_pool) hmap"
  cp_metrics :: metrics

record 'c pooled_client =
  pcl_client :: 'c
  pcl_url :: rstr
  pcl_connection_id :: conn_id

definition conn_pool_new :: "pool_config \<Rightarrow> 'c conn_pool result" where
  "conn_pool_new c =
     try_then (validate c)
       (\<lambda>_. Ok \<lparr>cp_config = c, cp_pools = hm_empty, cp_metrics = metrics_new\<rparr>)"

definition conn_pool_with_defaults :: "'c conn_pool result" where
  "conn_pool_with_defaults = conn_pool_new pool_config_default"

definition set_pool :: "rstr \<Rightarrow> 'c server_pool \<Rightarrow> 'c conn_pool \<Rightarrow> 'c conn_pool" where
  "set_pool url p s = s\<lparr>cp_pools := hm_insert url p (cp_pools s)\<rparr>"

datatype 'c get_answer = Got "'c pooled_client" | CanCreate | MustWait

definition handle_of :: "rstr \<Rightarrow> 'c pooled_connection \<Rightarrow> 'c pooled_client" where
  "handle_of url c = \<lparr>pcl_client = pc_client c, pcl_url = url, pcl_connection_id = pc_id c\<rparr>"

text \<open>The take-over of an available, healthy connection.\<close>

definition check_out :: "instant \<Rightarrow> 'c pooled_connection \<Rightarrow> 'c server_pool \<Rightarrow> 'c server_pool" where
  "check_out now c p =
     (let c' = mark_used now (c\<lparr>pc_in_use := True\<rparr>); p' = add_in_use c' p
      in p'\<lparr>sp_total_acquired := sp_total_acquired p' + 1\<rparr>)"

text \<open>First critical section: an available connection, or whether one may be created. The
  counters are those of a release build.\<close>

definition get_phase1 :: "('c \<Rightarrow> bool) \<Rightarrow> instant \<Rightarrow> rstr \<Rightarrow> 'c conn_pool \<Rightarrow> 'c conn_pool \<times> 'c get_answer" where
  "get_phase1 alive now url s =
     (case hm_get (cp_pools s) url of
        None \<Rightarrow> (s, CanCreate)
      | Some p \<Rightarrow>
          (case get_available p of
             (p1, Some c) \<Rightarrow>
               if is_healthy alive c
               then ((set_pool url (check_out now c p1) s)
                       \<lparr>cp_metrics := fst (record_message_sent False now 1 (cp_metrics s))\<rparr>,
                     Got (handle_of url c))
               else
                 (let p2 = created_minus_one p1 in
                  (set_pool url p2 s,
                   if sp_total_connections p2 < po_max_connections (cp_config s) then CanCreate else MustWait))
           | (p1, None) \<Rightarrow>
               (s, if sp_total_connections p1 < po_max_connections (cp_config s) then CanCreate else MustWait)))"

text \<open>Second critical section: the new connection enters the pool.\<close>

definition get_phase2 ::
  "instant \<Rightarrow> conn_id \<Rightarrow> 'c \<Rightarrow> rstr \<Rightarrow> 'c conn_pool \<Rightarrow> 'c conn_pool \<times> 'c pooled_client" where
  "get_phase2 now i client url s =
     (let p = (case hm_get (cp_pools s) url of
                 None \<Rightarrow> server_pool_new url (client_config_new url) (po_max_connections (cp_config s))
               | Some p \<Rightarrow> p);
          c = (pooled_new now i client url)\<lparr>pc_in_use := True\<rparr>;
          p1 = add_in_use c p
      in (set_pool url (p1\<lparr>sp_total_created := sp_total_created p1 + 1,
                            sp_total_acquired := sp_total_acquired p1 + 1\<rparr>) s,
          handle_of url c))"

text \<open>Third critical section: one turn of the wait loop. An unhealthy connection is dropped.\<close>

definition get_phase3 ::
  "('c \<Rightarrow> bool) \<Rightarrow> instant \<Rightarrow> rstr \<Rightarrow> 'c conn_pool \<Rightarrow> 'c conn_pool \<times> 'c pooled_client option" where
  "get_phase3 alive now url s =
     (case hm_get (cp_pools s) url of
        None \<Rightarrow> (s, None)
      | Some p \<Rightarrow>
          (case get_available p of
             (p1, Some c) \<Rightarrow>
               if is_healthy alive c
               then (set_pool url (check_out now c p1) s, Some (handle_of url c))
               else (set_pool url p1 s, None)
           | (p1, None) \<Rightarrow> (s, None)))"

text \<open>
  The wait loop. Each turn has the reading of the clock, the clients that are connected at that turn
  and what the other tasks did to the pool since the last turn; \<open>None\<close> is a call still waiting
  when the turns end.
\<close>

fun wait_loop ::
  "instant \<Rightarrow> rstr \<Rightarrow> (instant \<times> ('c \<Rightarrow> bool) \<times> ('c conn_pool \<Rightarrow> 'c conn_pool)) list \<Rightarrow>
     'c conn_pool \<Rightarrow> 'c conn_pool \<times> 'c pooled_client result option"
where
  "wait_loop start url [] s = (s, None)"
| "wait_loop start url ((now, alive, env) # turns) s =
     (if po_acquire_timeout (cp_config s) \<le> elapsed now start then (s, Some (Err Timeout))
      else
        (case get_phase3 alive now url (env s) of
           (s1, Some h) \<Rightarrow> (s1, Some (Ok h))
         | (s1, None) \<Rightarrow> wait_loop start url turns s1))"

text \<open>
  A whole \<^verbatim>\<open>get_with_config\<close>: \<open>attempt\<close> is the answer of the connection attempt under its
  timeout, \<open>env\<close> what the other tasks did meanwhile.
\<close>

definition get_with_config ::
  "('c \<Rightarrow> bool) \<Rightarrow> instant \<Rightarrow> conn_id \<Rightarrow> 'c result \<Rightarrow> ('c conn_pool \<Rightarrow> 'c conn_pool) \<Rightarrow>
     (instant \<times> ('c \<Rightarrow> bool) \<times> ('c conn_pool \<Rightarrow> 'c conn_pool)) list \<Rightarrow> rstr \<Rightarrow>
     'c conn_pool \<Rightarrow> 'c conn_pool \<times> 'c pooled_client result option"
where
  "get_with_config alive now i attempt env turns url s =
     (case get_phase1 alive now url s of
        (s1, Got h) \<Rightarrow> (s1, Some (Ok h))
      | (s1, CanCreate) \<Rightarrow>
          (case attempt of
             Inl e \<Rightarrow> (env s1, Some (Err e))
           | Inr client \<Rightarrow> (case get_phase2 now i client url (env s1) of (s2, h) \<Rightarrow> (s2, Some (Ok h))))
      | (s1, MustWait) \<Rightarrow> wait_loop now url turns s1)"

definition release :: "('c \<Rightarrow> bool) \<Rightarrow> instant \<Rightarrow> rstr \<Rightarrow> conn_id \<Rightarrow> 'c conn_pool \<Rightarrow> 'c conn_pool" where
  "release alive now url i s =
     (case hm_get (cp_pools s) url of
        None \<Rightarrow> s
      | Some p \<Rightarrow>
          (case remove_in_use i p of
             (p1, None) \<Rightarrow> s
           | (p1, Some c) \<Rightarrow>
               (let c' = mark_used now (c\<lparr>pc_in_use := False\<rparr>);
                    p2 = (if is_healthy alive c' \<and> sp_total_connections p1 \<le> po_max_connections (cp_config s)
                          then add_available c' p1 else created_minus_one p1)
                in set_pool url (p2\<lparr>sp_total_released := sp_total_released p2 + 1\<rparr>) s)))"

definition close :: "rstr \<Rightarrow> conn_id \<Rightarrow> 'c conn_pool \<Rightarrow> 'c conn_pool" where
  "close url i s =
     (case hm_get (cp_pools s) url of
        None \<Rightarrow> s
      | Some p \<Rightarrow>
          (case remove_in_use i p of
             (p1, Some c) \<Rightarrow> set_pool url (created_minus_one p1) s
           | (p1, None) \<Rightarrow>
               (case remove_by_id i (sp_available p1) of
                  None \<Rightarrow> s
                | Some (c, cs) \<Rightarrow> set_pool url (created_minus_one (p1\<lparr>sp_available := cs\<rparr>)) s)))"

record pool_stats =
  ps_server_count :: nat
  ps_total_connections :: nat
  ps_available_connections :: nat
  ps_in_use_connections :: nat
  ps_total_created :: u64

definition stats :: "'c conn_pool \<Rightarrow> pool_stats" where
  "stats s =
     (let ps = hm_values (cp_pools s);
          av = sum_list (map (length \<circ> sp_available) ps);
          iu = sum_list (map (length \<circ> sp_in_use) ps)
      in \<lparr>ps_server_count = hm_len (cp_pools s), ps_total_connections = av + iu,
          ps_available_connections = av, ps_in_use_connections = iu,
          ps_total_created = sum_list (map sp_total_created ps)\<rparr>)"

record server_pool_stats =
  ss_url :: rstr
  ss_available :: nat
  ss_in_use :: nat
  ss_total :: nat
  ss_total_created :: u64
  ss_total_acquired :: u64
  ss_total_released :: u64

definition server_stats :: "rstr \<Rightarrow> 'c conn_pool \<Rightarrow> server_pool_stats option" where
  "server_stats url s =
     map_option (\<lambda>p. \<lparr>ss_url = sp_url p, ss_available = length (sp_available p),
                       ss_in_use = length (sp_in_use p),
                       ss_total = length (sp_available p) + length (sp_in_use p),
                       ss_total_created = sp_total_created p, ss_total_acquired = sp_total_acquired p,
                       ss_total_released = sp_total_released p\<rparr>)
       (hm_get (cp_pools s) url)"

record cleanup_stats =
  cs_connections_removed :: nat
  cs_servers_cleaned :: nat

definition cleanup :: "('c \<Rightarrow> bool) \<Rightarrow> instant \<Rightarrow> 'c conn_pool \<Rightarrow> 'c conn_pool \<times> cleanup_stats" where
  "cleanup alive now s =
     (let step = server_cleanup alive now (po_idle_timeout (cp_config s));
          removed = map (\<lambda>p. snd (step p)) (hm_values (cp_pools s))
      in (s\<lparr>cp_pools := map (\<lambda>(url, p). (url, fst (step p))) (cp_pools s)\<rparr>,
          \<lparr>cs_connections_removed = sum_list removed,
           cs_servers_cleaned = length (filter (\<lambda>n. 0 < n) removed)\<rparr>))"

text \<open>\<^verbatim>\<open>start_health_check_task\<close>: a cleanup at every tick.\<close>

definition health_check_task :: "('c \<Rightarrow> bool) \<Rightarrow> instant list \<Rightarrow> 'c conn_pool \<Rightarrow> 'c conn_pool" where
  "health_check_task alive ticks s = fold (\<lambda>now s. fst (cleanup alive now s)) ticks s"

text \<open>\<^verbatim>\<open>close_all\<close>: the emptied pool and the clients to close, available ones first.\<close>

definition close_all :: "'c conn_pool \<Rightarrow> 'c conn_pool \<times> 'c list" where
  "close_all s =
     (s\<lparr>cp_pools := hm_empty\<rparr>,
      concat (map (\<lambda>p. map pc_client (sp_available p) @ map pc_client (sp_in_use p)) (hm_values (cp_pools s))))"

section \<open>Handles\<close>

text \<open>Dropping a handle releases it; \<^verbatim>\<open>release\<close> and \<^verbatim>\<open>close\<close> consume it, so that it is dropped
  after them. What other tasks do in between is \<open>env\<close>.\<close>

definition handle_drop :: "('c \<Rightarrow> bool) \<Rightarrow> instant \<Rightarrow> 'c pooled_client \<Rightarrow> 'c conn_pool \<Rightarrow> 'c conn_pool" where
  "handle_drop alive now h s = release alive now (pcl_url h) (pcl_connection_id h) s"

definition handle_release ::
  "('c \<Rightarrow> bool) \<Rightarrow> instant \<Rightarrow> ('c conn_pool \<Rightarrow> 'c conn_pool) \<Rightarrow> 'c pooled_client \<Rightarrow> 'c conn_pool \<Rightarrow> 'c conn_pool"
where
  "handle_release alive now env h s =
     handle_drop alive now h (env (release alive now (pcl_url h) (pcl_connection_id h) s))"

definition handle_close ::
  "('c \<Rightarrow> bool) \<Rightarrow> instant \<Rightarrow> ('c conn_pool \<Rightarrow> 'c conn_pool) \<Rightarrow> 'c pooled_client \<Rightarrow> 'c conn_pool \<Rightarrow> 'c conn_pool"
where
  "handle_close alive now env h s =
     handle_drop alive now h (env (close (pcl_url h) (pcl_connection_id h) s))"

section \<open>Lemmas\<close>

named_theorems pool_defs \<open>the operations on the pool of one server\<close>

declare check_out_def [pool_defs] mark_used_def [pool_defs] add_in_use_def [pool_defs]
  add_available_def [pool_defs] created_minus_one_def [pool_defs] get_available_def [pool_defs]
  pooled_new_def [pool_defs] server_pool_new_def [pool_defs] remove_in_use_def [pool_defs]

lemma remove_by_id_SomeD:
  "remove_by_id i cs = Some (c, ds) \<Longrightarrow> \<exists>xs ys. cs = xs @ c # ys \<and> ds = xs @ ys \<and> pc_id c = i"
proof (induction cs arbitrary: ds)
  case (Cons d cs)
  show ?case
  proof (cases "pc_id d = i")
    case True
    with Cons.prems have "d # cs = [] @ c # cs \<and> ds = [] @ cs \<and> pc_id c = i" by simp
    then show ?thesis by blast
  next
    case False
    with Cons.prems obtain es where r: "remove_by_id i cs = Some (c, es)" "ds = d # es"
      by (auto split: option.splits)
    from Cons.IH [OF r(1)] obtain xs ys where "cs = xs @ c # ys" "es = xs @ ys" "pc_id c = i" by blast
    with r(2) have "d # cs = (d # xs) @ c # ys \<and> ds = (d # xs) @ ys \<and> pc_id c = i" by simp
    then show ?thesis by blast
  qed
qed simp

lemma remove_by_id_None: "remove_by_id i cs = None \<longleftrightarrow> i \<notin> pc_id ` set cs"
  by (induction cs) (auto split: option.splits)

lemma get_set_pool [simp]:
  "hm_get (cp_pools (set_pool url p s)) url' = (if url' = url then Some p else hm_get (cp_pools s) url')"
  "cp_config (set_pool url p s) = cp_config s"
  by (simp_all add: set_pool_def hm.lookup_insert)

lemma set_pool_keeps:
  assumes "\<And>url' p'. hm_get (cp_pools s) url' = Some p' \<Longrightarrow> P url' p'" and "P url p"
    and "hm_get (cp_pools (set_pool url p s)) url' = Some p'"
  shows "P url' p'"
  using assms by (auto split: if_splits)

text \<open>What any operation may have done to the pool of one server: the cases of the proofs below.\<close>

inductive server_change :: "nat \<Rightarrow> rstr \<Rightarrow> 'c server_pool \<Rightarrow> 'c server_pool \<Rightarrow> bool" for mx url where
  out: "sp_available p = cs @ [c] \<Longrightarrow>
     server_change mx url p
       (p\<lparr>sp_available := cs, sp_in_use := sp_in_use p @ [c\<lparr>pc_in_use := True, pc_last_used := now\<rparr>],
          sp_total_acquired := n\<rparr>)"
| dropped: "sp_available p = cs @ [c] \<Longrightarrow>
     server_change mx url p (p\<lparr>sp_available := cs, sp_total_created := n\<rparr>)"
| returned: "sp_in_use p = xs @ c # ys \<Longrightarrow> length (sp_available p) + length (xs @ ys) \<le> mx \<Longrightarrow>
     server_change mx url p
       (p\<lparr>sp_in_use := xs @ ys, sp_available := sp_available p @ [c\<lparr>pc_in_use := False, pc_last_used := now\<rparr>],
          sp_total_released := n\<rparr>)"
| discarded: "sp_in_use p = xs @ c # ys \<Longrightarrow>
     server_change mx url p (p\<lparr>sp_in_use := xs @ ys, sp_total_created := k, sp_total_released := n\<rparr>)"
| closed: "sp_available p = xs @ c # ys \<Longrightarrow>
     server_change mx url p (p\<lparr>sp_available := xs @ ys, sp_total_created := k\<rparr>)"

definition pool_change :: "rstr \<Rightarrow> 'c conn_pool \<Rightarrow> 'c conn_pool \<Rightarrow> bool" where
  "pool_change url s s' \<longleftrightarrow>
     cp_config s' = cp_config s \<and>
     (cp_pools s' = cp_pools s \<or>
      (\<exists>p p'. hm_get (cp_pools s) url = Some p \<and> cp_pools s' = hm_insert url p' (cp_pools s) \<and>
         server_change (po_max_connections (cp_config s)) url p p'))"

lemma pool_change_refl [simp]: "pool_change url s s"
  by (simp add: pool_change_def)

lemma pool_change_set:
  assumes "hm_get (cp_pools s) url = Some p"
    and "server_change (po_max_connections (cp_config s)) url p p'"
  shows "pool_change url s (set_pool url p' s)" and "pool_change url s (set_pool url p' s\<lparr>cp_metrics := m\<rparr>)"
  using assms by (auto simp: pool_change_def set_pool_def)

lemma get_available_cases:
  obtains "sp_available p = []" "get_available p = (p, None)"
  | cs c where "sp_available p = cs @ [c]" "get_available p = (p\<lparr>sp_available := cs\<rparr>, Some c)"
  by (cases "sp_available p" rule: rev_cases) (auto simp: get_available_def)

lemma check_out_change:
  assumes "sp_available p = cs @ [c]"
  shows "server_change mx url p (check_out now c (p\<lparr>sp_available := cs\<rparr>))"
  using server_change.out [OF assms, where now = now and n = "sp_total_acquired p + 1"]
  by (simp add: pool_defs Let_def)

lemma drop_change:
  assumes "sp_available p = cs @ [c]"
  shows "server_change mx url p (created_minus_one (p\<lparr>sp_available := cs\<rparr>))"
    and "server_change mx url p (p\<lparr>sp_available := cs\<rparr>)"
  using server_change.dropped [OF assms, where n = "sat_sub (sp_total_created p) 1"]
    server_change.dropped [OF assms, where n = "sp_total_created p"]
  by (simp_all add: pool_defs)

lemma get_phase1_change: "pool_change url s (fst (get_phase1 alive now url s))"
proof (cases "hm_get (cp_pools s) url")
  case None
  then show ?thesis by (simp add: get_phase1_def)
next
  case (Some p)
  show ?thesis
    by (rule get_available_cases [of p])
      (use Some in \<open>auto simp: get_phase1_def Let_def intro: pool_change_set check_out_change drop_change\<close>)
qed

lemma get_phase3_change: "pool_change url s (fst (get_phase3 alive now url s))"
proof (cases "hm_get (cp_pools s) url")
  case None
  then show ?thesis by (simp add: get_phase3_def)
next
  case (Some p)
  show ?thesis
    by (rule get_available_cases [of p])
      (use Some in \<open>auto simp: get_phase3_def intro: pool_change_set check_out_change drop_change\<close>)
qed

lemma release_change: "pool_change url s (release alive now url i s)"
proof (cases "hm_get (cp_pools s) url")
  case None
  then show ?thesis by (simp add: release_def)
next
  case (Some p)
  show ?thesis
  proof (cases "remove_by_id i (sp_in_use p)")
    case None
    with Some show ?thesis by (simp add: release_def remove_in_use_def)
  next
    case r: (Some q)
    obtain c cs where q: "q = (c, cs)" by (cases q)
    with r remove_by_id_SomeD obtain xs ys where xs: "sp_in_use p = xs @ c # ys" "cs = xs @ ys" by blast
    note ret = server_change.returned [OF xs(1), where now = now and n = "sp_total_released p + 1"]
    note disc = server_change.discarded [OF xs(1), where k = "sat_sub (sp_total_created p) 1"
      and n = "sp_total_released p + 1"]
    show ?thesis
      using Some r q xs(2) ret disc
      by (auto simp: release_def remove_in_use_def Let_def pool_defs sp_total_connections_def
          intro!: pool_change_set)
  qed
qed

lemma close_change: "pool_change url s (close url i s)"
proof (cases "hm_get (cp_pools s) url")
  case None
  then show ?thesis by (simp add: close_def)
next
  case (Some p)
  let ?mx = "po_max_connections (cp_config s)"
  show ?thesis
  proof (cases "remove_by_id i (sp_in_use p)")
    case r: (Some q)
    obtain c cs where q: "q = (c, cs)" by (cases q)
    with r remove_by_id_SomeD obtain xs ys where "sp_in_use p = xs @ c # ys" "cs = xs @ ys" by blast
    with server_change.discarded [of p xs c ys ?mx url "sp_total_released p" "sat_sub (sp_total_created p) 1"]
    show ?thesis using Some r q
      by (auto simp: close_def remove_in_use_def created_minus_one_def intro!: pool_change_set)
  next
    case none: None
    show ?thesis
    proof (cases "remove_by_id i (sp_available p)")
      case None
      with Some none show ?thesis by (simp add: close_def remove_in_use_def)
    next
      case r: (Some q)
      obtain c cs where q: "q = (c, cs)" by (cases q)
      with r remove_by_id_SomeD obtain xs ys where "sp_available p = xs @ c # ys" "cs = xs @ ys" by blast
      with server_change.closed [of p xs c ys ?mx url "sat_sub (sp_total_created p) 1"]
      show ?thesis using Some none r q
        by (auto simp: close_def remove_in_use_def created_minus_one_def intro!: pool_change_set)
    qed
  qed
qed

section \<open>The invariant of the pool\<close>

text \<open>
  A call of the pool by some task. \<open>uuid\<close> gives the ids in the order they are drawn and \<open>n\<close>
  is how many were. Creating a connection is the second critical section of a \<^verbatim>\<open>get\<close>, wherever
  it falls in the trace.
\<close>

datatype 'c pool_event =
    Ask rstr
  | Create 'c rstr
  | Poll rstr
  | Return rstr conn_id
  | Discard rstr conn_id
  | Tick
  | CloseAll

fun pool_step ::
  "(nat \<Rightarrow> conn_id) \<Rightarrow> ('c \<Rightarrow> bool) \<times> instant \<times> 'c pool_event \<Rightarrow> 'c conn_pool \<times> nat \<Rightarrow> 'c conn_pool \<times> nat"
where
  "pool_step uuid (alive, now, Ask url) (s, n) = (fst (get_phase1 alive now url s), n)"
| "pool_step uuid (alive, now, Create c url) (s, n) = (fst (get_phase2 now (uuid n) c url s), Suc n)"
| "pool_step uuid (alive, now, Poll url) (s, n) = (fst (get_phase3 alive now url s), n)"
| "pool_step uuid (alive, now, Return url i) (s, n) = (release alive now url i s, n)"
| "pool_step uuid (alive, now, Discard url i) (s, n) = (close url i s, n)"
| "pool_step uuid (alive, now, Tick) (s, n) = (fst (cleanup alive now s), n)"
| "pool_step uuid (alive, now, CloseAll) (s, n) = (fst (close_all s), n)"

definition server_ids :: "'c server_pool \<Rightarrow> conn_id list" where
  "server_ids p = map pc_id (sp_available p) @ map pc_id (sp_in_use p)"

text \<open>
  Every connection of a server is in one of the two lists and once, its id was drawn, and its
  flag and its URL say where it is.
\<close>

definition server_ok :: "conn_id set \<Rightarrow> rstr \<Rightarrow> 'c server_pool \<Rightarrow> bool" where
  "server_ok drawn url p \<longleftrightarrow>
     distinct (server_ids p) \<and> set (server_ids p) \<subseteq> drawn \<and> sp_url p = url \<and>
     (\<forall>c \<in> set (sp_available p). \<not> pc_in_use c \<and> pc_url c = url) \<and>
     (\<forall>c \<in> set (sp_in_use p). pc_in_use c \<and> pc_url c = url)"

definition pool_ok :: "conn_id set \<Rightarrow> 'c conn_pool \<Rightarrow> bool" where
  "pool_ok drawn s \<longleftrightarrow>
     hm_wf (cp_pools s) \<and> (\<forall>url p. hm_get (cp_pools s) url = Some p \<longrightarrow> server_ok drawn url p)"

lemma server_change_ok: "server_change mx url p p' \<Longrightarrow> server_ok drawn url p \<Longrightarrow> server_ok drawn url p'"
  by (induction rule: server_change.induct) (auto simp: server_ok_def server_ids_def)

lemma pool_change_ok: "pool_change url s s' \<Longrightarrow> pool_ok drawn s \<Longrightarrow> pool_ok drawn s'"
  unfolding pool_change_def pool_ok_def
  by (auto simp: hm.lookup_insert hm.ok_insert server_change_ok split: if_splits)

lemma server_ok_mono: "server_ok drawn url p \<Longrightarrow> drawn \<subseteq> drawn' \<Longrightarrow> server_ok drawn' url p"
  by (auto simp: server_ok_def)

lemma server_new_ok: "server_ok drawn url (server_pool_new url cfg k)"
  by (simp add: server_ok_def server_ids_def server_pool_new_def)

lemma get_phase2_ok:
  assumes ok: "pool_ok drawn s" and new: "i \<notin> drawn"
  shows "pool_ok (insert i drawn) (fst (get_phase2 now i c url s))"
proof -
  define p where "p = (case hm_get (cp_pools s) url of
                 None \<Rightarrow> server_pool_new url (client_config_new url) (po_max_connections (cp_config s))
               | Some p \<Rightarrow> p)"
  have p: "server_ok drawn url p"
    using ok unfolding p_def pool_ok_def by (auto simp: server_new_ok split: option.splits)
  let ?p' = "p\<lparr>sp_in_use := sp_in_use p @ [(pooled_new now i c url)\<lparr>pc_in_use := True\<rparr>],
     sp_total_created := sp_total_created p + 1, sp_total_acquired := sp_total_acquired p + 1\<rparr>"
  have "server_ok (insert i drawn) url ?p'"
    using p new by (auto simp: server_ok_def server_ids_def pooled_new_def)
  moreover have "fst (get_phase2 now i c url s) = set_pool url ?p' s"
    by (simp add: get_phase2_def p_def add_in_use_def Let_def)
  ultimately show ?thesis
    using ok by (auto simp: pool_ok_def set_pool_def hm.lookup_insert hm.ok_insert intro: server_ok_mono)
qed

lemma get_cleanup:
  "hm_get (cp_pools (fst (cleanup alive now s))) url =
     map_option (\<lambda>p. fst (server_cleanup alive now (po_idle_timeout (cp_config s)) p)) (hm_get (cp_pools s) url)"
  by (simp add: cleanup_def Let_def hm_get_def map_of_map)

lemma server_cleanup_ok: "server_ok drawn url p \<Longrightarrow> server_ok drawn url (fst (server_cleanup alive now d p))"
  by (auto simp: server_ok_def server_ids_def server_cleanup_def Let_def intro: distinct_map_filter)

lemma cleanup_ok: "pool_ok drawn s \<Longrightarrow> pool_ok drawn (fst (cleanup alive now s))"
proof -
  assume ok: "pool_ok drawn s"
  have "map fst (cp_pools (fst (cleanup alive now s))) = map fst (cp_pools s)"
    by (simp add: cleanup_def Let_def comp_def case_prod_beta)
  with ok show ?thesis
    unfolding pool_ok_def get_cleanup by (auto simp: hm_wf_def server_cleanup_ok)
qed

lemma close_all_ok: "pool_ok drawn (fst (close_all s))"
  by (simp add: close_all_def pool_ok_def hm.ok_empty)

lemma pool_step_ok:
  assumes "inj uuid" and "pool_ok (uuid ` {..<snd t}) (fst t)"
  shows "pool_ok (uuid ` {..<snd (pool_step uuid e t)}) (fst (pool_step uuid e t))"
proof -
  obtain s n where t: "t = (s, n)" by (cases t)
  obtain alive now x where e: "e = (alive, now, x)" by (cases e)
  have fresh: "uuid n \<notin> uuid ` {..<n}" using assms(1) by (auto dest: injD)
  show ?thesis
  proof (cases x)
    case (Create c url)
    with get_phase2_ok [OF _ fresh, of s now c url] assms(2) t e show ?thesis
      by (simp add: lessThan_Suc)
  qed (use assms(2) t e in \<open>auto intro: cleanup_ok close_all_ok pool_change_ok
      get_phase1_change get_phase3_change release_change close_change\<close>)
qed

interpretation pm: invariant_machine "pool_step uuid"
  "\<lambda>t. inj uuid \<and> pool_ok (uuid ` {..<snd t}) (fst t)" for uuid
  by unfold_locales (auto intro: pool_step_ok)

text \<open>C3: Whatever tasks ask, create, poll, release and close, in whatever order and however the
  critical sections interleave with cleanups: as long as drawn ids are not drawn again, the
  connections of each server stay disjoint: no id occurs twice, no connection is both
  available and in use, its flag says which, and it belongs to the server's URL.\<close>

theorem pool_invariant:
  assumes "inj uuid" and "conn_pool_new cfg = Ok s0"
  shows "case fold (pool_step uuid) es (s0, 0) of (s, n) \<Rightarrow> pool_ok (uuid ` {..<n}) s"
proof -
  have "pool_ok {} s0"
    using assms(2) by (auto simp: conn_pool_new_def try_then_Ok_iff pool_ok_def hm.ok_empty)
  with pm.run_inv [of uuid "(s0, 0)" es] assms(1) show ?thesis by (simp add: case_prod_beta)
qed

theorem pool_invariant_witness:
  "case fold (pool_step (\<lambda>k. replicate k 65))
      [((\<lambda>_. True), 0, Ask (lit ''ws'')), ((\<lambda>_. True), 1, Create () (lit ''ws'')), ((\<lambda>_. True), 2, Tick)]
      (\<lparr>cp_config = pool_config_default, cp_pools = hm_empty, cp_metrics = metrics_new\<rparr>, 0) of
     (s, n) \<Rightarrow> pool_ok ((\<lambda>k. replicate k 65) ` {..<n}) s"
proof (rule pool_invariant)
  show "inj (\<lambda>k. replicate k (65 :: nat))" by (auto intro!: injI dest: arg_cong [of _ _ length])
  show "conn_pool_new pool_config_default =
     Ok \<lparr>cp_config = pool_config_default, cp_pools = hm_empty, cp_metrics = metrics_new\<rparr>"
    by (simp add: conn_pool_new_def validate_def pool_config_default_def)
qed

section \<open>The limit on connections\<close>

text \<open>A whole \<^verbatim>\<open>get\<close> that succeeds at once when it has to connect, with nothing else happening in between.\<close>

fun seq_step ::
  "(nat \<Rightarrow> conn_id) \<Rightarrow> ('c \<Rightarrow> bool) \<times> instant \<times> 'c pool_event \<Rightarrow> 'c conn_pool \<times> nat \<Rightarrow> 'c conn_pool \<times> nat"
where
  "seq_step uuid (alive, now, Create c url) (s, n) =
     (fst (get_with_config alive now (uuid n) (Ok c) (\<lambda>s. s) [] url s), Suc n)"
| "seq_step uuid e t = pool_step uuid e t"

definition within_limit :: "'c conn_pool \<Rightarrow> bool" where
  "within_limit s \<longleftrightarrow>
     0 < po_max_connections (cp_config s) \<and>
     (\<forall>url p. hm_get (cp_pools s) url = Some p \<longrightarrow> sp_total_connections p \<le> po_max_connections (cp_config s))"

lemma server_change_total:
  "server_change mx url p p' \<Longrightarrow> sp_total_connections p' \<le> sp_total_connections p"
  by (induction rule: server_change.induct) (simp_all add: sp_total_connections_def)

lemma pool_change_limit: "pool_change url s s' \<Longrightarrow> within_limit s \<Longrightarrow> within_limit s'"
  unfolding pool_change_def within_limit_def
  by (auto simp: hm.lookup_insert split: if_splits) (meson order_trans server_change_total)

lemma get_phase1_CanCreate:
  "snd (get_phase1 alive now url s) = CanCreate \<Longrightarrow>
     hm_get (cp_pools (fst (get_phase1 alive now url s))) url = None \<or>
     (\<exists>p. hm_get (cp_pools (fst (get_phase1 alive now url s))) url = Some p \<and>
        sp_total_connections p < po_max_connections (cp_config s))"
  by (auto simp: get_phase1_def Let_def split: option.splits if_splits prod.splits)
     (auto simp: get_available_def split: if_splits)

lemma get_phase2_pool:
  "hm_get (cp_pools (fst (get_phase2 now i c url s))) url' =
     (if url' = url
      then Some (let p = (case hm_get (cp_pools s) url of
                   None \<Rightarrow> server_pool_new url (client_config_new url) (po_max_connections (cp_config s))
                 | Some p \<Rightarrow> p)
           in p\<lparr>sp_in_use := sp_in_use p @ [(pooled_new now i c url)\<lparr>pc_in_use := True\<rparr>],
                sp_total_created := sp_total_created p + 1, sp_total_acquired := sp_total_acquired p + 1\<rparr>)
      else hm_get (cp_pools s) url')"
  "cp_config (fst (get_phase2 now i c url s)) = cp_config s"
  by (simp_all add: get_phase2_def add_in_use_def Let_def)

lemma get_phase2_limit:
  assumes "within_limit s"
    and "hm_get (cp_pools s) url = None \<or>
      (\<exists>p. hm_get (cp_pools s) url = Some p \<and> sp_total_connections p < po_max_connections (cp_config s))"
  shows "within_limit (fst (get_phase2 now i c url s))"
  using assms by (auto simp: within_limit_def get_phase2_pool sp_total_connections_def server_pool_new_def Let_def
      split: if_splits)

lemma get_with_config_limit:
  assumes "within_limit s"
  shows "within_limit (fst (get_with_config alive now i (Ok c) (\<lambda>s. s) [] url s))"
proof -
  obtain s1 a where r: "get_phase1 alive now url s = (s1, a)" by (cases "get_phase1 alive now url s")
  have s1: "within_limit s1" and cfg: "cp_config s1 = cp_config s"
    using get_phase1_change [of url s alive now] pool_change_limit [OF _ assms] r
    by (auto simp: pool_change_def)
  show ?thesis
  proof (cases a)
    case CanCreate
    with r s1 cfg get_phase1_CanCreate [of alive now url s]
    have "within_limit (fst (get_phase2 now i c url s1))" by (intro get_phase2_limit) auto
    with CanCreate r show ?thesis by (simp add: get_with_config_def case_prod_beta)
  qed (use r s1 in \<open>simp_all add: get_with_config_def\<close>)
qed

lemma cleanup_limit: "within_limit s \<Longrightarrow> within_limit (fst (cleanup alive now s))"
proof -
  assume *: "within_limit s"
  have le: "sp_total_connections (fst (server_cleanup alive now d p)) \<le> sp_total_connections p"
    for d and p :: "'a server_pool"
    by (simp add: server_cleanup_def Let_def sp_total_connections_def)
  have cfg: "cp_config (fst (cleanup alive now s)) = cp_config s"
    by (simp add: cleanup_def Let_def)
  show ?thesis
    using * unfolding within_limit_def get_cleanup cfg by (auto intro: order_trans [OF le])
qed

lemma seq_step_limit: "within_limit (fst t) \<Longrightarrow> within_limit (fst (seq_step uuid e t))"
proof -
  assume within: "within_limit (fst t)"
  obtain s n where t: "t = (s, n)" by (cases t)
  obtain alive now x where e: "e = (alive, now, x)" by (cases e)
  have s: "within_limit s" using within t by simp
  show ?thesis
  proof (cases x)
    case CloseAll
    with s t e show ?thesis by (simp add: close_all_def within_limit_def)
  qed (use s t e in \<open>auto simp: get_with_config_limit intro: cleanup_limit pool_change_limit
      get_phase1_change get_phase3_change release_change close_change\<close>)
qed

interpretation pl: invariant_machine "seq_step uuid" "\<lambda>t. within_limit (fst t)" for uuid
  by unfold_locales (rule seq_step_limit)

text \<open>C12: When every call of \<^verbatim>\<open>get\<close> runs as a whole, a server never has more connections than
  \<^verbatim>\<open>max_connections\<close>, whatever else is called between them; when calls overlap, there is no bound: as many
  tasks as like can ask a new pool for a server, all be told to connect, and all their connections
  enter the pool.\<close>

theorem pool_limit:
  assumes "conn_pool_new cfg = Ok s0"
  shows "(\<forall>es. within_limit (fst (fold (seq_step uuid) es (s0, 0)))) \<and>
    snd (get_phase1 alive now url s0) = CanCreate \<and> fst (get_phase1 alive now url s0) = s0 \<and>
    (\<forall>k > 0. map_option sp_total_connections
       (hm_get (cp_pools (fst (fold (pool_step uuid) (replicate k (alive, now, Create c url)) (s0, 0)))) url) = Some k)"
proof (intro conjI allI impI)
  have s0: "s0 = \<lparr>cp_config = cfg, cp_pools = hm_empty, cp_metrics = metrics_new\<rparr>" "0 < po_max_connections cfg"
    using assms by (auto simp: conn_pool_new_def validate_def split: if_splits)
  then have "within_limit s0" by (simp add: within_limit_def)
  then show "within_limit (fst (fold (seq_step uuid) es (s0, 0)))" for es
    using pl.run_inv [of "(s0, 0)" uuid es] by simp
  show "snd (get_phase1 alive now url s0) = CanCreate" and "fst (get_phase1 alive now url s0) = s0"
    using s0 by (simp_all add: get_phase1_def)
  define total where "total s = (case hm_get (cp_pools s) url of None \<Rightarrow> 0 | Some p \<Rightarrow> sp_total_connections p)"
    for s :: "'a conn_pool"
  have "total (fst (fold (pool_step uuid) (replicate k (alive, now, Create c url)) (s, n))) = total s + k \<and>
      (0 < k \<longrightarrow> hm_get (cp_pools (fst (fold (pool_step uuid) (replicate k (alive, now, Create c url)) (s, n)))) url \<noteq> None)"
    for k s n
  proof (induction k arbitrary: s n)
    case (Suc k)
    let ?s = "fst (get_phase2 now (uuid n) c url s)"
    have "total ?s = Suc (total s)" and "hm_get (cp_pools ?s) url \<noteq> None"
      by (auto simp: total_def get_phase2_pool sp_total_connections_def server_pool_new_def Let_def
          split: option.splits)
    with Suc.IH [of ?s "Suc n"] show ?case by (cases k) simp_all
  qed simp
  note created = this [of _ s0 0]
  have "total s0 = 0" using s0 by (simp add: total_def)
  show "map_option sp_total_connections
       (hm_get (cp_pools (fst (fold (pool_step uuid) (replicate k (alive, now, Create c url)) (s0, 0)))) url) = Some k"
    if "0 < k" for k
    using created [of k] that \<open>total s0 = 0\<close> by (simp add: total_def split: option.splits)
qed

theorem pool_limit_witness:
  "\<exists>s0. conn_pool_new pool_config_default = Ok s0 \<and>
     within_limit (fst (fold (seq_step (\<lambda>k. replicate k 65))
       [((\<lambda>_. True), 0, Create () (lit ''ws'')), ((\<lambda>_. True), 1, Create () (lit ''ws''))] (s0, 0)))"
proof -
  have new: "conn_pool_new pool_config_default =
     (Ok \<lparr>cp_config = pool_config_default, cp_pools = hm_empty, cp_metrics = metrics_new\<rparr> :: unit conn_pool result)"
    by (simp add: conn_pool_new_def validate_def pool_config_default_def)
  with pool_limit [OF new, of "\<lambda>k. replicate k 65"] show ?thesis by blast
qed

section \<open>Reuse, and releasing twice\<close>

text \<open>The server of a handle has this one connection, and it is in use.\<close>

definition only_held :: "'c pooled_client \<Rightarrow> 'c conn_pool \<Rightarrow> bool" where
  "only_held h s \<longleftrightarrow>
     (case hm_get (cp_pools s) (pcl_url h) of
        None \<Rightarrow> False
      | Some p \<Rightarrow> sp_available p = [] \<and> map (handle_of (pcl_url h)) (sp_in_use p) = [h])"

lemma release_held:
  assumes "hm_get (cp_pools s) url = Some p" and "remove_by_id i (sp_in_use p) = Some (c, cs)"
    and "alive (pc_client c)" and "length (sp_available p) + length cs \<le> po_max_connections (cp_config s)"
  shows "release alive now url i s =
    set_pool url (p\<lparr>sp_in_use := cs,
      sp_available := sp_available p @ [c\<lparr>pc_in_use := False, pc_last_used := now\<rparr>],
      sp_total_released := sp_total_released p + 1\<rparr>) s"
  using assms
  by (simp add: release_def remove_in_use_def Let_def mark_used_def is_healthy_def sp_total_connections_def
      add_available_def)

lemma get_phase1_available:
  assumes "hm_get (cp_pools s) url = Some p" and "sp_available p = cs @ [c]" and "alive (pc_client c)"
  shows "get_phase1 alive now url s =
    (set_pool url (p\<lparr>sp_available := cs, sp_in_use := sp_in_use p @ [c\<lparr>pc_in_use := True, pc_last_used := now\<rparr>],
        sp_total_acquired := sp_total_acquired p + 1\<rparr>) s
      \<lparr>cp_metrics := fst (record_message_sent False now 1 (cp_metrics s))\<rparr>,
     Got (handle_of url c))"
  using assms
  by (simp add: get_phase1_def get_available_def is_healthy_def check_out_def mark_used_def add_in_use_def Let_def)

text \<open>A healthy connection that is returned while the server is within its limit is the one the
  next \<^verbatim>\<open>get\<close> hands out, without connecting again.\<close>

theorem release_then_get:
  assumes "hm_get (cp_pools s) url = Some p" and "remove_by_id i (sp_in_use p) = Some (c, cs)"
    and "alive (pc_client c)" and "length (sp_available p) + length cs \<le> po_max_connections (cp_config s)"
  shows "snd (get_with_config alive t' j attempt env turns url (release alive t url i s)) =
     Some (Ok (handle_of url c))"
  by (simp add: release_held [where p = p and c = c and cs = cs and alive = alive] assms get_with_config_def handle_of_def get_phase1_available [where c = "c\<lparr>pc_in_use := False, pc_last_used := t\<rparr>" and cs = "sp_available p"] assms(3))

definition sample_conn :: "unit pooled_connection" where
  "sample_conn = (pooled_new 0 (lit ''a'') () (lit ''ws''))\<lparr>pc_in_use := True\<rparr>"

definition sample_pool :: "unit conn_pool" where
  "sample_pool =
     \<lparr>cp_config = pool_config_default,
      cp_pools = hm_insert (lit ''ws'')
        ((server_pool_new (lit ''ws'') (client_config_new (lit ''ws'')) 10)\<lparr>sp_in_use := [sample_conn]\<rparr>) hm_empty,
      cp_metrics = metrics_new\<rparr>"

theorem release_then_get_witness:
  "snd (get_with_config (\<lambda>_. True) 5 (lit ''b'') (Ok ()) (\<lambda>s. s) [] (lit ''ws'')
     (release (\<lambda>_. True) 4 (lit ''ws'') (lit ''a'') sample_pool)) =
   Some (Ok (handle_of (lit ''ws'') sample_conn))"
  by (rule release_then_get
        [where p = "(server_pool_new (lit ''ws'') (client_config_new (lit ''ws'')) 10)\<lparr>sp_in_use := [sample_conn]\<rparr>"
           and cs = "[]"])
    (simp_all add: sample_pool_def sample_conn_def pooled_new_def server_pool_new_def pool_config_default_def
      hm.lookup_insert)

lemma release_get_again:
  assumes held: "only_held h s" and alive: "alive (pcl_client h)"
    and r: "r = get_phase1 alive t2 (pcl_url h) (release alive t1 (pcl_url h) (pcl_connection_id h) s)"
  shows "snd r = Got h" and "only_held h (fst r)"
proof -
  let ?url = "pcl_url h"
  obtain p c where p: "hm_get (cp_pools s) ?url = Some p" "sp_available p = []" "sp_in_use p = [c]"
      and h: "handle_of ?url c = h"
    using held by (auto simp: only_held_def split: option.splits)
  then have id: "pcl_connection_id h = pc_id c" and alive_c: "alive (pc_client c)"
    using alive by (cases h; simp add: handle_of_def)+
  let ?p1 = "p\<lparr>sp_in_use := [], sp_available := [c\<lparr>pc_in_use := False, pc_last_used := t1\<rparr>],
      sp_total_released := sp_total_released p + 1\<rparr>"
  have rel: "release alive t1 ?url (pc_id c) s = set_pool ?url ?p1 s"
    using release_held [where s = s and url = ?url and p = p and i = "pc_id c" and c = c and cs = "[]"
        and alive = alive and now = t1] p alive_c by simp
  have "r = (set_pool ?url (?p1\<lparr>sp_available := [], sp_in_use := [c\<lparr>pc_in_use := True, pc_last_used := t2\<rparr>],
        sp_total_acquired := sp_total_acquired p + 1\<rparr>) (set_pool ?url ?p1 s)
        \<lparr>cp_metrics := fst (record_message_sent False t2 1 (cp_metrics s))\<rparr>, Got h)"
    using get_phase1_available [where s = "set_pool ?url ?p1 s" and url = ?url and p = ?p1 and cs = "[]"
        and c = "c\<lparr>pc_in_use := False, pc_last_used := t1\<rparr>" and alive = alive and now = t2] alive_c h
    by (simp add: r id rel handle_of_def set_pool_def)
  then show "snd r = Got h" and "only_held h (fst r)"
    using h by (simp_all add: only_held_def handle_of_def)
qed

text \<open>C17: Returning a handle explicitly releases it twice, because it is dropped afterwards. When
  another task takes the connection in between, the second release takes it away from that
  task: a third task is handed the very same connection while the second still uses it.\<close>

theorem double_release:
  assumes "only_held h s" and "alive (pcl_client h)"
  shows "snd (get_phase1 alive t2 (pcl_url h) (release alive t1 (pcl_url h) (pcl_connection_id h) s)) = Got h \<and>
    snd (get_phase1 alive t4 (pcl_url h)
       (handle_release alive t1 (\<lambda>s. fst (get_phase1 alive t2 (pcl_url h) s)) h s)) = Got h"
  unfolding handle_release_def handle_drop_def
  using release_get_again [where h = h and alive = alive] assms by blast

theorem double_release_witness:
  "snd (get_phase1 (\<lambda>_. True) 4 (lit ''ws'')
     (handle_release (\<lambda>_. True) 1 (\<lambda>s. fst (get_phase1 (\<lambda>_. True) 2 (lit ''ws'') s))
        (handle_of (lit ''ws'') sample_conn) sample_pool)) = Got (handle_of (lit ''ws'') sample_conn)"
  using double_release [of "handle_of (lit ''ws'') sample_conn" sample_pool "\<lambda>_. True" 2 1 4]
  by (simp add: only_held_def handle_of_def sample_pool_def hm.lookup_insert server_pool_new_def)

section \<open>Cleanup\<close>

text \<open>A cleanup, and so each tick of the health check, removes from every server exactly the
  available connections that are idle or unhealthy, keeps the others in order and all that are
  in use, and reports their number; a second cleanup at the same time removes nothing. The
  count of created connections is not lowered, although every other way of losing one does.\<close>

theorem cleanup_exact:
  "hm_get (cp_pools (fst (cleanup alive now s))) url =
     map_option (\<lambda>p. p\<lparr>sp_available := filter (\<lambda>c. pc_in_use c \<or>
          elapsed now (pc_last_used c) \<le> po_idle_timeout (cp_config s) \<and> alive (pc_client c)) (sp_available p)\<rparr>)
       (hm_get (cp_pools s) url) \<and>
   ps_total_connections (stats (fst (cleanup alive now s))) + cs_connections_removed (snd (cleanup alive now s)) =
     ps_total_connections (stats s) \<and>
   ps_total_created (stats (fst (cleanup alive now s))) = ps_total_created (stats s) \<and>
   cs_connections_removed (snd (cleanup alive now (fst (cleanup alive now s)))) = 0"
proof (intro conjI)
  let ?d = "po_idle_timeout (cp_config s)"
  let ?step = "server_cleanup alive now ?d"
  have evict: "should_evict alive now ?d c \<longleftrightarrow> \<not> (pc_in_use c \<or>
      elapsed now (pc_last_used c) \<le> ?d \<and> alive (pc_client c))" for c
    by (auto simp: should_evict_def conn_is_idle_def is_healthy_def)
  show "hm_get (cp_pools (fst (cleanup alive now s))) url =
     map_option (\<lambda>p. p\<lparr>sp_available := filter (\<lambda>c. pc_in_use c \<or>
          elapsed now (pc_last_used c) \<le> ?d \<and> alive (pc_client c)) (sp_available p)\<rparr>)
       (hm_get (cp_pools s) url)"
    unfolding get_cleanup by (simp add: server_cleanup_def Let_def evict)
  define ps where "ps = hm_values (cp_pools s)"
  have vals: "hm_values (cp_pools (fst (cleanup alive now s))) = map (\<lambda>p. fst (?step p)) ps"
    and removed: "cs_connections_removed (snd (cleanup alive now s)) = sum_list (map (\<lambda>p. snd (?step p)) ps)"
    and cfg: "cp_config (fst (cleanup alive now s)) = cp_config s"
    by (simp_all add: cleanup_def Let_def hm_values_def ps_def case_prod_beta comp_def)
  have total: "ps_total_connections (stats x) =
      sum_list (map (\<lambda>p. length (sp_available p) + length (sp_in_use p)) (hm_values (cp_pools x)))" for x :: "'a conn_pool"
    by (simp add: stats_def Let_def sum_list_addf comp_def)
  have one: "length (sp_available (fst (?step p))) + snd (?step p) = length (sp_available p)"
      "sp_in_use (fst (?step p)) = sp_in_use p" for p
    by (simp_all add: server_cleanup_def Let_def)
  have "sum_list (map (\<lambda>p. length (sp_available (fst (?step p))) + length (sp_in_use (fst (?step p)))) qs) +
      sum_list (map (\<lambda>p. snd (?step p)) qs) =
      sum_list (map (\<lambda>p. length (sp_available p) + length (sp_in_use p)) qs)" for qs
  proof (induction qs)
    case (Cons q qs)
    with one [of q] show ?case by simp
  qed simp
  then show "ps_total_connections (stats (fst (cleanup alive now s))) + cs_connections_removed (snd (cleanup alive now s)) =
     ps_total_connections (stats s)"
    unfolding total vals removed ps_def [symmetric] by (simp add: comp_def)
  show "ps_total_created (stats (fst (cleanup alive now s))) = ps_total_created (stats s)"
    using vals by (simp add: stats_def Let_def ps_def comp_def server_cleanup_def)
  have "snd (?step (fst (?step p))) = 0" for p by (simp add: server_cleanup_def Let_def)
  then show "cs_connections_removed (snd (cleanup alive now (fst (cleanup alive now s)))) = 0"
    by (subst cleanup_def) (simp add: Let_def vals cfg comp_def)
qed

section \<open>Waiting ends\<close>

lemma wait_loop_ends:
  assumes "\<And>t al e s. (t, al, e) \<in> set turns \<Longrightarrow> cp_config (e s) = cp_config s"
    and "(t, al, e) \<in> set turns" and "po_acquire_timeout (cp_config s) \<le> elapsed t start"
  shows "\<exists>r. snd (wait_loop start url turns s) = Some r \<and> (case r of Inl e \<Rightarrow> e = Timeout | Inr _ \<Rightarrow> True)"
  using assms
proof (induction start url turns s rule: wait_loop.induct)
  case (2 start url now alive env turns s)
  show ?case
  proof (cases "po_acquire_timeout (cp_config s) \<le> elapsed now start")
    case False
    then have t: "(t, al, e) \<in> set turns" using "2.prems" by auto
    obtain s1 h where g: "get_phase3 alive now url (env s) = (s1, h)" by (cases "get_phase3 alive now url (env s)")
    then have "cp_config s1 = cp_config s"
      using get_phase3_change [of url "env s" alive now] "2.prems"(1) [of now alive env s]
      by (simp add: pool_change_def)
    moreover have "cp_config (e s) = cp_config s" if "(t, al, e) \<in> set turns" for t al e s
      by (rule "2.prems"(1) [of t al]) (use that in simp)
    ultimately show ?thesis using "2.IH" [OF False g [symmetric]] "2.prems"(3) t g False by (cases h) auto
  qed simp
qed simp

text \<open>C35: A call of \<^verbatim>\<open>get\<close> that must wait does not wait for ever: at the first turn whose clock is
  \<^verbatim>\<open>acquire_timeout\<close> past the start it has returned, with a connection or with \<^verbatim>\<open>Timeout\<close>; the
  only other error is that of its own attempt to connect. The clients that are connected may change from
  turn to turn, and the other tasks may do anything to the pool but change its configuration.\<close>

theorem get_returns:
  assumes "\<And>t al e s. (t, al, e) \<in> set turns \<Longrightarrow> cp_config (e s) = cp_config s"
    and "(t, al, e) \<in> set turns" and "po_acquire_timeout (cp_config s) \<le> elapsed t now"
  shows "\<exists>r. snd (get_with_config alive now i attempt env turns url s) = Some r \<and>
     (case r of Inl e \<Rightarrow> e = Timeout \<or> attempt = Inl e | Inr _ \<Rightarrow> True)"
proof -
  obtain s1 a where g: "get_phase1 alive now url s = (s1, a)" by (cases "get_phase1 alive now url s")
  then have "cp_config s1 = cp_config s"
    using get_phase1_change [of url s alive now] by (simp add: pool_change_def)
  then have "\<exists>r. snd (wait_loop now url turns s1) = Some r \<and> (case r of Inl e \<Rightarrow> e = Timeout | Inr _ \<Rightarrow> True)"
    using assms by (intro wait_loop_ends) auto
  with g show ?thesis
    by (cases a; cases attempt) (auto simp: get_with_config_def case_prod_beta split: sum.splits)
qed

theorem get_returns_witness:
  "\<exists>r. snd (get_with_config (\<lambda>_. True) 0 (lit ''b'') (Ok ()) (\<lambda>s. s) [(secs 1, \<lambda>_. True, \<lambda>s. s), (secs 6, \<lambda>_. False, \<lambda>s. s)]
     (lit ''ws'') sample_pool) = Some r \<and>
     (case r of Inl e \<Rightarrow> e = Timeout \<or> (Ok () :: unit result) = Inl e | Inr _ \<Rightarrow> True)"
  by (rule get_returns [where t = "secs 6" and al = "\<lambda>_. False" and e = "\<lambda>s. s"])
    (auto simp: sample_pool_def pool_config_default_def elapsed_def)

end
