(* ===== verification/Transport.thy ===== *)
theory Transport
  imports Messages Heartbeat Metrics Backpressure
begin

text \<open>
  What the connection tasks of client and server share: the messages of \<^verbatim>\<open>tungstenite\<close> as far
  as the crate distinguishes them, the conversion of the crate's messages to them (the same
  \<^verbatim>\<open>match\<close> in \<^verbatim>\<open>src/src/client.rs\<close> and \<^verbatim>\<open>src/src/server.rs\<close>), the capacity of the channels,
  and what became of a spawned task.
\<close>

datatype tungstenite =
    TText rstr
  | TBinary bytes
  | TPing bytes
  | TPong bytes
  | TClose "(u16 \<times> rstr) option"
  | TFrame

definition to_tungstenite :: "message \<Rightarrow> tungstenite result" where
  "to_tungstenite m =
     (case msg_type m of
        Text \<Rightarrow> try_then (as_text m) (\<lambda>s. Ok (TText s))
      | Binary \<Rightarrow> Ok (TBinary (payload m))
      | Ping \<Rightarrow> Ok (TPing (payload m))
      | Pong \<Rightarrow> Ok (TPong (payload m))
      | Close \<Rightarrow> Ok (TClose None)
      | Continuation \<Rightarrow> Ok (TBinary (payload m)))"

text \<open>\<^verbatim>\<open>msg.len()\<close> as the counters take it.\<close>

definition msg_size :: "message \<Rightarrow> u64" where
  "msg_size m = of_nat (message_len m)"

text \<open>\<^verbatim>\<open>tokio::sync::mpsc::channel\<close> panics on a capacity of zero or above \<^verbatim>\<open>Semaphore::MAX_PERMITS\<close>,
  the largest \<^verbatim>\<open>usize\<close> shifted right by three.\<close>

definition channel_ok :: "usize \<Rightarrow> bool" where
  "channel_ok n \<longleftrightarrow> 0 < unat n \<and> unat n \<le> 2 ^ 61 - 1"

datatype task = Running | Returned "unit result" | Died

lemma to_tungstenite_total:
  "msg_type m \<noteq> Text \<Longrightarrow> \<exists>t. to_tungstenite m = Ok t"
  by (cases "msg_type m") (simp_all add: to_tungstenite_def)

lemma to_tungstenite_text: "str_ok s \<Longrightarrow> to_tungstenite (message_text s) = Ok (TText s)"
  using as_text_message_text [of s] by (simp add: to_tungstenite_def message_text_def)

lemma to_tungstenite_ping: "to_tungstenite (message_ping b) = Ok (TPing b)"
  by (simp add: to_tungstenite_def message_ping_def)

lemma to_tungstenite_close: "to_tungstenite (message_close c r) = Ok (TClose None)"
  by (simp add: to_tungstenite_def message_close_def)

section \<open>Data\<close>

definition carries_data :: "message \<Rightarrow> bool" where
  "carries_data m \<longleftrightarrow> msg_type m \<in> {Text, Binary, Continuation}"

definition is_payload :: "tungstenite \<Rightarrow> bool" where
  "is_payload t = (case t of TText s \<Rightarrow> True | TBinary b \<Rightarrow> True | _ \<Rightarrow> False)"

lemma payload_of_data: "to_tungstenite m = Ok t \<Longrightarrow> is_payload t = carries_data m"
  by (cases "msg_type m") (auto simp: to_tungstenite_def is_payload_def carries_data_def try_then_Ok_iff)

lemma payloads_of_data:
  "map to_tungstenite ms = map Ok ts \<Longrightarrow>
     map to_tungstenite (filter carries_data ms) = map Ok (filter is_payload ts)"
  by (induction ms arbitrary: ts) (auto simp: payload_of_data split: list.splits)

section \<open>Endpoints as queues\<close>

text \<open>What a run adds to a channel and what it puts on the wire, step by step.\<close>

fun history :: "('e \<Rightarrow> 's \<Rightarrow> 's) \<Rightarrow> ('e \<Rightarrow> 's \<Rightarrow> 'a list) \<Rightarrow> ('e \<Rightarrow> 's \<Rightarrow> 'b list) \<Rightarrow> 'e list \<Rightarrow> 's \<Rightarrow> 'a list \<times> 'b list" where
  "history step ins outs [] s = ([], [])"
| "history step ins outs (e # es) s =
     (case history step ins outs es (step e s) of (xs, ys) \<Rightarrow> (ins e s @ xs, outs e s @ ys))"

text \<open>Two kinds of output of the same steps, in the order in which they are made, are an interleaving of the
  two.\<close>

lemma shuffles_append: "x \<in> shuffles ts ps \<Longrightarrow> as @ bs @ x \<in> shuffles (as @ ts) (bs @ ps)"
  by (induction as) (induction bs; simp add: Cons_in_shuffles_leftI Cons_in_shuffles_rightI)+

lemma history_shuffle:
  "history step ins (\<lambda>e s. f e s @ g e s) es s = (ms, wire) \<Longrightarrow>
     \<exists>ts ps. history step ins f es s = (ms, ts) \<and> history step ins g es s = (ms, ps) \<and> wire \<in> shuffles ts ps"
proof (induction es arbitrary: s ms wire)
  case (Cons e es)
  obtain ms' wire' where tl: "history step ins (\<lambda>e s. f e s @ g e s) es (step e s) = (ms', wire')"
    by (cases "history step ins (\<lambda>e s. f e s @ g e s) es (step e s)")
  with Cons.prems have "ms = ins e s @ ms'" and "wire = f e s @ g e s @ wire'" by auto
  with Cons.IH [OF tl] shuffles_append show ?case by fastforce
qed simp

text \<open>What a step appends to a queue.\<close>

definition appended :: "('s \<Rightarrow> 'a list) \<Rightarrow> ('e \<Rightarrow> 's \<Rightarrow> 's) \<Rightarrow> 'e \<Rightarrow> 's \<Rightarrow> 'a list" where
  "appended queue step e s = drop (length (queue s)) (queue (step e s))"

text \<open>What was accepted is what was written, then what the channel holds while the task is up.\<close>

definition in_order :: "message list \<Rightarrow> tungstenite list \<Rightarrow> bool \<Rightarrow> message list \<Rightarrow> bool" where
  "in_order accepted wire up held \<longleftrightarrow>
     (\<exists>sent rest. accepted = sent @ rest \<and> map to_tungstenite sent = map Ok wire \<and> (up \<longrightarrow> rest = held))"

lemma in_order_empty [simp]: "in_order [] [] up []"
  by (simp add: in_order_def)

text \<open>
  The contract of a connection task that owns a channel, for the events it admits: a dead
  task stays dead and silent; a step of a living one appends to the queue, or moves its first
  message, converted, to the wire, or drops it and dies.
\<close>

locale fifo_channel =
  fixes step :: "'e \<Rightarrow> 's \<Rightarrow> 's"
    and queue :: "'s \<Rightarrow> message list"
    and alive :: "'s \<Rightarrow> bool"
    and written :: "'e \<Rightarrow> 's \<Rightarrow> tungstenite list"
    and admitted :: "'e \<Rightarrow> bool"
  assumes dead: "admitted e \<Longrightarrow> \<not> alive s \<Longrightarrow> \<not> alive (step e s) \<and> written e s = []"
    and living: "admitted e \<Longrightarrow> alive s \<Longrightarrow>
      (\<exists>new. queue (step e s) = queue s @ new \<and> written e s = []) \<or>
      (\<exists>m t. queue s = m # queue (step e s) \<and> to_tungstenite m = Ok t \<and> written e s = [t]) \<or>
      (\<exists>m. queue s = m # queue (step e s) \<and> written e s = [] \<and> \<not> alive (step e s))"
begin

lemma in_order_step:
  assumes "in_order accepted wire (alive s) (queue s)" and "admitted e"
  shows "in_order (accepted @ appended queue step e s) (wire @ written e s) (alive (step e s)) (queue (step e s))"
proof -
  obtain sent rest where *: "accepted = sent @ rest" "map to_tungstenite sent = map Ok wire" "alive s \<longrightarrow> rest = queue s"
    using assms(1) by (auto simp: in_order_def)
  show ?thesis
  proof (cases "alive s")
    case False
    with dead [OF assms(2) this] * show ?thesis
      unfolding in_order_def by (intro exI [of _ sent] exI [of _ "rest @ appended queue step e s"]) simp
  next
    case True
    from living [OF assms(2) True] show ?thesis
    proof (elim disjE exE conjE)
      fix new assume "queue (step e s) = queue s @ new" "written e s = []"
      with * True show ?thesis
        unfolding in_order_def appended_def by (intro exI [of _ sent] exI [of _ "rest @ new"]) simp
    next
      fix m t assume "queue s = m # queue (step e s)" "to_tungstenite m = Ok t" "written e s = [t]"
      with * True show ?thesis
        unfolding in_order_def appended_def by (intro exI [of _ "sent @ [m]"] exI [of _ "queue (step e s)"]) simp
    next
      fix m assume "queue s = m # queue (step e s)" "written e s = []" "\<not> alive (step e s)"
      with * True show ?thesis
        unfolding in_order_def appended_def by (intro exI [of _ sent] exI [of _ rest]) simp
    qed
  qed
qed

lemma in_order_run:
  assumes "in_order accepted wire (alive s) (queue s)" and "\<forall>e \<in> set es. admitted e"
    and "history step (appended queue step) written es s = (ms, ts)"
  shows "in_order (accepted @ ms) (wire @ ts) (alive (fold step es s)) (queue (fold step es s))"
  using assms
proof (induction es arbitrary: s accepted wire ms ts)
  case (Cons e es)
  obtain ms' ts' where tl: "history step (appended queue step) written es (step e s) = (ms', ts')"
    by (cases "history step (appended queue step) written es (step e s)")
  with Cons.prems(3) have "ms = appended queue step e s @ ms'" and "ts = written e s @ ts'" by auto
  with Cons.IH [OF in_order_step [OF Cons.prems(1)] _ tl] Cons.prems(2) show ?case by simp
qed simp

lemma fifo:
  assumes "queue s = []" and "\<forall>e \<in> set es. admitted e"
    and "history step (appended queue step) written es s = (ms, ts)"
  shows "\<exists>sent rest. ms = sent @ rest \<and> map to_tungstenite sent = map Ok ts \<and>
    (alive (fold step es s) \<longrightarrow> rest = queue (fold step es s))"
  using in_order_run [of "[]" "[]" s, OF _ assms(2,3)] assms(1) by (simp add: in_order_def)

end

end
