(* ===== verification/Client.thy ===== *)
theory Client
  imports Transport Config Reconnect
begin

text \<open>
  \<^verbatim>\<open>src/src/client.rs\<close>: the client, whose handle and whose two spawned tasks share one state.
  The network is a parameter: the answers of \<^verbatim>\<open>connect_async\<close>, of \<^verbatim>\<open>ws_stream.send\<close> (the error,
  if any) and of \<^verbatim>\<open>ws_stream.next\<close> are arguments of the steps. A \<open>select!\<close> of the connection
  task takes one branch: \<open>run_outgoing\<close> or \<open>run_incoming\<close>.
\<close>

section \<open>State\<close>

text \<open>\<open>wc_tx\<close> tells whether the sender is there, \<open>wc_queue\<close> is what the channel holds and \<open>wc_task\<close>
  what became of the connection task, which owns the receiver.\<close>

record ws_client =
  wc_config :: client_config
  wc_connected :: bool
  wc_shutdown :: bool
  wc_tx :: bool
  wc_queue :: "message list"
  wc_task :: task
  wc_metrics :: metrics
  wc_heartbeat :: heartbeat
  wc_backpressure :: backpressure
  wc_reconnect :: reconnect_state

abbreviation on_metrics :: "(metrics, 'a) op \<Rightarrow> (ws_client, 'a) op" where
  "on_metrics \<equiv> op_on wc_metrics wc_metrics_update"

abbreviation on_heartbeat :: "(heartbeat, 'a) op \<Rightarrow> (ws_client, 'a) op" where
  "on_heartbeat \<equiv> op_on wc_heartbeat wc_heartbeat_update"

abbreviation on_backpressure :: "(backpressure, 'a) op \<Rightarrow> (ws_client, 'a) op" where
  "on_backpressure \<equiv> op_on wc_backpressure wc_backpressure_update"

section \<open>Connecting\<close>

definition client_fresh :: "client_config \<Rightarrow> ws_client" where
  "client_fresh cfg =
     \<lparr>wc_config = cfg, wc_connected = True, wc_shutdown = False, wc_tx = True, wc_queue = [],
      wc_task = Running, wc_metrics = metrics_new,
      wc_heartbeat = heartbeat_new (cl_heartbeat_config cfg),
      wc_backpressure = backpressure_new (cl_backpressure_config cfg),
      wc_reconnect = reconnect_new (cl_reconnect_config cfg)\<rparr>"

definition connect_with_config ::
  "bool \<Rightarrow> instant \<Rightarrow> rstr option \<Rightarrow> client_config \<Rightarrow> ws_client result outcome" where
  "connect_with_config ck now failed cfg =
     (case failed of
        Some e \<Rightarrow> Ret (Err (ConnectionFailed (lit ''Failed to connect to '' @ cl_url cfg @ lit '': '' @ e)))
      | None \<Rightarrow>
          if channel_ok (bc_max_buffer_size (cl_backpressure_config cfg))
          then (case on_metrics (record_connection ck now) (client_fresh cfg) of
                  (c, Ret u) \<Rightarrow> Ret (Ok c)
                | (c, Panic) \<Rightarrow> Panic)
          else Panic)"

definition client_connect :: "bool \<Rightarrow> instant \<Rightarrow> rstr option \<Rightarrow> rstr \<Rightarrow> ws_client result outcome" where
  "client_connect ck now failed url = connect_with_config ck now failed (client_config_new url)"

definition is_connected :: "ws_client \<Rightarrow> bool" where
  "is_connected c \<longleftrightarrow> wc_connected c \<and> \<not> wc_shutdown c"

section \<open>Sending\<close>

text \<open>The checks before a message is queued.\<close>

definition send_check :: "ws_client \<Rightarrow> unit result" where
  "send_check c =
     (if \<not> can_send (wc_backpressure c) then Err BufferFull
      else if \<not> wc_tx c then Err ConnectionClosed
      else Ok ())"

text \<open>Queueing and recording: \<open>None\<close> is a send that waits for room in the channel.\<close>

definition send_enqueue :: "bool \<Rightarrow> instant \<Rightarrow> message \<Rightarrow> (ws_client, unit result option) op" where
  "send_enqueue ck now m c =
     (if wc_task c \<noteq> Running then (c, Ret (Some (Err ConnectionClosed)))
      else if unat (bc_max_buffer_size (cl_backpressure_config (wc_config c))) \<le> length (wc_queue c)
        then (c, Ret None)
      else
        op_then (op_update (\<lambda>c. c\<lparr>wc_queue := wc_queue c @ [m]\<rparr>)) (\<lambda>_.
        op_then (on_metrics (record_message_sent ck now (msg_size m))) (\<lambda>_.
        op_then (on_backpressure (record_send ck (msg_size m))) (\<lambda>_.
        op_return (Some (Ok ()))))) c)"

definition client_send :: "bool \<Rightarrow> instant \<Rightarrow> message \<Rightarrow> (ws_client, unit result option) op" where
  "client_send ck now m c =
     (case send_check c of
        Inl e \<Rightarrow> (c, Ret (Some (Err e)))
      | Inr u \<Rightarrow> send_enqueue ck now m c)"

definition client_send_text :: "bool \<Rightarrow> instant \<Rightarrow> rstr \<Rightarrow> (ws_client, unit result option) op" where
  "client_send_text ck now s = client_send ck now (message_text s)"

definition client_send_binary :: "bool \<Rightarrow> instant \<Rightarrow> bytes \<Rightarrow> (ws_client, unit result option) op" where
  "client_send_binary ck now b = client_send ck now (message_binary b)"

text \<open>\<^verbatim>\<open>recv\<close> sleeps 100 ms and answers that there is no message.\<close>

definition client_recv :: "ws_client \<Rightarrow> message option result" where
  "client_recv c = Ok None"

definition close_message :: "rstr option \<Rightarrow> message" where
  "close_message reason =
     (case reason of
        Some r \<Rightarrow> message_close (Some 1000) (Some r)
      | None \<Rightarrow> message_close None None)"

text \<open>What \<^verbatim>\<open>close\<close> does with the answer of its send.\<close>

definition close_after :: "bool \<Rightarrow> instant \<Rightarrow> unit result option \<Rightarrow> (ws_client, unit result option) op" where
  "close_after ck now r =
     (case r of
        None \<Rightarrow> op_return None
      | Some (Inl e) \<Rightarrow> op_return (Some (Err e))
      | Some (Inr u) \<Rightarrow>
          op_then (op_update (\<lambda>c. c\<lparr>wc_shutdown := True, wc_connected := False\<rparr>)) (\<lambda>_.
          op_then (on_metrics (record_disconnection ck now)) (\<lambda>_.
          op_return (Some (Ok ())))))"

definition client_close :: "bool \<Rightarrow> instant \<Rightarrow> rstr option \<Rightarrow> (ws_client, unit result option) op" where
  "client_close ck now reason = op_then (client_send ck now (close_message reason)) (close_after ck now)"

section \<open>The connection task\<close>

text \<open>One message of the channel: what goes to the wire and what becomes of the task. With an
  empty channel the branch is taken only when every sender is gone.\<close>

definition run_outgoing :: "bool \<Rightarrow> rstr option \<Rightarrow> (ws_client, tungstenite option \<times> task) op" where
  "run_outgoing ck failed c =
     (case wc_queue c of
        [] \<Rightarrow> (c, Ret (None, if wc_tx c then Running else Returned (Ok ())))
      | m # ms \<Rightarrow>
          (case to_tungstenite m of
             Inl e \<Rightarrow> (c\<lparr>wc_queue := ms\<rparr>, Ret (None, Returned (Err e)))
           | Inr t \<Rightarrow>
               (case failed of
                  Some e \<Rightarrow> (c\<lparr>wc_queue := ms\<rparr>,
                             Ret (None, Returned (Err (ConnectionFailed (lit ''Send error: '' @ e)))))
                | None \<Rightarrow>
                    op_then (on_backpressure (record_send ck (msg_size m))) (\<lambda>_.
                    op_return (Some t, Running)) (c\<lparr>wc_queue := ms\<rparr>))))"

definition run_received :: "bool \<Rightarrow> instant \<Rightarrow> message \<Rightarrow> (ws_client, tungstenite option \<times> task) op" where
  "run_received ck now m =
     op_then (on_metrics (record_message_received ck now (msg_size m))) (\<lambda>_.
     op_then (op_update (\<lambda>c. c\<lparr>wc_backpressure := record_recv (msg_size m) (wc_backpressure c)\<rparr>)) (\<lambda>_.
     op_return (None, Running)))"

text \<open>One item of the stream, an error of the stream on the left.\<close>

definition run_incoming ::
  "bool \<Rightarrow> instant \<Rightarrow> rstr + tungstenite \<Rightarrow> (ws_client, tungstenite option \<times> task) op" where
  "run_incoming ck now item =
     (case item of
        Inr (TText s) \<Rightarrow> run_received ck now (message_text s)
      | Inr (TBinary b) \<Rightarrow> run_received ck now (message_binary b)
      | Inr (TPing b) \<Rightarrow> op_return (Some (TPong (payload (handle_ping b))), Running)
      | Inr (TPong b) \<Rightarrow> op_then (on_heartbeat (handle_pong ck now b)) (\<lambda>_. op_return (None, Running))
      | Inr (TClose _) \<Rightarrow>
          op_then (on_metrics (record_disconnection ck now)) (\<lambda>_. op_return (None, Returned (Ok ())))
      | Inr TFrame \<Rightarrow> op_return (None, Running)
      | Inl e \<Rightarrow>
          op_then (on_metrics (record_receive_error ck)) (\<lambda>_. op_return (None, Returned (Err (WebSocket e)))))"

section \<open>The heartbeat task\<close>

text \<open>One tick of the timer: whether the task goes on. An error of the send is only logged.\<close>

definition heartbeat_tick :: "bool \<Rightarrow> instant \<Rightarrow> (ws_client, bool) op" where
  "heartbeat_tick ck now c =
     (if \<not> is_connected c then (c, Ret False)
      else
        op_then (on_heartbeat (ping ck now)) (\<lambda>m.
        op_then (client_send ck now m) (\<lambda>_. op_return True)) c)"

text \<open>The task, each turn with the clock and what the others did since the last one; the answer is
  \<open>None\<close> while it runs.\<close>

fun heartbeat_loop :: "bool \<Rightarrow> (instant \<times> (ws_client \<Rightarrow> ws_client)) list \<Rightarrow> (ws_client, unit result option) op" where
  "heartbeat_loop ck [] c = (c, Ret None)"
| "heartbeat_loop ck ((now, env) # turns) c =
     (case heartbeat_tick ck now (env c) of
        (c1, Panic) \<Rightarrow> (c1, Panic)
      | (c1, Ret False) \<Rightarrow> (c1, Ret (Some (Ok ())))
      | (c1, Ret True) \<Rightarrow> heartbeat_loop ck turns c1)"

definition run_heartbeat :: "bool \<Rightarrow> (instant \<times> (ws_client \<Rightarrow> ws_client)) list \<Rightarrow> (ws_client, unit result option) op" where
  "run_heartbeat ck turns c =
     (if \<not> hb_is_enabled (wc_heartbeat c) then (c, Ret (Some (Ok ())))
      else
        (case ping_interval (wc_heartbeat c) of
           Inl e \<Rightarrow> (c, Ret (Some (Err e)))
         | Inr d \<Rightarrow> heartbeat_loop ck turns c))"

section \<open>Traces\<close>

datatype client_event =
    Sends message
  | Closes "rstr option"
  | Resumes message
  | ResumesClose "rstr option"
  | Writes "rstr option"
  | Arrives "rstr + tungstenite"
  | Ticks

text \<open>\<open>Resumes\<close> and \<open>ResumesClose\<close> are a send and a close that waited for room in the channel and try
  again. A close whose message is queued marks the client as shut down in the same step, which is coarser
  than the code, where other tasks can run between the two. A turn of the connection task, which drops its receiver when it ends.\<close>

definition task_turn :: "(ws_client, tungstenite option \<times> task) op \<Rightarrow> ws_client \<Rightarrow> ws_client" where
  "task_turn f c =
     (if wc_task c \<noteq> Running then c
      else (case f c of
              (c1, Ret (out, t)) \<Rightarrow> c1\<lparr>wc_task := t\<rparr>
            | (c1, Panic) \<Rightarrow> c1\<lparr>wc_task := Died\<rparr>))"

fun client_step :: "bool \<Rightarrow> instant \<times> client_event \<Rightarrow> ws_client \<Rightarrow> ws_client" where
  "client_step ck (now, Sends m) c = fst (client_send ck now m c)"
| "client_step ck (now, Closes r) c = fst (client_close ck now r c)"
| "client_step ck (now, Resumes m) c = fst (send_enqueue ck now m c)"
| "client_step ck (now, ResumesClose r) c =
     fst (op_then (send_enqueue ck now (close_message r)) (close_after ck now) c)"
| "client_step ck (now, Writes failed) c = task_turn (run_outgoing ck failed) c"
| "client_step ck (now, Arrives item) c = task_turn (run_incoming ck now item) c"
| "client_step ck (now, Ticks) c = fst (heartbeat_tick ck now c)"

section \<open>Lemmas\<close>

text \<open>What each step can do to the fields the properties speak about.\<close>

lemma record_send_config [simp]: "bp_config (fst (record_send ck n b)) = bp_config b"
  using record_send_cases [of ck n b] by auto

lemma send_refused:
  "\<not> can_send (wc_backpressure c) \<Longrightarrow> client_send ck now m c = (c, Ret (Some (Err BufferFull)))"
  by (simp add: client_send_def send_check_def)

lemma send_dead:
  "wc_task c \<noteq> Running \<Longrightarrow> \<exists>e \<in> {BufferFull, ConnectionClosed}. client_send ck now m c = (c, Ret (Some (Err e)))"
  by (simp add: client_send_def send_check_def send_enqueue_def)

lemma close_refused:
  "client_send ck now (close_message r) c = (c, Ret (Some (Err e))) \<Longrightarrow>
     client_close ck now r c = (c, Ret (Some (Err e)))"
  by (simp add: client_close_def close_after_def op_then_def op_return_def)

lemma tick_refused:
  assumes "\<And>m c'. wc_task c' = wc_task c \<Longrightarrow> wc_backpressure c' = wc_backpressure c \<Longrightarrow>
     fst (client_send ck now m c') = c'"
  shows "\<exists>h. fst (heartbeat_tick ck now c) = c\<lparr>wc_heartbeat := h\<rparr>"
proof -
  have "\<exists>h. c = c\<lparr>wc_heartbeat := h\<rparr>" by (rule exI [of _ "wc_heartbeat c"]) simp
  with assms show ?thesis
    by (auto simp: heartbeat_tick_def op_then_fst op_on_fst op_return_def split: outcome.splits)
qed

lemma run_incoming_keeps:
  "wc_queue (fst (run_incoming ck now item c)) = wc_queue c"
  "wc_connected (fst (run_incoming ck now item c)) = wc_connected c"
  "wc_shutdown (fst (run_incoming ck now item c)) = wc_shutdown c"
  "bp_config (wc_backpressure (fst (run_incoming ck now item c))) = bp_config (wc_backpressure c)"
  by (cases item; (cases "projr item")?;
      simp add: run_incoming_def run_received_def op_then_fst op_on_fst op_return_def op_update_def record_recv_def
        split: outcome.splits sum.splits tungstenite.splits)+

definition data_item :: "rstr + tungstenite \<Rightarrow> bool" where
  "data_item item = (case item of Inr (TText s) \<Rightarrow> True | Inr (TBinary b) \<Rightarrow> True | _ \<Rightarrow> False)"

lemma run_incoming_no_data:
  "\<not> data_item item \<Longrightarrow> wc_backpressure (fst (run_incoming ck now item c)) = wc_backpressure c"
  by (cases item; (cases "projr item")?;
      simp add: run_incoming_def data_item_def op_then_fst op_on_fst op_return_def split: outcome.splits)

text \<open>Accepted and written without an overflow of the counters.\<close>

definition counters_fit :: "u64 \<Rightarrow> ws_client \<Rightarrow> bool" where
  "counters_fit n c \<longleftrightarrow>
     unat (messages_sent (wc_metrics c)) + 1 < 2 ^ 64 \<and>
     unat (bytes_sent (wc_metrics c)) + unat n < 2 ^ 64 \<and>
     unat (bp_current_size (wc_backpressure c)) + 2 * unat n < 2 ^ 64"

text \<open>A client that takes the next message at once.\<close>

definition open_idle :: "ws_client \<Rightarrow> bool" where
  "open_idle c \<longleftrightarrow>
     can_send (wc_backpressure c) \<and> wc_tx c \<and> wc_task c = Running \<and> wc_queue c = [] \<and>
     0 < unat (bc_max_buffer_size (cl_backpressure_config (wc_config c)))"

lemma client_send_accepts:
  assumes "open_idle c" and "counters_fit (msg_size m) c"
  shows "client_send ck now m c =
    (c\<lparr>wc_queue := [m],
       wc_metrics := (wc_metrics c)\<lparr>messages_sent := messages_sent (wc_metrics c) + 1,
                       bytes_sent := bytes_sent (wc_metrics c) + msg_size m, last_activity := Some now\<rparr>,
       wc_backpressure := (wc_backpressure c)\<lparr>bp_current_size := bp_current_size (wc_backpressure c) + msg_size m\<rparr>\<rparr>,
     Ret (Some (Ok ())))"
  using assms
  by (simp add: open_idle_def counters_fit_def client_send_def send_check_def send_enqueue_def record_message_sent_def
      touch_def op_then_def op_on_def op_update_def op_return_def op_add_fits record_send_fits)

lemma run_outgoing_writes:
  assumes "wc_queue c = m # ms" and "to_tungstenite m = Ok t"
    and "unat (bp_current_size (wc_backpressure c)) + unat (msg_size m) < 2 ^ 64"
  shows "run_outgoing ck None c =
    (c\<lparr>wc_queue := ms,
       wc_backpressure := (wc_backpressure c)\<lparr>bp_current_size := bp_current_size (wc_backpressure c) + msg_size m\<rparr>\<rparr>,
     Ret (Some t, Running))"
  using assms by (simp add: run_outgoing_def op_then_def op_on_def op_return_def record_send_fits)

section \<open>Properties\<close>

text \<open>A message that is accepted and written reaches the wire once and is counted once in the metrics,
  but twice in the bytes in flight, which only incoming data lowers.\<close>

theorem send_counted_twice:
  assumes "open_idle c" and "counters_fit (msg_size m) c" and "to_tungstenite m = Ok t"
    and "client_send ck now m c = (c1, r1)" and "run_outgoing ck None c1 = (c2, r2)"
  shows "r1 = Ret (Some (Ok ())) \<and> r2 = Ret (Some t, Running) \<and> wc_queue c2 = [] \<and>
    unat (messages_sent (wc_metrics c2)) = unat (messages_sent (wc_metrics c)) + 1 \<and>
    unat (bytes_sent (wc_metrics c2)) = unat (bytes_sent (wc_metrics c)) + unat (msg_size m) \<and>
    unat (bp_current_size (wc_backpressure c2)) = unat (bp_current_size (wc_backpressure c)) + 2 * unat (msg_size m)"
proof -
  let ?n = "msg_size m" and ?b = "bp_current_size (wc_backpressure c)"
  have fit: "unat (messages_sent (wc_metrics c)) + 1 < 2 ^ 64"
      "unat (bytes_sent (wc_metrics c)) + unat ?n < 2 ^ 64" "unat ?b + 2 * unat ?n < 2 ^ 64"
    using assms(2) by (simp_all add: counters_fit_def)
  then have one: "unat (?b + ?n) = unat ?b + unat ?n" by (simp add: unat_add_fits)
  have two: "unat (?b + ?n + ?n) = unat ?b + 2 * unat ?n"
    using one fit(3) unat_add_fits [of "?b + ?n" ?n] by simp
  show ?thesis
    using assms(4,5) fit one two client_send_accepts [OF assms(1,2), of ck now]
      run_outgoing_writes [of c1 m "[]" t ck] assms(3)
    by (auto simp: unat_add_fits)
qed

theorem send_counted_twice_witness:
  "unat (bp_current_size (wc_backpressure (fst (run_outgoing True None
      (fst (client_send True 0 (message_binary [1, 2, 3]) (client_fresh (client_config_new (lit ''ws'')))))))))
   = 6"
proof -
  let ?c = "client_fresh (client_config_new (lit ''ws''))" and ?m = "message_binary [1, 2, 3]"
  have "open_idle ?c"
    by (simp add: open_idle_def client_fresh_def client_config_new_def can_send_def is_backpressure_active_def
        backpressure_new_def activation_size_default backpressure_config_default_def DEFAULT_BUFFER_SIZE_def)
  moreover have size: "msg_size ?m = 3" by (simp add: msg_size_def message_len_def message_binary_def)
  then have "counters_fit (msg_size ?m) ?c"
    by (simp add: counters_fit_def client_fresh_def metrics_new_def backpressure_new_def)
  moreover have "to_tungstenite ?m = Ok (TBinary [1, 2, 3])" by (simp add: to_tungstenite_def message_binary_def)
  ultimately show ?thesis
    using send_counted_twice [OF _ _ _ prod.collapse [symmetric] prod.collapse [symmetric], of ?c ?m _ True 0] size
    by (simp add: client_fresh_def backpressure_new_def)
qed

text \<open>A client whose counter is above the activation point, with what is queued still to be added.\<close>

definition queued_bytes :: "ws_client \<Rightarrow> nat" where
  "queued_bytes c = sum_list (map (\<lambda>m. unat (msg_size m)) (wc_queue c))"

definition congested :: "ws_client \<Rightarrow> bool" where
  "congested c \<longleftrightarrow>
     \<not> can_send (wc_backpressure c) \<and>
     unat (bp_current_size (wc_backpressure c)) + queued_bytes c < 2 ^ 64"

lemma congested_cong:
  "wc_backpressure c' = wc_backpressure c \<Longrightarrow> wc_queue c' = wc_queue c \<Longrightarrow> congested c' = congested c"
  by (simp add: congested_def queued_bytes_def)

lemma can_send_mono:
  "\<not> can_send b \<Longrightarrow> bp_current_size b \<le> n \<Longrightarrow> \<not> can_send (b\<lparr>bp_current_size := n\<rparr>)"
  by (auto simp: can_send_def is_backpressure_active_def split: if_splits)

lemma congested_outgoing:
  assumes "congested c"
  shows "congested (fst (run_outgoing ck failed c))"
proof (cases "wc_queue c")
  case Nil
  with assms show ?thesis by (simp add: run_outgoing_def)
next
  case (Cons m ms)
  have less: "congested (c\<lparr>wc_queue := ms\<rparr>)"
    using assms Cons by (simp add: congested_def queued_bytes_def)
  show ?thesis
  proof (cases "to_tungstenite m")
    case (Inl e)
    with Cons less show ?thesis by (simp add: run_outgoing_def)
  next
    case (Inr t)
    show ?thesis
    proof (cases failed)
      case (Some e)
      with Cons Inr less show ?thesis by (simp add: run_outgoing_def)
    next
      case None
      let ?b = "bp_current_size (wc_backpressure c)"
      have sum: "unat ?b + unat (msg_size m) + sum_list (map (\<lambda>m. unat (msg_size m)) ms) < 2 ^ 64"
        using assms Cons by (simp add: congested_def queued_bytes_def)
      then have fit: "unat ?b + unat (msg_size m) < 2 ^ 64" by simp
      then have add: "unat (?b + msg_size m) = unat ?b + unat (msg_size m)" by (simp add: unat_add_fits)
      then have "?b \<le> ?b + msg_size m" by (simp add: word_le_nat_alt)
      with assms can_send_mono show ?thesis
        unfolding None run_outgoing_writes [OF Cons Inr fit]
        using sum add by (simp add: congested_def queued_bytes_def)
    qed
  qed
qed

lemma task_turn_keeps:
  "wc_queue (task_turn f c) = (if wc_task c = Running then wc_queue (fst (f c)) else wc_queue c)"
  "wc_backpressure (task_turn f c) = (if wc_task c = Running then wc_backpressure (fst (f c)) else wc_backpressure c)"
  "wc_connected (task_turn f c) = (if wc_task c = Running then wc_connected (fst (f c)) else wc_connected c)"
  "wc_shutdown (task_turn f c) = (if wc_task c = Running then wc_shutdown (fst (f c)) else wc_shutdown c)"
  by (auto simp: task_turn_def split: prod.splits outcome.splits)

lemma run_outgoing_keeps:
  "wc_connected (fst (run_outgoing ck failed c)) = wc_connected c"
  "wc_shutdown (fst (run_outgoing ck failed c)) = wc_shutdown c"
  by (auto simp: run_outgoing_def op_then_fst op_on_fst op_return_def
      split: list.splits sum.splits option.splits outcome.splits)

text \<open>Data from the server, and calls that had passed the check before.\<close>

definition relieves :: "client_event \<Rightarrow> bool" where
  "relieves e =
     (case e of Arrives item \<Rightarrow> data_item item | Resumes m \<Rightarrow> True | ResumesClose r \<Rightarrow> True | _ \<Rightarrow> False)"

lemma congested_step:
  assumes "congested c" and "\<not> relieves e"
  shows "congested (client_step ck (now, e) c) \<and> is_connected (client_step ck (now, e) c) = is_connected c"
proof -
  have no: "\<not> can_send (wc_backpressure c)" using assms(1) by (simp add: congested_def)
  show ?thesis
  proof (cases e)
    case (Sends m)
    with assms(1) no show ?thesis by (simp add: send_refused)
  next
    case (Closes r)
    with assms(1) close_refused [OF send_refused [OF no]] show ?thesis by simp
  next
    case (Writes failed)
    then have "congested (client_step ck (now, e) c) =
        congested (if wc_task c = Running then fst (run_outgoing ck failed c) else c)"
      by (intro congested_cong) (simp_all add: task_turn_keeps)
    with assms(1) congested_outgoing Writes show ?thesis
      by (simp add: is_connected_def task_turn_keeps run_outgoing_keeps)
  next
    case (Arrives item)
    with assms(2) have "congested (client_step ck (now, e) c) = congested c"
      by (intro congested_cong)
        (simp_all add: relieves_def task_turn_keeps run_incoming_keeps run_incoming_no_data)
    with assms(1) Arrives show ?thesis
      by (simp add: is_connected_def task_turn_keeps run_incoming_keeps)
  next
    case Ticks
    from no obtain h where "fst (heartbeat_tick ck now c) = c\<lparr>wc_heartbeat := h\<rparr>"
      using tick_refused [of c ck now] by (auto simp: send_refused)
    moreover have "congested (c\<lparr>wc_heartbeat := h\<rparr>)" using assms(1) by (simp add: congested_def queued_bytes_def)
    ultimately show ?thesis using Ticks by (simp add: is_connected_def)
  qed (use assms(2) in \<open>simp_all add: relieves_def\<close>)
qed

text \<open>C16: Once the bytes in flight exceed the activation point, they stay there until data arrives
  (with no earlier call still waiting for room): whatever is sent, closed, written or ticked, every send is refused, and so is every close,
  so that the client cannot be shut down.\<close>

theorem refusal_permanent:
  assumes "congested c" and "\<forall>(now, e) \<in> set es. \<not> relieves e"
    and c'_eq: "c' = fold (client_step ck) es c"
  shows "client_send ck t m c' = (c', Ret (Some (Err BufferFull))) \<and>
    client_close ck t r c' = (c', Ret (Some (Err BufferFull))) \<and> is_connected c' = is_connected c"
proof -
  have "congested (fold (client_step ck) es c) \<and> is_connected (fold (client_step ck) es c) = is_connected c"
    using assms(1,2)
  proof (induction es arbitrary: c)
    case (Cons x es)
    obtain now e where x: "x = (now, e)" by (cases x)
    with Cons.prems have "congested (client_step ck x c) \<and> is_connected (client_step ck x c) = is_connected c"
      using congested_step [of c e ck now] by auto
    with Cons show ?case by simp
  qed simp
  then have c': "congested c' \<and> is_connected c' = is_connected c" by (simp add: c'_eq)
  then have "client_send ck t m c' = (c', Ret (Some (Err BufferFull)))" for m
    by (intro send_refused) (simp add: congested_def)
  with c' close_refused show ?thesis by blast
qed

definition congested_client :: ws_client where
  "congested_client =
     (client_fresh (client_config_new (lit ''ws'')))
       \<lparr>wc_backpressure := (backpressure_new backpressure_config_default)\<lparr>bp_current_size := 801\<rparr>\<rparr>"

theorem refusal_permanent_witness:
  "is_connected (fold (client_step True) [(0, Closes None), (1, Arrives (Inr (TPing [])))] congested_client)"
proof -
  have "congested congested_client"
    by (simp add: congested_def congested_client_def client_fresh_def queued_bytes_def can_send_def
        is_backpressure_active_def backpressure_new_def activation_size_default)
       (simp add: backpressure_config_default_def)
  then show ?thesis
    using refusal_permanent [of congested_client "[(0, Closes None), (1, Arrives (Inr (TPing [])))]", OF _ _ refl]
    by (simp add: relieves_def data_item_def) (simp add: congested_client_def client_fresh_def is_connected_def)
qed

lemma dead_step:
  assumes "wc_task c \<noteq> Running"
  shows "wc_task (client_step ck x c) = wc_task c \<and> is_connected (client_step ck x c) = is_connected c"
proof -
  obtain now e where x: "x = (now, e)" by (cases x)
  have send: "fst (client_send ck now m c') = c'" if "wc_task c' = wc_task c" for m c'
    using send_dead [of c' ck now m] assms that by auto
  show ?thesis
  proof (cases e)
    case (Closes r)
    with x close_refused send_dead [OF assms, of ck now "close_message r"] show ?thesis by auto
  next
    case Ticks
    from send have "\<exists>h. fst (heartbeat_tick ck now c) = c\<lparr>wc_heartbeat := h\<rparr>"
      by (intro tick_refused) simp
    with x Ticks show ?thesis by (auto simp: is_connected_def)
  qed (use x assms send in
      \<open>simp_all add: task_turn_def send_enqueue_def op_then_def close_after_def op_return_def\<close>)
qed

lemma dead_run:
  "wc_task c \<noteq> Running \<Longrightarrow>
     wc_task (fold (client_step ck) es c) \<noteq> Running \<and> is_connected (fold (client_step ck) es c) = is_connected c"
  by (induction es arbitrary: c) (simp_all add: dead_step)

lemma stream_end:
  assumes "wc_task c = Running" and "item = Inl x \<or> item = Inr (TClose y)"
  shows "wc_task (client_step ck (now, Arrives item) c) \<noteq> Running"
    and "is_connected (client_step ck (now, Arrives item) c) = is_connected c"
  using assms
  by (auto simp: task_turn_def run_incoming_def op_then_def op_on_def op_return_def is_connected_def
      split: prod.splits outcome.splits)

text \<open>C21: When the server closes or the stream fails, the connection task ends, but the client still
  says that it is connected, for ever: no later call changes the answer, although every send
  and every close fails.\<close>

theorem ended_client_connected:
  assumes "wc_task c = Running" and "item = Inl x \<or> item = Inr (TClose y)"
    and c1_eq: "c1 = client_step ck (now, Arrives item) c" and c2_eq: "c2 = fold (client_step ck) es c1"
  shows "wc_task c2 \<noteq> Running \<and> is_connected c2 = is_connected c \<and>
    (\<exists>e \<in> {BufferFull, ConnectionClosed}. client_send ck t m c2 = (c2, Ret (Some (Err e)))) \<and>
    (\<exists>e \<in> {BufferFull, ConnectionClosed}. client_close ck t r c2 = (c2, Ret (Some (Err e))))"
proof -
  note ended = stream_end [OF assms(1,2), of ck now, folded c1_eq]
  from dead_run [OF ended(1)] ended(2) have c2: "wc_task c2 \<noteq> Running" "is_connected c2 = is_connected c"
    by (simp_all add: c2_eq)
  with send_dead [OF c2(1)] close_refused show ?thesis by blast
qed

theorem ended_client_connected_witness:
  "is_connected (fold (client_step True) [(1, Ticks)]
     (client_step True (0, Arrives (Inr (TClose None))) (client_fresh (client_config_new (lit ''ws'')))))"
proof -
  let ?c = "client_fresh (client_config_new (lit ''ws''))"
  have "wc_task ?c = Running" and conn: "is_connected ?c" by (simp_all add: client_fresh_def is_connected_def)
  from ended_client_connected [OF this(1) _ refl refl, where item = "Inr (TClose None)" and y = None
      and ck = True and es = "[(1, Ticks)]" and now = 0] conn
  show ?thesis by auto
qed

section \<open>The order of messages\<close>

text \<open>What one step adds to the channel and what it puts on the wire.\<close>

definition enqueued_by :: "bool \<Rightarrow> instant \<times> client_event \<Rightarrow> ws_client \<Rightarrow> message list" where
  "enqueued_by ck = appended wc_queue (client_step ck)"

text \<open>The task writes from two branches: a message of the channel, converted, and the pong to a ping that it
  has read. An error of the send of a pong is ignored, so that \<open>replied_by\<close> is what is handed to the stream.\<close>

definition sent_by :: "bool \<Rightarrow> instant \<times> client_event \<Rightarrow> ws_client \<Rightarrow> tungstenite list" where
  "sent_by ck ev c =
     (case ev of
        (now, Writes failed) \<Rightarrow>
          if wc_task c \<noteq> Running then []
          else (case run_outgoing ck failed c of (_, Ret (Some t, _)) \<Rightarrow> [t] | _ \<Rightarrow> [])
      | _ \<Rightarrow> [])"

definition replied_by :: "bool \<Rightarrow> instant \<times> client_event \<Rightarrow> ws_client \<Rightarrow> tungstenite list" where
  "replied_by ck ev c =
     (case ev of
        (now, Arrives item) \<Rightarrow>
          if wc_task c \<noteq> Running then []
          else (case run_incoming ck now item c of (_, Ret (Some t, _)) \<Rightarrow> [t] | _ \<Rightarrow> [])
      | _ \<Rightarrow> [])"

definition written_by :: "bool \<Rightarrow> instant \<times> client_event \<Rightarrow> ws_client \<Rightarrow> tungstenite list" where
  "written_by ck ev c = sent_by ck ev c @ replied_by ck ev c"

definition client_trace :: "bool \<Rightarrow> (instant \<times> client_event) list \<Rightarrow> ws_client \<Rightarrow> message list \<times> tungstenite list" where
  "client_trace ck = history (client_step ck) (enqueued_by ck) (written_by ck)"

lemma client_trace_simps [simp]:
  "client_trace ck [] c = ([], [])"
  "client_trace ck (ev # es) c =
     (case client_trace ck es (client_step ck ev c) of
        (ms, ts) \<Rightarrow> (enqueued_by ck ev c @ ms, written_by ck ev c @ ts))"
  by (simp_all add: client_trace_def)

lemma send_enqueue_queue:
  "\<exists>new. wc_queue (fst (send_enqueue ck now m c)) = wc_queue c @ new"
  by (auto simp: send_enqueue_def op_then_fst op_on_fst op_return_def op_update_def split: outcome.splits)

lemma client_send_queue:
  "\<exists>new. wc_queue (fst (client_send ck now m c)) = wc_queue c @ new"
  using send_enqueue_queue [of ck now m c] by (simp add: client_send_def split: sum.splits)

lemma close_after_queue: "wc_queue (fst (close_after ck now r c)) = wc_queue c"
  by (auto simp: close_after_def op_then_fst op_on_fst op_return_def op_update_def
      split: option.splits sum.splits outcome.splits)

lemma step_appends:
  assumes "\<And>failed. e \<noteq> Writes failed"
  shows "\<exists>new. wc_queue (client_step ck (now, e) c) = wc_queue c @ new"
proof (cases e)
  case (Sends m)
  then show ?thesis by (simp add: client_send_queue)
next
  case (Closes r)
  then show ?thesis
    using client_send_queue [of ck now "close_message r" c]
    by (auto simp: client_close_def op_then_fst close_after_queue split: outcome.splits)
next
  case (Resumes m)
  then show ?thesis by (simp add: send_enqueue_queue)
next
  case (ResumesClose r)
  then show ?thesis
    using send_enqueue_queue [of ck now "close_message r" c]
    by (auto simp: op_then_fst close_after_queue split: outcome.splits)
next
  case (Arrives item)
  then show ?thesis by (simp add: task_turn_keeps run_incoming_keeps)
next
  case Ticks
  show ?thesis
    using client_send_queue [of ck now _ "c\<lparr>wc_heartbeat := _\<rparr>"] unfolding Ticks
    by (auto simp: heartbeat_tick_def op_then_fst op_on_fst op_return_def split: outcome.splits)
qed (use assms in blast)

lemma outgoing_release:
  assumes "wc_task c = Running"
  shows "(wc_queue (client_step False (now, Writes failed) c) = wc_queue c \<and> sent_by False (now, Writes failed) c = []) \<or>
    (\<exists>m t. wc_queue c = m # wc_queue (client_step False (now, Writes failed) c) \<and>
       to_tungstenite m = Ok t \<and> sent_by False (now, Writes failed) c = [t]) \<or>
    (\<exists>m. wc_queue c = m # wc_queue (client_step False (now, Writes failed) c) \<and>
       sent_by False (now, Writes failed) c = [] \<and> wc_task (client_step False (now, Writes failed) c) \<noteq> Running)"
  using assms
  by (auto simp: sent_by_def task_turn_def run_outgoing_def op_then_def op_on_def op_return_def record_send_def
      op_add_def add_ck_release split: list.splits sum.splits option.splits)

interpretation cf: fifo_channel "client_step False" wc_queue "\<lambda>c. wc_task c = Running" "sent_by False" "\<lambda>_. True"
proof
  fix x and c :: ws_client
  assume dead: "wc_task c \<noteq> Running"
  have "sent_by False x c = []"
    using dead by (simp add: sent_by_def split: prod.split client_event.split)
  with dead_step [OF dead] dead show "wc_task (client_step False x c) \<noteq> Running \<and> sent_by False x c = []" by simp
next
  fix x :: "instant \<times> client_event" and c :: ws_client
  assume running: "wc_task c = Running"
  obtain now e where x: "x = (now, e)" by (cases x)
  show "(\<exists>new. wc_queue (client_step False x c) = wc_queue c @ new \<and> sent_by False x c = []) \<or>
    (\<exists>m t. wc_queue c = m # wc_queue (client_step False x c) \<and> to_tungstenite m = Ok t \<and> sent_by False x c = [t]) \<or>
    (\<exists>m. wc_queue c = m # wc_queue (client_step False x c) \<and> sent_by False x c = [] \<and>
      wc_task (client_step False x c) \<noteq> Running)"
  proof (cases "\<exists>failed. e = Writes failed")
    case True
    then obtain failed where "x = (now, Writes failed)" using x by blast
    with outgoing_release [OF running, of now failed] show ?thesis
      by (elim disjE) (intro disjI1 exI [of _ "[]"], simp, blast+)
  next
    case False
    then have "sent_by False x c = []" using x by (cases e) (auto simp: sent_by_def)
    with step_appends [of e False now c] False x show ?thesis by blast
  qed
qed

text \<open>The pongs that are due: one with the same bytes for each ping that the task reads.\<close>

fun pongs_due :: "(instant \<times> client_event) list \<Rightarrow> ws_client \<Rightarrow> tungstenite list" where
  "pongs_due [] c = []"
| "pongs_due ((now, e) # es) c =
     (case e of Arrives (Inr (TPing b)) \<Rightarrow> if wc_task c = Running then [TPong b] else [] | _ \<Rightarrow> []) @
     pongs_due es (client_step False (now, e) c)"

lemma replied_by_pong:
  "replied_by ck (now, e) c =
     (case e of Arrives (Inr (TPing b)) \<Rightarrow> if wc_task c = Running then [TPong b] else [] | _ \<Rightarrow> [])"
  by (auto simp: replied_by_def run_incoming_def run_received_def handle_ping_def message_pong_def op_then_def
      op_return_def split: client_event.splits prod.splits sum.splits tungstenite.splits outcome.splits option.splits)

lemma pongs_due_history: "snd (history (client_step False) ins (replied_by False) es c) = pongs_due es c"
proof (induction es arbitrary: c)
  case (Cons x es)
  obtain now e where "x = (now, e)" by (cases x)
  with Cons show ?case by (simp add: replied_by_pong split_beta del: client_step.simps)
qed simp

text \<open>C5: Messages are delivered in the order in which they were accepted, each once and converted: in a
  release build all that the connection task writes is an interleaving of two streams, the
  conversions of a prefix of what was put into the channel by sends, closes and heartbeats, and
  the pongs with the bytes of the pings it has read, one for each and in their order, whatever the
  interleaving of the events; while the task runs the rest of what was accepted is exactly what
  the channel still holds.\<close>

theorem client_fifo:
  assumes "wc_queue c = []" and "client_trace False es c = (ms, wire)"
  shows "\<exists>sent rest ts. ms = sent @ rest \<and> map to_tungstenite sent = map Ok ts \<and>
    wire \<in> shuffles ts (pongs_due es c) \<and>
    (wc_task (fold (client_step False) es c) = Running \<longrightarrow> rest = wc_queue (fold (client_step False) es c))"
proof -
  have "history (client_step False) (enqueued_by False) (\<lambda>e s. sent_by False e s @ replied_by False e s) es c = (ms, wire)"
    using assms(2) unfolding client_trace_def written_by_def [abs_def] .
  from history_shuffle [OF this] obtain ts ps
    where ts: "history (client_step False) (enqueued_by False) (sent_by False) es c = (ms, ts)"
      and "history (client_step False) (enqueued_by False) (replied_by False) es c = (ms, ps)"
      and "wire \<in> shuffles ts ps" by blast
  then have "wire \<in> shuffles ts (pongs_due es c)" using pongs_due_history [of "enqueued_by False" es c] by simp
  with cf.fifo [OF assms(1) _ ts [unfolded enqueued_by_def]] show ?thesis by fast
qed

theorem client_fifo_witness:
  "let es = [(0, Sends (message_ping [7])), (1, Arrives (Inr (TPing [9]))), (2, Writes None)];
       c = client_fresh (client_config_new (lit ''ws''))
   in \<exists>sent rest ts. fst (client_trace False es c) = sent @ rest \<and> map to_tungstenite sent = map Ok ts \<and>
     snd (client_trace False es c) \<in> shuffles ts (pongs_due es c)"
proof -
  have "wc_queue (client_fresh (client_config_new (lit ''ws''))) = []" by (simp add: client_fresh_def)
  from client_fifo [OF this prod.collapse [symmetric]] show ?thesis unfolding Let_def by blast
qed

section \<open>Closing and heartbeat\<close>

text \<open>A client that closes is counted as disconnected twice, once by \<^verbatim>\<open>close\<close> and once when the
  server answers with its own close, for one connection.\<close>

theorem close_counted_twice:
  assumes "connect_with_config False t0 None cfg = Ret (Ok c)"
    and "client_close False t1 r c = (c1, Ret (Some (Ok ())))"
    and "c2 = fold (client_step False) [(t2, Writes None), (t3, Arrives (Inr (TClose x)))] c1"
  shows "total_connections (wc_metrics c2) = 1 \<and> disconnections (wc_metrics c2) = 2 \<and>
    \<not> is_connected c2 \<and> wc_task c2 = Returned (Ok ())"
proof -
  let ?m = "close_message r"
  note ops = op_then_def op_on_def op_update_def op_return_def op_add_release record_connection_def
    record_message_sent_def record_disconnection_def touch_def record_send_def
  have c: "wc_task c = Running" "wc_queue c = []"
      "total_connections (wc_metrics c) = 1" "disconnections (wc_metrics c) = 0"
    using assms(1)
    by (auto simp: connect_with_config_def client_fresh_def metrics_new_def ops split: if_splits)
  have c1: "wc_task c1 = Running" "wc_queue c1 = [?m]"
      "total_connections (wc_metrics c1) = 1" "disconnections (wc_metrics c1) = 1" "\<not> is_connected c1"
    using assms(2) c
    by (auto simp: client_close_def close_after_def client_send_def send_enqueue_def is_connected_def ops
        split: sum.splits if_splits)
  have "to_tungstenite ?m = Ok (TClose None)"
    by (simp add: close_message_def to_tungstenite_close split: option.splits)
  with c1 assms(3) show ?thesis
    by (simp add: task_turn_def run_outgoing_def run_incoming_def is_connected_def ops)
qed

lemma open_idle_fresh:
  "cl_backpressure_config cfg = backpressure_config_default \<Longrightarrow> open_idle (client_fresh cfg)"
  by (simp add: open_idle_def client_fresh_def can_send_def is_backpressure_active_def backpressure_new_def
      activation_size_default) (simp add: backpressure_config_default_def DEFAULT_BUFFER_SIZE_def)

theorem close_counted_twice_witness:
  "\<exists>c c1. connect_with_config False 0 None (client_config_new (lit ''ws'')) = Ret (Ok c) \<and>
     client_close False 1 None c = (c1, Ret (Some (Ok ()))) \<and>
     disconnections (wc_metrics (fold (client_step False)
       [(2, Writes None), (3, Arrives (Inr (TClose None)))] c1)) = 2"
proof -
  let ?cfg = "client_config_new (lit ''ws'')"
  have bp: "cl_backpressure_config ?cfg = backpressure_config_default" by (simp add: client_config_new_def)
  obtain c where c: "connect_with_config False 0 None ?cfg = Ret (Ok c)"
      and cm: "c = client_fresh ?cfg\<lparr>wc_metrics := wc_metrics c\<rparr>" and n: "messages_sent (wc_metrics c) = 0"
      "bytes_sent (wc_metrics c) = 0"
    unfolding connect_with_config_def bp
    by (simp add: channel_ok_def backpressure_config_default_def DEFAULT_BUFFER_SIZE_def record_connection_def
        op_then_def op_on_def op_update_def op_add_release touch_def client_fresh_def metrics_new_def)
  have "open_idle c"
    using open_idle_fresh [OF bp] by (subst cm) (simp add: open_idle_def)
  moreover have "msg_size (close_message None) = 0"
    by (simp add: msg_size_def message_len_def close_message_def message_close_def)
  then have "counters_fit (msg_size (close_message None)) c"
    using n by (subst cm) (simp add: counters_fit_def client_fresh_def backpressure_new_def)
  ultimately obtain c1 where c1: "client_close False 1 None c = (c1, Ret (Some (Ok ())))"
    using client_send_accepts [of c "close_message None" False 1]
    by (auto simp: client_close_def close_after_def op_then_def op_on_def op_update_def op_return_def op_add_release
        record_disconnection_def touch_def)
  from close_counted_twice [OF c c1 refl, of 2 3 None] c c1 show ?thesis by blast
qed

text \<open>C24: A heartbeat works end to end: the tick queues a ping, the connection task writes it, and when
  the server echoes its payload the pong is accepted, clears the missed pings, and the
  connection counts as alive until the timeout has passed.\<close>

theorem heartbeat_end_to_end:
  assumes "open_idle c" and "is_connected c" and "counters_fit 8 c"
    and "unat (ping_count (wc_heartbeat c)) + 1 < 2 ^ 64" and "unat (pong_count (wc_heartbeat c)) + 1 < 2 ^ 64"
  shows "let p = ping_payload (wc_heartbeat c);
             c1 = client_step ck (t1, Ticks) c;
             c2 = client_step ck (t2, Writes None) c1;
             c3 = client_step ck (t3, Arrives (Inr (TPong p))) c2
         in client_trace ck [(t1, Ticks), (t2, Writes None)] c = ([message_ping p], [TPing p]) \<and>
            wc_task c3 = Running \<and> missed_pings (wc_heartbeat c3) = 0 \<and> last_pong (wc_heartbeat c3) = Some t3 \<and>
            (now - t3 < hc_ping_timeout (hb_config (wc_heartbeat c)) \<longrightarrow> is_alive now (wc_heartbeat c3))"
proof -
  let ?h = "wc_heartbeat c" and ?p = "ping_payload (wc_heartbeat c)"
  let ?m = "message_ping ?p" and ?b = "bp_current_size (wc_backpressure c)"
  let ?h1 = "?h\<lparr>last_ping := Some t1, ping_count := ping_count ?h + 1\<rparr>"
  let ?c = "c\<lparr>wc_heartbeat := ?h1\<rparr>"
  have size: "msg_size ?m = 8" by (simp add: msg_size_def message_len_def message_ping_def)
  have "open_idle ?c" and "counters_fit (msg_size ?m) ?c"
    using assms(1,3) unfolding size by (simp_all add: open_idle_def counters_fit_def)
  note sent = client_send_accepts [OF this, of ck t1, unfolded size]
  define c1 where "c1 = client_step ck (t1, Ticks) c"
  have "c1 = fst (client_send ck t1 ?m ?c)"
    using assms(2) by (simp add: c1_def heartbeat_tick_def op_then_fst op_on_def ping_fits [OF assms(4)] op_return_def
        split: outcome.splits)
  then have c1: "wc_queue c1 = [?m]" "wc_task c1 = Running" "wc_heartbeat c1 = ?h1"
      "bp_current_size (wc_backpressure c1) = ?b + 8"
    using assms(1) by (simp_all add: sent open_idle_def)
  have "unat (?b + 8) = unat ?b + 8" using assms(3) by (simp add: counters_fit_def unat_add_fits)
  then have fit: "unat (bp_current_size (wc_backpressure c1)) + unat (msg_size ?m) < 2 ^ 64"
    using assms(3) unfolding size c1(4) by (simp add: counters_fit_def)
  note wrote = run_outgoing_writes [OF c1(1) to_tungstenite_ping fit, of ck]
  define c2 where "c2 = client_step ck (t2, Writes None) c1"
  have c2: "wc_task c2 = Running" "wc_heartbeat c2 = ?h1"
    using c1 by (simp_all add: c2_def task_turn_def wrote)
  have "of_nat (from_be ?p) = expected_ping ?h1"
    using expected_after_ping [OF assms(4)] by (simp add: unat_ping_payload)
  then have pong: "handle_pong ck t3 ?p ?h1 =
      (?h1\<lparr>last_pong := Some t3, pong_count := pong_count ?h + 1, missed_pings := 0\<rparr>, Ret (Ok ()))"
    using assms(5) by (simp add: handle_pong_match)
  have c3: "client_step ck (t3, Arrives (Inr (TPong ?p))) c2 =
      c2\<lparr>wc_heartbeat := ?h1\<lparr>last_pong := Some t3, pong_count := pong_count ?h + 1, missed_pings := 0\<rparr>\<rparr>"
    using c2 by (simp add: task_turn_def run_incoming_def op_then_def op_on_def op_return_def pong)
  have "client_trace ck [(t1, Ticks), (t2, Writes None)] c = ([?m], [TPing ?p])"
    using c1(1,2) assms(1)
    by (simp add: enqueued_by_def appended_def written_by_def sent_by_def replied_by_def c1_def [symmetric] wrote open_idle_def del: client_step.simps)
       (simp add: task_turn_def wrote)
  then show ?thesis
    using c2(1) by (simp add: Let_def c1_def [symmetric] c2_def [symmetric] c3 is_alive_def elapsed_def hb_is_enabled_def
        del: client_step.simps client_trace_simps)
qed

theorem heartbeat_end_to_end_witness:
  "client_trace True [(1, Ticks), (2, Writes None)] (client_fresh (client_config_new (lit ''ws''))) =
     ([message_ping (to_be 8 0)], [TPing (to_be 8 0)])"
proof -
  let ?c = "client_fresh (client_config_new (lit ''ws''))"
  have "open_idle ?c" by (rule open_idle_fresh) (simp add: client_config_new_def)
  moreover have "is_connected ?c" and "counters_fit 8 ?c" and "unat (ping_count (wc_heartbeat ?c)) + 1 < 2 ^ 64"
    and "unat (pong_count (wc_heartbeat ?c)) + 1 < 2 ^ 64"
    by (simp_all add: client_fresh_def is_connected_def counters_fit_def metrics_new_def backpressure_new_def
        heartbeat_new_def)
  moreover have "ping_payload (wc_heartbeat ?c) = to_be 8 0"
    by (simp add: ping_payload_def client_fresh_def heartbeat_new_def del: to_be.simps)
  ultimately show ?thesis
    using heartbeat_end_to_end [of ?c True 1 2 3] by (simp only: Let_def)
qed

end
