(* ===== verification/PoolClient.thy ===== *)
theory PoolClient
  imports Pool Client
begin

text \<open>
  The handles of the pool over the clients of the crate (\<^verbatim>\<open>PooledClient\<close> and \<^verbatim>\<open>get\<close> in
  \<^verbatim>\<open>src/src/pool.rs\<close>): what a pooled connection holds is a reference, and \<open>clients\<close> is the
  store of the clients it refers to.
\<close>

text \<open>\<open>connect\<close> is the answer of the connection attempt.\<close>

definition pool_get where
  "pool_get alive now i connect env turns url s =
     get_with_config alive now i (connect (client_config_new url)) env turns url s"

definition on_pooled :: "(ws_client, 'a) op \<Rightarrow> 'c pooled_client \<Rightarrow> ('c \<Rightarrow> ws_client, 'a) op" where
  "on_pooled f h clients =
     (case f (clients (pcl_client h)) of (c, r) \<Rightarrow> (clients(pcl_client h := c), r))"

definition pooled_send_text ::
  "bool \<Rightarrow> instant \<Rightarrow> rstr \<Rightarrow> 'c pooled_client \<Rightarrow> ('c \<Rightarrow> ws_client, unit result option) op" where
  "pooled_send_text ck now s = on_pooled (client_send_text ck now s)"

definition pooled_send_binary ::
  "bool \<Rightarrow> instant \<Rightarrow> bytes \<Rightarrow> 'c pooled_client \<Rightarrow> ('c \<Rightarrow> ws_client, unit result option) op" where
  "pooled_send_binary ck now b = on_pooled (client_send_binary ck now b)"

definition pooled_is_connected :: "('c \<Rightarrow> ws_client) \<Rightarrow> 'c pooled_client \<Rightarrow> bool" where
  "pooled_is_connected clients h \<longleftrightarrow> is_connected (clients (pcl_client h))"

definition pooled_inner :: "'c pooled_client \<Rightarrow> 'c" where
  "pooled_inner h = pcl_client h"

end
