(* ===== verification/Server.thy ===== *)
theory Server
  imports Transport Config
begin

text \<open>
  \<^verbatim>\<open>src/src/server.rs\<close>: the server, its registry of connected clients and the task that serves
  each of them. The network is a parameter: what \<^verbatim>\<open>listener.accept\<close>, the handshake,
  \<^verbatim>\<open>ws_stream.send\<close> and \<^verbatim>\<open>ws_stream.next\<close> answer are arguments of the steps, as is the fresh id
  of \<^verbatim>\<open>Uuid::new_v4\<close>.
\<close>

section \<open>State\<close>

type_synonym uuid = "128 word"

record connected_client =
  cn_id :: uuid
  cn_remote_addr :: rstr

text \<open>The task that serves a client owns the receiver of its channel.\<close>

record handler =
  hd_queue :: "message list"
  hd_task :: task

text \<open>\<open>sv_pending\<close> counts the connection handlers that were spawned and have not registered yet;
  \<open>sv_shutdown_tx\<close> tells the channel whose sender is stored.\<close>

record ws_server =
  sv_config :: server_config
  sv_running :: bool
  sv_connections :: "(uuid, connected_client) hmap"
  sv_shutdown_tx :: "nat option"
  sv_pending :: nat
  sv_handlers :: "(uuid, handler) hmap"
  sv_metrics :: metrics
  sv_heartbeat :: heartbeat
  sv_backpressure :: backpressure

abbreviation on_metrics :: "(metrics, 'a) op \<Rightarrow> (ws_server, 'a) op" where
  "on_metrics \<equiv> op_on sv_metrics sv_metrics_update"

definition server_new :: "server_config \<Rightarrow> ws_server" where
  "server_new cfg =
     \<lparr>sv_config = cfg, sv_running = False, sv_connections = hm_empty, sv_shutdown_tx = None,
      sv_pending = 0, sv_handlers = hm_empty, sv_metrics = metrics_new,
      sv_heartbeat = heartbeat_new
        \<lparr>hc_enabled = True, hc_ping_interval = sv_ping_interval cfg, hc_ping_timeout = sv_ping_timeout cfg\<rparr>,
      sv_backpressure = backpressure_new
        \<lparr>bc_enabled = True, bc_max_buffer_size = sv_buffer_size cfg,
         bc_backpressure_threshold = f64_lit (8/10), bc_recovery_threshold = f64_lit (6/10)\<rparr>\<rparr>"

definition server_bind :: "rstr \<Rightarrow> ws_server" where
  "server_bind addr = server_new (server_config_new addr)"

section \<open>Sending to a client\<close>

definition set_handler :: "uuid \<Rightarrow> handler \<Rightarrow> ws_server \<Rightarrow> ws_server" where
  "set_handler u h s = s\<lparr>sv_handlers := hm_insert u h (sv_handlers s)\<rparr>"

text \<open>\<^verbatim>\<open>ConnectedClient::send\<close>: \<open>None\<close> is a send that waits for room in the channel.\<close>

definition connected_send :: "message \<Rightarrow> uuid \<Rightarrow> ws_server \<Rightarrow> ws_server \<times> unit result option" where
  "connected_send m u s =
     (case hm_get (sv_handlers s) u of
        None \<Rightarrow> (s, Some (Err ConnectionClosed))
      | Some h \<Rightarrow>
          if hd_task h \<noteq> Running then (s, Some (Err ConnectionClosed))
          else if unat (sv_buffer_size (sv_config s)) \<le> length (hd_queue h) then (s, None)
          else (set_handler u (h\<lparr>hd_queue := hd_queue h @ [m]\<rparr>) s, Some (Ok ())))"

definition connected_send_text :: "rstr \<Rightarrow> uuid \<Rightarrow> ws_server \<Rightarrow> ws_server \<times> unit result option" where
  "connected_send_text t = connected_send (message_text t)"

definition connected_send_binary :: "bytes \<Rightarrow> uuid \<Rightarrow> ws_server \<Rightarrow> ws_server \<times> unit result option" where
  "connected_send_binary b = connected_send (message_binary b)"

text \<open>The loop of \<^verbatim>\<open>broadcast\<close>: how many got the message, \<open>None\<close> when it waits.\<close>

fun broadcast_loop :: "bool \<Rightarrow> instant \<Rightarrow> message \<Rightarrow> connected_client list \<Rightarrow> nat \<Rightarrow> (ws_server, nat option) op" where
  "broadcast_loop ck now m [] n s = (s, Ret (Some n))"
| "broadcast_loop ck now m (c # cs) n s =
     (case connected_send m (cn_id c) s of
        (s1, None) \<Rightarrow> (s1, Ret None)
      | (s1, Some (Inl e)) \<Rightarrow> broadcast_loop ck now m cs n s1
      | (s1, Some (Inr u)) \<Rightarrow>
          op_then (on_metrics (record_message_sent ck now (msg_size m)))
            (\<lambda>_. broadcast_loop ck now m cs (n + 1)) s1)"

definition broadcast :: "bool \<Rightarrow> instant \<Rightarrow> message \<Rightarrow> (ws_server, nat option) op" where
  "broadcast ck now m s =
     (if hm_values (sv_connections s) = [] then (s, Ret (Some 0))
      else broadcast_loop ck now m (hm_values (sv_connections s)) 0 s)"

definition broadcast_text :: "bool \<Rightarrow> instant \<Rightarrow> rstr \<Rightarrow> (ws_server, nat option) op" where
  "broadcast_text ck now t = broadcast ck now (message_text t)"

definition broadcast_binary :: "bool \<Rightarrow> instant \<Rightarrow> bytes \<Rightarrow> (ws_server, nat option) op" where
  "broadcast_binary ck now b = broadcast ck now (message_binary b)"

section \<open>Readers\<close>

definition connection_count :: "ws_server \<Rightarrow> nat" where
  "connection_count s = hm_len (sv_connections s)"

definition get_client :: "uuid \<Rightarrow> ws_server \<Rightarrow> connected_client option" where
  "get_client u s = hm_get (sv_connections s) u"

definition server_clients :: "ws_server \<Rightarrow> connected_client list" where
  "server_clients s = hm_values (sv_connections s)"

definition server_accept :: "ws_server \<Rightarrow> connected_client result" where
  "server_accept s =
     Err (NotSupported (lit ''Use start() for async connection accepting. accept() is not yet implemented.''))"

section \<open>Starting and accepting\<close>

text \<open>\<^verbatim>\<open>start\<close> up to its loop; the error of binding the address and the shutdown channel it makes are
  arguments.\<close>

definition start_listening :: "rstr option \<Rightarrow> nat \<Rightarrow> ws_server \<Rightarrow> ws_server \<times> unit result" where
  "start_listening failed ch s =
     (case failed of
        Some e \<Rightarrow>
          (s, Err (ConnectionFailed (lit ''Failed to bind to '' @ sv_bind_address (sv_config s) @ lit '': '' @ e)))
      | None \<Rightarrow> (s\<lparr>sv_running := True, sv_shutdown_tx := Some ch\<rparr>, Ok ()))"

text \<open>One turn of the accept loop: the answer of the listener, and whether a handler is spawned.\<close>

definition accept_turn :: "bool \<Rightarrow> rstr + rstr \<Rightarrow> (ws_server, bool) op" where
  "accept_turn ck answer s =
     (case answer of
        Inr addr \<Rightarrow>
          if sv_max_connections (sv_config s) \<le> hm_len (sv_connections s)
          then op_then (on_metrics (record_connection_error ck)) (\<lambda>_. op_return False) s
          else (s\<lparr>sv_pending := sv_pending s + 1\<rparr>, Ret True)
      | Inl e \<Rightarrow> op_then (on_metrics (record_connection_error ck)) (\<lambda>_. op_return False) s)"

text \<open>A spawned handler: \<open>failed\<close> is the error of the handshake. The registration, its count and the spawning
  of the client's task are one step; in the code other tasks can run between them.\<close>

definition handle_connection ::
  "bool \<Rightarrow> instant \<Rightarrow> rstr option \<Rightarrow> uuid \<Rightarrow> rstr \<Rightarrow> (ws_server, unit result) op" where
  "handle_connection ck now failed u addr s =
     (let s0 = s\<lparr>sv_pending := sv_pending s - 1\<rparr> in
      case failed of
        Some e \<Rightarrow> (s0, Ret (Err (HandshakeFailed (lit ''Failed to accept WebSocket: '' @ e))))
      | None \<Rightarrow>
          if \<not> channel_ok (sv_buffer_size (sv_config s)) then (s0, Panic)
          else
            op_then (op_update (\<lambda>s. s\<lparr>sv_connections :=
                hm_insert u \<lparr>cn_id = u, cn_remote_addr = addr\<rparr> (sv_connections s)\<rparr>)) (\<lambda>_.
            op_then (on_metrics (record_connection ck now)) (\<lambda>_.
            op_then (op_update (set_handler u \<lparr>hd_queue = [], hd_task = Running\<rparr>)) (\<lambda>_.
            op_return (Ok ())))) s0)"

section \<open>The task of a client\<close>

text \<open>How a turn of the loop ends: \<^verbatim>\<open>break\<close> leads to the clean-up, the \<^verbatim>\<open>?\<close> operator returns at once.\<close>

datatype turn = Continue | Break | Fail ws_error

text \<open>A message of the channel. \<open>held\<close> tells whether someone else still has the client and so a
  sender; without any sender the empty channel is closed.\<close>

definition serve_outgoing ::
  "bool \<Rightarrow> bool \<Rightarrow> rstr option \<Rightarrow> uuid \<Rightarrow> handler \<Rightarrow> (ws_server, tungstenite option \<times> turn) op" where
  "serve_outgoing ck held failed u h s =
     (case hd_queue h of
        [] \<Rightarrow> (s, Ret (None, if held \<or> hm_get (sv_connections s) u \<noteq> None then Continue else Break))
      | m # ms \<Rightarrow>
          (let s1 = set_handler u (h\<lparr>hd_queue := ms\<rparr>) s in
           case to_tungstenite m of
             Inl e \<Rightarrow> (s1, Ret (None, Fail e))
           | Inr t \<Rightarrow>
               (case failed of
                  Some e \<Rightarrow> (s1, Ret (None, Fail (ConnectionFailed (lit ''Send error: '' @ e))))
                | None \<Rightarrow>
                    op_then (op_on sv_backpressure sv_backpressure_update (record_send ck (msg_size m)))
                      (\<lambda>_. op_return (Some t, Continue)) s1)))"

definition serve_received :: "bool \<Rightarrow> instant \<Rightarrow> u64 \<Rightarrow> (ws_server, tungstenite option \<times> turn) op" where
  "serve_received ck now n =
     op_then (on_metrics (record_message_received ck now n)) (\<lambda>_.
     op_then (op_update (\<lambda>s. s\<lparr>sv_backpressure := record_recv n (sv_backpressure s)\<rparr>)) (\<lambda>_.
     op_return (None, Continue)))"

definition serve_incoming ::
  "bool \<Rightarrow> instant \<Rightarrow> rstr + tungstenite \<Rightarrow> (ws_server, tungstenite option \<times> turn) op" where
  "serve_incoming ck now item =
     (case item of
        Inr (TText t) \<Rightarrow> serve_received ck now (of_nat (length (utf8_encode t)))
      | Inr (TBinary b) \<Rightarrow> serve_received ck now (of_nat (length b))
      | Inr (TPing b) \<Rightarrow> op_return (Some (TPong (payload (handle_ping b))), Continue)
      | Inr (TPong b) \<Rightarrow>
          op_then (op_on sv_heartbeat sv_heartbeat_update (handle_pong ck now b)) (\<lambda>_. op_return (None, Continue))
      | Inr (TClose _) \<Rightarrow> op_return (None, Break)
      | Inr TFrame \<Rightarrow> op_return (None, Continue)
      | Inl e \<Rightarrow> op_then (on_metrics (record_receive_error ck)) (\<lambda>_. op_return (None, Break)))"

text \<open>What follows the loop: the removal from the registry and its count, in one step.\<close>

definition serve_end :: "bool \<Rightarrow> instant \<Rightarrow> uuid \<Rightarrow> (ws_server, unit result) op" where
  "serve_end ck now u =
     op_then (op_update (\<lambda>s. s\<lparr>sv_connections := hm_remove u (sv_connections s)\<rparr>)) (\<lambda>_.
     op_then (on_metrics (record_disconnection ck now)) (\<lambda>_. op_return (Ok ())))"

definition set_task :: "uuid \<Rightarrow> task \<Rightarrow> ws_server \<Rightarrow> ws_server" where
  "set_task u t s =
     (case hm_get (sv_handlers s) u of
        None \<Rightarrow> s | Some h \<Rightarrow> set_handler u (h\<lparr>hd_task := t\<rparr>) s)"

text \<open>A turn of \<^verbatim>\<open>handle_client_messages\<close> with what follows it.\<close>

definition client_turn ::
  "bool \<Rightarrow> instant \<Rightarrow> uuid \<Rightarrow> (handler \<Rightarrow> (ws_server, tungstenite option \<times> turn) op) \<Rightarrow> ws_server \<Rightarrow> ws_server" where
  "client_turn ck now u f s =
     (case hm_get (sv_handlers s) u of
        None \<Rightarrow> s
      | Some h \<Rightarrow>
          if hd_task h \<noteq> Running then s
          else
            (case f h s of
               (s1, Panic) \<Rightarrow> set_task u Died s1
             | (s1, Ret (out, Continue)) \<Rightarrow> s1
             | (s1, Ret (out, Fail e)) \<Rightarrow> set_task u (Returned (Err e)) s1
             | (s1, Ret (out, Break)) \<Rightarrow>
                 (case serve_end ck now u s1 of
                    (s2, Panic) \<Rightarrow> set_task u Died s2
                  | (s2, Ret r) \<Rightarrow> set_task u (Returned r) s2)))"

section \<open>Shutdown and heartbeat\<close>

definition shutdown_message :: message where
  "shutdown_message = message_close (Some 1000) (Some (lit ''Server shutdown''))"

text \<open>Whether every close message found room; a full channel makes the call wait.\<close>

fun shutdown_loop :: "connected_client list \<Rightarrow> ws_server \<Rightarrow> ws_server \<times> bool" where
  "shutdown_loop [] s = (s, True)"
| "shutdown_loop (c # cs) s =
     (case connected_send shutdown_message (cn_id c) s of
        (s1, None) \<Rightarrow> (s1, False)
      | (s1, Some r) \<Rightarrow> shutdown_loop cs s1)"

definition server_shutdown :: "ws_server \<Rightarrow> ws_server \<times> bool" where
  "server_shutdown s =
     shutdown_loop (hm_values (sv_connections s)) (s\<lparr>sv_connections := hm_empty, sv_running := False\<rparr>)"

text \<open>A tick of the heartbeat task: whether it goes on, and the clients it warns about.\<close>

definition server_heartbeat_tick :: "instant \<Rightarrow> ws_server \<Rightarrow> bool \<times> uuid list" where
  "server_heartbeat_tick now s =
     (if \<not> sv_running s then (False, [])
      else (True, if is_alive now (sv_heartbeat s) then [] else map cn_id (server_clients s)))"

definition server_run_heartbeat :: "(instant \<times> ws_server) list \<Rightarrow> ws_server \<Rightarrow> unit result option" where
  "server_run_heartbeat turns s =
     (if \<not> hb_is_enabled (sv_heartbeat s) then Some (Ok ())
      else
        (case ping_interval (sv_heartbeat s) of
           Inl e \<Rightarrow> Some (Err e)
         | Inr d \<Rightarrow> if list_ex (\<lambda>(now, s1). \<not> fst (server_heartbeat_tick now s1)) turns then Some (Ok ()) else None))"

section \<open>Traces\<close>

text \<open>\<open>Rebroadcasts\<close> and \<open>Shuts\<close> are a broadcast and a shutdown that waited for room in a channel and go
  on with the clients that are left; a waiting send to one client is that send again.\<close>

datatype server_event =
    Accepts "rstr + rstr"
  | Registers "rstr option" uuid rstr
  | HWrites uuid bool "rstr option"
  | HArrives uuid "rstr + tungstenite"
  | SendsTo uuid message
  | Broadcasts message
  | Rebroadcasts message "connected_client list"
  | ShutsDown
  | Shuts "connected_client list"

fun server_step :: "bool \<Rightarrow> instant \<times> server_event \<Rightarrow> ws_server \<Rightarrow> ws_server" where
  "server_step ck (now, Accepts a) s = fst (accept_turn ck a s)"
| "server_step ck (now, Registers failed u addr) s =
     (if sv_pending s = 0 then s else fst (handle_connection ck now failed u addr s))"
| "server_step ck (now, HWrites u held failed) s = client_turn ck now u (serve_outgoing ck held failed u) s"
| "server_step ck (now, HArrives u item) s = client_turn ck now u (\<lambda>h. serve_incoming ck now item) s"
| "server_step ck (now, SendsTo u m) s = fst (connected_send m u s)"
| "server_step ck (now, Broadcasts m) s = fst (broadcast ck now m s)"
| "server_step ck (now, Rebroadcasts m cs) s = fst (broadcast_loop ck now m cs 0 s)"
| "server_step ck (now, Shuts cs) s = fst (shutdown_loop cs s)"
| "server_step ck (now, ShutsDown) s = fst (server_shutdown s)"

text \<open>The ids drawn in a trace.\<close>

fun registered :: "(instant \<times> server_event) list \<Rightarrow> uuid list" where
  "registered [] = []"
| "registered ((now, Registers failed u addr) # es) = u # registered es"
| "registered (x # es) = registered es"

definition has_shutdown :: "(instant \<times> server_event) list \<Rightarrow> bool" where
  "has_shutdown es = list_ex (\<lambda>(now, e). e = ShutsDown) es"

section \<open>Frames\<close>

text \<open>What became of the task of a client.\<close>

definition task_of :: "ws_server \<Rightarrow> uuid \<Rightarrow> task option" where
  "task_of s u = map_option hd_task (hm_get (sv_handlers s) u)"

text \<open>A step that touches neither the registry, nor the fate of a task, nor the active count.\<close>

definition quiet :: "ws_server \<Rightarrow> ws_server \<Rightarrow> bool" where
  "quiet s s' \<longleftrightarrow>
     sv_connections s' = sv_connections s \<and> task_of s' = task_of s \<and> sv_config s' = sv_config s \<and>
     active_connections (sv_metrics s') = active_connections (sv_metrics s)"

lemma quiet_refl [simp]: "quiet s s"
  by (simp add: quiet_def)

lemma quiet_trans: "quiet s s' \<Longrightarrow> quiet s' s'' \<Longrightarrow> quiet s s''"
  by (simp add: quiet_def)

lemma task_of_set_handler: "task_of (set_handler u h s) = (task_of s)(u \<mapsto> hd_task h)"
  by (auto simp: task_of_def set_handler_def hm.lookup_insert)

lemma quiet_set_handler:
  "hm_get (sv_handlers s) u = Some h \<Longrightarrow> hd_task h' = hd_task h \<Longrightarrow> quiet s (set_handler u h' s)"
  by (auto simp: quiet_def task_of_set_handler) (auto simp: set_handler_def task_of_def)

lemma op_add_active:
  "active_connections (fst (op_add ck get upd n m)) = active_connections m"
  if "\<And>v. active_connections (upd (\<lambda>_. v) m) = active_connections m"
  using that by (simp add: op_add_def split: outcome.splits)

lemma metrics_active [simp]:
  "active_connections (fst (record_message_sent ck now n m)) = active_connections m"
  "active_connections (fst (record_message_received ck now n m)) = active_connections m"
  "active_connections (fst (record_connection_error ck m)) = active_connections m"
  "active_connections (fst (record_receive_error ck m)) = active_connections m"
  by (simp_all add: metrics_ops op_then_fst op_add_active op_update_def split: outcome.splits)

lemma quiet_update [simp]:
  "quiet s (s\<lparr>sv_backpressure := b\<rparr>)" "quiet s (s\<lparr>sv_heartbeat := h\<rparr>)" "quiet s (s\<lparr>sv_pending := n\<rparr>)"
  "active_connections m = active_connections (sv_metrics s) \<Longrightarrow> quiet s (s\<lparr>sv_metrics := m\<rparr>)"
  by (simp_all add: quiet_def task_of_def fun_eq_iff)

lemma quiet_metrics_op:
  "(\<And>m. active_connections (fst (f m)) = active_connections m) \<Longrightarrow> quiet s (fst (on_metrics f s))"
  by (simp add: op_on_fst)

lemma quiet_then:
  "quiet s (fst (f s)) \<Longrightarrow> (\<And>a s'. quiet s' (fst (g a s'))) \<Longrightarrow> quiet s (fst (op_then f g s))"
  by (auto simp: op_then_fst intro: quiet_trans split: outcome.splits)

lemma quiet_return [simp]: "quiet s (fst (op_return a s))"
  by (simp add: op_return_def)

lemma connected_send_quiet: "quiet s (fst (connected_send m u s))"
  by (auto simp: connected_send_def intro!: quiet_set_handler split: option.splits)

lemma broadcast_loop_quiet: "quiet s (fst (broadcast_loop ck now m cs n s))"
proof (induction cs arbitrary: n s)
  case (Cons c cs)
  obtain s1 r where r: "connected_send m (cn_id c) s = (s1, r)" by (cases "connected_send m (cn_id c) s")
  then have s1: "quiet s s1" using connected_send_quiet [of s m "cn_id c"] by simp
  have "quiet s1 (fst (op_then (on_metrics (record_message_sent ck now (msg_size m)))
      (\<lambda>_. broadcast_loop ck now m cs (n + 1)) s1))"
    by (intro quiet_then quiet_metrics_op Cons.IH) simp
  with s1 Cons.IH [where s = s1 and n = n] r show ?case
    by (auto intro: quiet_trans split: option.splits sum.splits)
qed simp

lemma broadcast_quiet: "quiet s (fst (broadcast ck now m s))"
  by (simp add: broadcast_def broadcast_loop_quiet)

lemma shutdown_loop_quiet: "quiet s (fst (shutdown_loop cs s))"
proof (induction cs arbitrary: s)
  case (Cons c cs)
  obtain s1 r where r: "connected_send shutdown_message (cn_id c) s = (s1, r)"
    by (cases "connected_send shutdown_message (cn_id c) s")
  then have "quiet s s1" using connected_send_quiet [of s shutdown_message "cn_id c"] by simp
  with Cons.IH [of s1] r show ?case by (auto intro: quiet_trans split: option.splits)
qed simp

lemma accept_turn_quiet: "quiet s (fst (accept_turn ck a s))"
  by (auto simp: accept_turn_def intro!: quiet_then quiet_metrics_op split: sum.splits)

lemma serve_outgoing_quiet:
  assumes "hm_get (sv_handlers s) u = Some h"
  shows "quiet s (fst (serve_outgoing ck held failed u h s))"
proof -
  have set: "quiet s (set_handler u (h\<lparr>hd_queue := ms\<rparr>) s)" for ms
    using assms by (intro quiet_set_handler) simp_all
  moreover have "quiet s (fst (op_then (op_on sv_backpressure sv_backpressure_update (record_send ck (msg_size m)))
      (\<lambda>_. op_return (Some t, Continue)) (set_handler u (h\<lparr>hd_queue := ms\<rparr>) s)))"
    for m and t :: tungstenite and ms
    by (rule quiet_trans [OF set], rule quiet_then) (simp_all add: op_on_fst)
  ultimately show ?thesis
    by (simp add: serve_outgoing_def Let_def split: list.split sum.split option.split)
qed

lemma serve_incoming_quiet: "quiet s (fst (serve_incoming ck now item s))"
  by (cases item; (cases "projr item")?)
    (auto simp: serve_incoming_def serve_received_def op_update_def op_on_fst intro!: quiet_then quiet_metrics_op)

lemma set_task_effect:
  "sv_connections (set_task u t s) = sv_connections s"
  "sv_metrics (set_task u t s) = sv_metrics s"
  "sv_config (set_task u t s) = sv_config s"
  "task_of (set_task u t s) = (if task_of s u = None then task_of s else (task_of s)(u \<mapsto> t))"
  by (auto simp: set_task_def task_of_set_handler split: option.splits)
     (auto simp: set_handler_def task_of_def)

text \<open>What a turn of a client's task can do: nothing, a step of its own, the end that leaves the
  client registered, or the end with the clean-up.\<close>

lemma client_turn_cases:
  assumes "\<And>h. hm_get (sv_handlers s) u = Some h \<Longrightarrow> quiet s (fst (f h s))"
  obtains "quiet s (client_turn ck now u f s)"
  | s1 t where "task_of s u = Some Running" "quiet s s1" "t \<noteq> Running" "t \<noteq> Returned (Ok ())"
      "client_turn ck now u f s = set_task u t s1"
  | s1 s2 r where "task_of s u = Some Running" "quiet s s1" "serve_end ck now u s1 = (s2, r)"
      "client_turn ck now u f s = set_task u (case r of Ret x \<Rightarrow> Returned x | Panic \<Rightarrow> Died) s2"
proof (cases "hm_get (sv_handlers s) u")
  case None
  with that(1) show ?thesis by (simp add: client_turn_def)
next
  case (Some h)
  show ?thesis
  proof (cases "hd_task h = Running")
    case False
    with Some that(1) show ?thesis by (simp add: client_turn_def)
  next
    case True
    with Some have running: "task_of s u = Some Running" by (simp add: task_of_def)
    obtain s1 r where r: "f h s = (s1, r)" by (cases "f h s")
    with assms [OF Some] have s1: "quiet s s1" by simp
    show ?thesis
    proof (cases r)
      case Panic
      with that(2) [of s1 Died] running s1 r Some True show ?thesis by (simp add: client_turn_def)
    next
      case (Ret x)
      obtain out e where x: "x = (out, e)" by (cases x)
      show ?thesis
      proof (cases e)
        case Continue
        with that(1) s1 r Some True Ret x show ?thesis by (simp add: client_turn_def)
      next
        case Break
        obtain s2 r2 where e2: "serve_end ck now u s1 = (s2, r2)" by (cases "serve_end ck now u s1")
        with that(3) [of s1 s2 r2] running s1 r Some True Ret x Break show ?thesis
          by (cases r2) (simp_all add: client_turn_def)
      next
        case (Fail err)
        with that(2) [of s1 "Returned (Err err)"] running s1 r Some True Ret x show ?thesis
          by (simp add: client_turn_def)
      qed
    qed
  qed
qed

section \<open>The registry\<close>

text \<open>
  The invariant: exactly the clients whose task runs or has failed are registered, under
  their own id, and the active count is their number.
\<close>

definition server_ok :: "ws_server \<Rightarrow> bool" where
  "server_ok s \<longleftrightarrow>
     hm_wf (sv_connections s) \<and>
     (\<forall>u. (hm_get (sv_connections s) u \<noteq> None) = (\<exists>t. task_of s u = Some t \<and> t \<noteq> Returned (Ok ()))) \<and>
     (\<forall>u c. hm_get (sv_connections s) u = Some c \<longrightarrow> cn_id c = u) \<and>
     active_connections (sv_metrics s) = of_nat (hm_len (sv_connections s))"

lemma server_ok_new: "server_ok (server_new cfg)"
  by (simp add: server_ok_def server_new_def hm.ok_empty task_of_def metrics_new_def)
     (simp add: hm_len_def hm_empty_def)

lemma server_ok_quiet: "quiet s s' \<Longrightarrow> server_ok s \<Longrightarrow> server_ok s'"
  by (simp add: server_ok_def quiet_def)

lemma registers_cases:
  obtains "quiet s (fst (handle_connection False now failed u addr s))"
  | s1 where "fst (handle_connection False now failed u addr s) = set_handler u \<lparr>hd_queue = [], hd_task = Running\<rparr> s1"
      "sv_connections s1 = hm_insert u \<lparr>cn_id = u, cn_remote_addr = addr\<rparr> (sv_connections s)"
      "task_of s1 = task_of s" "sv_config s1 = sv_config s"
      "active_connections (sv_metrics s1) = active_connections (sv_metrics s) + 1"
proof (cases failed)
  case (Some e)
  with that(1) show ?thesis by (simp add: handle_connection_def Let_def)
next
  case None
  show ?thesis
  proof (cases "channel_ok (sv_buffer_size (sv_config s))")
    case False
    with None that(1) show ?thesis by (simp add: handle_connection_def Let_def)
  next
    case True
    let ?s1 = "s\<lparr>sv_pending := sv_pending s - 1,
        sv_connections := hm_insert u \<lparr>cn_id = u, cn_remote_addr = addr\<rparr> (sv_connections s),
        sv_metrics := fst (record_connection False now (sv_metrics s))\<rparr>"
    have "fst (handle_connection False now failed u addr s) = set_handler u \<lparr>hd_queue = [], hd_task = Running\<rparr> ?s1"
      using None True
      by (simp add: handle_connection_def Let_def op_then_def op_on_def op_update_def op_return_def
          record_connection_def op_add_release touch_def)
    moreover have "active_connections (sv_metrics ?s1) = active_connections (sv_metrics s) + 1"
      by (simp add: record_connection_def op_then_def op_update_def op_add_release touch_def)
    moreover have "task_of ?s1 = task_of s" by (simp add: task_of_def fun_eq_iff)
    ultimately show ?thesis using that(2) [of ?s1] by simp
  qed
qed

lemma set_handler_keeps [simp]:
  "sv_connections (set_handler u h s) = sv_connections s" "sv_metrics (set_handler u h s) = sv_metrics s"
  "sv_config (set_handler u h s) = sv_config s"
  by (simp_all add: set_handler_def)

lemma registers_ok:
  assumes "server_ok s" and "task_of s u = None"
  shows "server_ok (fst (handle_connection False now failed u addr s))"
proof (rule registers_cases [of s now failed u addr])
  assume "quiet s (fst (handle_connection False now failed u addr s))"
  with assms(1) show ?thesis by (blast intro: server_ok_quiet)
next
  fix s1
  assume *: "fst (handle_connection False now failed u addr s) = set_handler u \<lparr>hd_queue = [], hd_task = Running\<rparr> s1"
      "sv_connections s1 = hm_insert u \<lparr>cn_id = u, cn_remote_addr = addr\<rparr> (sv_connections s)"
      "task_of s1 = task_of s"
      "active_connections (sv_metrics s1) = active_connections (sv_metrics s) + 1"
  have "(hm_get (sv_connections s) u \<noteq> None) = (\<exists>t. task_of s u = Some t \<and> t \<noteq> Returned (Ok ()))"
    using assms(1) unfolding server_ok_def by blast
  with assms(2) have "hm_get (sv_connections s) u = None" by simp
  with assms(1) show ?thesis
    by (auto simp: server_ok_def * task_of_set_handler hm.ok_insert hm.lookup_insert hm.size_insert add.commute)
qed

lemma serve_end_release:
  "serve_end False now u s =
     (s\<lparr>sv_connections := hm_remove u (sv_connections s),
        sv_metrics := fst (record_disconnection False now (sv_metrics s))\<rparr>, Ret (Ok ()))"
  by (simp add: serve_end_def op_then_def op_on_def op_update_def op_return_def record_disconnection_def
      op_add_release touch_def)

lemma client_turn_ok:
  assumes ok: "server_ok s" and small: "hm_len (sv_connections s) < 2 ^ 64"
    and f: "\<And>h. hm_get (sv_handlers s) u = Some h \<Longrightarrow> quiet s (fst (f h s))"
  shows "server_ok (client_turn False now u f s) \<and>
    hm_len (sv_connections (client_turn False now u f s)) \<le> hm_len (sv_connections s)"
proof (rule client_turn_cases [of s u f False now], erule f)
  assume "quiet s (client_turn False now u f s)"
  with ok show ?thesis by (auto intro: server_ok_quiet simp: quiet_def)
next
  fix s1 t
  assume *: "task_of s u = Some Running" "quiet s s1" "t \<noteq> Returned (Ok ())"
      "client_turn False now u f s = set_task u t s1"
  with server_ok_quiet [OF *(2) ok] show ?thesis
    by (auto simp: server_ok_def set_task_effect quiet_def)
next
  fix s1 s2 r
  assume *: "task_of s u = Some Running" "quiet s s1" "serve_end False now u s1 = (s2, r)"
      "client_turn False now u f s = set_task u (case r of Ret x \<Rightarrow> Returned x | Panic \<Rightarrow> Died) s2"
  let ?s2 = "s1\<lparr>sv_connections := hm_remove u (sv_connections s1),
        sv_metrics := fst (record_disconnection False now (sv_metrics s1))\<rparr>"
  have "s2 = ?s2" and "r = Ret (Ok ())" using *(3) by (simp_all add: serve_end_release)
  with *(4) have s2: "client_turn False now u f s = set_task u (Returned (Ok ())) ?s2" by simp
  have ok1: "server_ok s1" using *(2) ok by (rule server_ok_quiet)
  have conns: "sv_connections s1 = sv_connections s" and task: "task_of s1 = task_of s"
      and act: "active_connections (sv_metrics s1) = active_connections (sv_metrics s)"
    using *(2) by (simp_all add: quiet_def)
  have reg: "hm_get (sv_connections s) u \<noteq> None" and wf: "hm_wf (sv_connections s)"
    using ok *(1) by (auto simp: server_ok_def)
  have len: "hm_len (hm_remove u (sv_connections s)) = hm_len (sv_connections s) - 1"
    using hm.size_remove [OF wf, of u] reg by simp
  have "active_connections (fst (record_disconnection False now (sv_metrics s1))) =
      sat_sub (of_nat (hm_len (sv_connections s))) 1"
    using ok act by (simp add: server_ok_def record_disconnection_def op_then_def op_update_def op_add_release touch_def)
  also have "\<dots> = of_nat (hm_len (sv_connections s) - 1)"
  proof -
    have "unat (of_nat (hm_len (sv_connections s)) :: u64) = hm_len (sv_connections s)"
      using small by (simp add: unat_of_nat)
    then have "unat (sat_sub (of_nat (hm_len (sv_connections s))) 1 :: u64) = hm_len (sv_connections s) - 1"
      by (simp add: unat_sat_sub)
    moreover have "unat (of_nat (hm_len (sv_connections s) - 1) :: u64) = hm_len (sv_connections s) - 1"
      using small by (simp add: unat_of_nat)
    ultimately show ?thesis by (simp add: word_unat_eq_iff)
  qed
  finally have act2: "active_connections (sv_metrics ?s2) = of_nat (hm_len (sv_connections ?s2))"
    using len conns by simp
  have "task_of ?s2 = task_of s" using task by (simp add: task_of_def fun_eq_iff)
  then show ?thesis
    using ok wf len act2 unfolding s2
    by (auto simp: server_ok_def set_task_effect conns hm.ok_remove hm.lookup_remove *(1) split: if_splits)
qed

lemma registered_Cons: "registered (x # es) = registered [x] @ registered es"
proof (cases x)
  case (Pair now e)
  then show ?thesis by (cases e) simp_all
qed

lemma client_turn_keeps_fresh:
  assumes "\<And>h. hm_get (sv_handlers s) u = Some h \<Longrightarrow> quiet s (fst (f h s))" and "task_of s v = None"
  shows "task_of (client_turn ck now u f s) v = None"
proof (rule client_turn_cases [of s u f ck now, OF assms(1)], assumption)
  fix s1 s2 r
  assume "serve_end ck now u s1 = (s2, r)" and s1: "quiet s s1" "task_of s u = Some Running"
    and eq: "client_turn ck now u f s = set_task u (case r of Ret x \<Rightarrow> Returned x | Panic \<Rightarrow> Died) s2"
  then have "sv_handlers s2 = sv_handlers s1"
    by (auto simp: serve_end_def op_then_def op_on_def op_update_def op_return_def split: prod.splits outcome.splits)
  then have "task_of s2 = task_of s" using s1 by (simp add: quiet_def) (simp add: task_of_def fun_eq_iff)
  with assms(2) s1(2) show ?thesis by (auto simp: eq set_task_effect)
qed (use assms(2) in \<open>auto simp: quiet_def set_task_effect\<close>)

lemma server_step_ok:
  assumes ok: "server_ok s" and small: "hm_len (sv_connections s) < 2 ^ 64"
    and fresh: "\<forall>u \<in> set (registered [(now, e)]). task_of s u = None" and e: "e \<noteq> ShutsDown"
  shows "server_ok (server_step False (now, e) s)" (is ?ok)
    and "hm_len (sv_connections (server_step False (now, e) s)) \<le> Suc (hm_len (sv_connections s))" (is ?len)
    and "task_of s v = None \<Longrightarrow> v \<notin> set (registered [(now, e)]) \<Longrightarrow>
           task_of (server_step False (now, e) s) v = None"
proof -
  let ?s = "server_step False (now, e) s"
  have q: "server_ok ?s \<and> hm_len (sv_connections ?s) \<le> Suc (hm_len (sv_connections s)) \<and>
      (task_of s v = None \<longrightarrow> task_of ?s v = None)" if "quiet s ?s"
    using server_ok_quiet [OF that ok] that by (simp add: quiet_def)
  have turn: "server_ok ?s \<and> hm_len (sv_connections ?s) \<le> Suc (hm_len (sv_connections s)) \<and>
      (task_of s v = None \<longrightarrow> task_of ?s v = None)"
    if "?s = client_turn False now u f s" "\<And>h. hm_get (sv_handlers s) u = Some h \<Longrightarrow> quiet s (fst (f h s))" for u f
    using client_turn_ok [of s u f now, OF ok small] client_turn_keeps_fresh [of s u f v False now] that by fastforce
  have "server_ok ?s \<and> hm_len (sv_connections ?s) \<le> Suc (hm_len (sv_connections s)) \<and>
      (task_of s v = None \<longrightarrow> v \<notin> set (registered [(now, e)]) \<longrightarrow> task_of ?s v = None)"
  proof (cases e)
    case (Registers failed u addr)
    show ?thesis
    proof (cases "sv_pending s = 0")
      case True
      with Registers q show ?thesis by simp
    next
      case False
      then have step: "?s = fst (handle_connection False now failed u addr s)" using Registers by simp
      have "task_of s u = None" using fresh Registers by simp
      note reg = registers_ok [OF ok this, of now failed addr]
      show ?thesis
      proof (rule registers_cases [of s now failed u addr])
        assume "quiet s (fst (handle_connection False now failed u addr s))"
        with q step show ?thesis by simp
      next
        fix s1
        assume *: "fst (handle_connection False now failed u addr s) =
            set_handler u \<lparr>hd_queue = [], hd_task = Running\<rparr> s1"
          "sv_connections s1 = hm_insert u \<lparr>cn_id = u, cn_remote_addr = addr\<rparr> (sv_connections s)"
          "task_of s1 = task_of s"
        moreover have "hm_len (hm_insert u \<lparr>cn_id = u, cn_remote_addr = addr\<rparr> (sv_connections s)) \<le>
            Suc (hm_len (sv_connections s))"
          using ok by (intro hm.size_insert_le) (simp add: server_ok_def)
        ultimately show ?thesis
          using reg Registers unfolding step by (simp add: task_of_set_handler)
      qed
    qed
  next
    case (Accepts a)
    with q accept_turn_quiet show ?thesis by simp
  next
    case (HWrites u held failed)
    then show ?thesis using turn [of u] serve_outgoing_quiet by simp
  next
    case (HArrives u item)
    then show ?thesis using turn [of u] serve_incoming_quiet by simp
  next
    case (SendsTo u m)
    with q connected_send_quiet show ?thesis by simp
  next
    case (Broadcasts m)
    with q broadcast_quiet show ?thesis by simp
  next
    case (Rebroadcasts m cs)
    with q broadcast_loop_quiet show ?thesis by simp
  next
    case (Shuts cs)
    with q shutdown_loop_quiet show ?thesis by simp
  qed (use e in simp)
  then show ?ok and ?len and "task_of s v = None \<Longrightarrow> v \<notin> set (registered [(now, e)]) \<Longrightarrow> task_of ?s v = None"
    by blast+
qed

text \<open>C4: The registry is exact in a release build: as long as ids are not drawn twice and the server
  is not shut down, after any interleaving of accepts, handshakes, messages, broadcasts and
  ends the registered clients are exactly those whose task runs or has failed, each under its
  own id, and the active count is their number.\<close>

theorem server_registry:
  assumes "distinct (registered es)" and "\<not> has_shutdown es" and "length es < 2 ^ 64"
  shows "server_ok (fold (server_step False) es (server_new cfg))"
proof -
  have "server_ok (fold (server_step False) es s)"
    if "server_ok s" "\<forall>u \<in> set (registered es). task_of s u = None" "distinct (registered es)"
      "\<not> has_shutdown es" "hm_len (sv_connections s) + length es < 2 ^ 64" for s
    using that
  proof (induction es arbitrary: s)
    case (Cons x es)
    obtain now e where x: "x = (now, e)" by (cases x)
    let ?s = "server_step False (now, e) s"
    have fresh: "\<forall>u \<in> set (registered [(now, e)]). task_of s u = None"
      and dist: "distinct (registered es)" "set (registered [(now, e)]) \<inter> set (registered es) = {}"
      and rest: "\<forall>u \<in> set (registered es). task_of s u = None"
      using Cons.prems(2,3) unfolding x registered_Cons [of "(now, e)" es] by auto
    have e: "e \<noteq> ShutsDown" and es: "\<not> has_shutdown es" and small: "hm_len (sv_connections s) < 2 ^ 64"
      using Cons.prems(4,5) by (simp_all add: x has_shutdown_def)
    note step = server_step_ok [OF Cons.prems(1) small fresh e]
    have "\<forall>u \<in> set (registered es). task_of ?s u = None"
      using step(3) rest dist(2) by blast
    moreover have "hm_len (sv_connections ?s) + length es < 2 ^ 64"
      using step(2) Cons.prems(5) by simp
    ultimately show ?case
      using Cons.IH [of ?s] step(1) dist(1) es by (simp add: x)
  qed simp
  from this [OF server_ok_new] assms show ?thesis
    by (simp add: server_new_def task_of_def) (simp add: hm_len_def hm_empty_def)
qed

theorem server_registry_witness:
  "server_ok (fold (server_step False)
     [(0, Accepts (Inr [])), (1, Registers None 7 []), (2, HArrives 7 (Inr (TClose None)))]
     (server_new (server_config_new [])))"
  using server_registry [of "[(0, Accepts (Inr [])), (1, Registers None 7 []), (2, HArrives 7 (Inr (TClose None)))]"]
  by (simp add: has_shutdown_def)

section \<open>Clients that are never removed\<close>

text \<open>Registered although the task that would remove it is gone.\<close>

definition leaked :: "uuid \<Rightarrow> ws_server \<Rightarrow> bool" where
  "leaked u s \<longleftrightarrow> get_client u s \<noteq> None \<and> task_of s u \<noteq> None \<and> task_of s u \<noteq> Some Running"

lemma leaked_quiet: "quiet s s' \<Longrightarrow> leaked u s \<Longrightarrow> leaked u s'"
  by (simp add: leaked_def quiet_def get_client_def)

lemma handle_connection_others:
  assumes "w \<noteq> u"
  shows "hm_get (sv_connections (fst (handle_connection ck now failed u addr s))) w = hm_get (sv_connections s) w"
    and "task_of (fst (handle_connection ck now failed u addr s)) w = task_of s w"
proof -
  have *: "hm_get (sv_connections (fst (handle_connection ck now failed u addr s))) w = hm_get (sv_connections s) w \<and>
      hm_get (sv_handlers (fst (handle_connection ck now failed u addr s))) w = hm_get (sv_handlers s) w"
    using assms
    by (auto simp: handle_connection_def Let_def op_then_fst op_on_fst op_update_def op_return_def set_handler_def
        hm.lookup_insert split: option.splits outcome.splits)
  then show "hm_get (sv_connections (fst (handle_connection ck now failed u addr s))) w = hm_get (sv_connections s) w"
    by blast
  show "task_of (fst (handle_connection ck now failed u addr s)) w = task_of s w"
    using * by (simp add: task_of_def)
qed

lemma serve_end_others:
  assumes "serve_end ck now u s = (s', r)" and "w \<noteq> u"
  shows "hm_get (sv_connections s') w = hm_get (sv_connections s) w \<and> task_of s' = task_of s"
  using assms
  by (auto simp: serve_end_def op_then_def op_on_def op_update_def op_return_def hm.lookup_remove task_of_def
      fun_eq_iff split: prod.splits outcome.splits)

lemma leaked_turn:
  assumes "leaked w s" and "\<And>h. hm_get (sv_handlers s) u = Some h \<Longrightarrow> quiet s (fst (f h s))"
  shows "leaked w (client_turn ck now u f s)"
proof (rule client_turn_cases [of s u f ck now, OF assms(2)], assumption)
  assume "quiet s (client_turn ck now u f s)"
  with assms(1) show ?thesis by (blast intro: leaked_quiet)
next
  fix s1 t
  assume "task_of s u = Some Running" "quiet s s1" "client_turn ck now u f s = set_task u t s1"
  with assms(1) show ?thesis
    by (auto simp: leaked_def quiet_def get_client_def set_task_effect)
next
  fix s1 s2 r
  assume *: "task_of s u = Some Running" "quiet s s1" "serve_end ck now u s1 = (s2, r)"
      "client_turn ck now u f s = set_task u (case r of Ret x \<Rightarrow> Returned x | Panic \<Rightarrow> Died) s2"
  have "w \<noteq> u" using assms(1) *(1) by (auto simp: leaked_def)
  with serve_end_others [OF *(3)] *(1,2) assms(1) show ?thesis
    by (auto simp: *(4) leaked_def quiet_def get_client_def set_task_effect)
qed

lemma leaked_step:
  assumes "leaked w s" and "e \<noteq> ShutsDown" and "w \<notin> set (registered [(now, e)])"
  shows "leaked w (server_step ck (now, e) s)"
proof (cases e)
  case (Registers failed u addr)
  with assms handle_connection_others [of w u ck now failed addr s] show ?thesis
    by (auto simp: leaked_def get_client_def)
next
  case (HWrites u held failed)
  with assms(1) show ?thesis by (simp add: leaked_turn serve_outgoing_quiet)
next
  case (HArrives u item)
  with assms(1) show ?thesis by (simp add: leaked_turn serve_incoming_quiet)
qed (use assms in \<open>auto intro: leaked_quiet accept_turn_quiet connected_send_quiet broadcast_quiet
      broadcast_loop_quiet shutdown_loop_quiet\<close>)

lemma leaked_run:
  "leaked w s \<Longrightarrow> \<not> has_shutdown es \<Longrightarrow> w \<notin> set (registered es) \<Longrightarrow> leaked w (fold (server_step ck) es s)"
proof (induction es arbitrary: s)
  case (Cons x es)
  obtain now e where x: "x = (now, e)" by (cases x)
  have "leaked w (server_step ck x s)"
    using Cons.prems registered_Cons [of x es] unfolding x by (intro leaked_step) (auto simp: has_shutdown_def)
  with Cons registered_Cons [of x es] show ?case by (simp add: has_shutdown_def)
qed simp

lemma leaked_send: "leaked u s \<Longrightarrow> connected_send m u s = (s, Some (Err ConnectionClosed))"
  by (auto simp: leaked_def task_of_def connected_send_def split: option.splits)

text \<open>C14: When a write to a client fails, or a queued text is not UTF-8, its task returns without the
  clean-up: the client stays registered until the server is shut down, whatever happens, and
  every send to it fails.\<close>

theorem write_error_leaks:
  assumes "get_client u s \<noteq> None" and "hm_get (sv_handlers s) u = Some h" and "hd_task h = Running"
    and "hd_queue h = m # ms" and "failed \<noteq> None \<or> to_tungstenite m = Err e"
    and "\<not> has_shutdown es" and "u \<notin> set (registered es)"
    and s2: "s2 = fold (server_step ck) ((now, HWrites u held failed) # es) s"
  shows "get_client u s2 \<noteq> None \<and> connected_send m' u s2 = (s2, Some (Err ConnectionClosed))"
proof -
  have "leaked u (server_step ck (now, HWrites u held failed) s)"
    using assms(1-5)
    by (auto simp: client_turn_def serve_outgoing_def Let_def leaked_def get_client_def set_task_effect
        task_of_set_handler split: sum.splits option.splits)
  then have "leaked u s2" using leaked_run assms(6,7) by (simp add: s2)
  then show ?thesis using leaked_send by (simp add: leaked_def)
qed

text \<open>One client registered with a message to write.\<close>

definition one_client :: "nat \<Rightarrow> ws_server" where
  "one_client mx =
     (server_new (server_with_max_connections mx (server_config_new [])))
       \<lparr>sv_connections := hm_insert 7 \<lparr>cn_id = 7, cn_remote_addr = []\<rparr> hm_empty,
        sv_handlers := hm_insert 7 \<lparr>hd_queue = [message_ping []], hd_task = Running\<rparr> hm_empty\<rparr>"

theorem write_error_leaks_witness:
  "get_client 7 (fold (server_step True)
     [(0, HWrites 7 False (Some (lit ''reset''))), (1, HArrives 7 (Inr (TClose None)))] (one_client 1)) \<noteq> None"
  using write_error_leaks [where u = 7 and s = "one_client 1" and failed = "Some (lit ''reset'')" and ck = True
      and es = "[(1, HArrives 7 (Inr (TClose None)))]" and now = 0 and held = False and m = "message_ping []" and ms = "[]",
      OF _ _ _ _ _ _ _ refl, of "\<lparr>hd_queue = [message_ping []], hd_task = Running\<rparr>"]
  by (simp add: one_client_def get_client_def hm.lookup_insert has_shutdown_def del: server_step.simps)

lemma shutdown_connections: "sv_connections (fst (server_shutdown s)) = hm_empty"
  using shutdown_loop_quiet [of "s\<lparr>sv_connections := hm_empty, sv_running := False\<rparr>" "hm_values (sv_connections s)"]
  by (simp add: server_shutdown_def quiet_def)

lemma client_turn_config:
  assumes "\<And>h. hm_get (sv_handlers s) u = Some h \<Longrightarrow> quiet s (fst (f h s))"
  shows "sv_config (client_turn ck now u f s) = sv_config s"
proof (rule client_turn_cases [of s u f ck now, OF assms], assumption)
  fix s1 s2 r
  assume "serve_end ck now u s1 = (s2, r)" "quiet s s1"
    "client_turn ck now u f s = set_task u (case r of Ret x \<Rightarrow> Returned x | Panic \<Rightarrow> Died) s2"
  then show ?thesis
    by (auto simp: set_task_effect serve_end_def op_then_def op_on_def op_update_def op_return_def quiet_def
        split: prod.splits outcome.splits)
qed (auto simp: quiet_def set_task_effect)

lemma step_config: "sv_config (server_step ck x s) = sv_config s"
proof -
  obtain now e where x: "x = (now, e)" by (cases x)
  have q: "quiet s s' \<Longrightarrow> sv_config s' = sv_config s" for s' by (simp add: quiet_def)
  show ?thesis
  proof (cases e)
    case (Registers failed u addr)
    then show ?thesis
      unfolding x
      by (auto simp: handle_connection_def Let_def op_then_fst op_on_fst op_update_def op_return_def
          split: option.splits outcome.splits)
  next
    case ShutsDown
    then show ?thesis
      using shutdown_loop_quiet [of "s\<lparr>sv_connections := hm_empty, sv_running := False\<rparr>" "hm_values (sv_connections s)"]
      by (simp add: x server_shutdown_def quiet_def)
  next
    case (HWrites u held failed)
    then show ?thesis by (simp add: x client_turn_config serve_outgoing_quiet)
  next
    case (HArrives u item)
    then show ?thesis by (simp add: x client_turn_config serve_incoming_quiet)
  qed (simp_all add: x q [OF accept_turn_quiet] q [OF connected_send_quiet] q [OF broadcast_quiet]
      q [OF broadcast_loop_quiet] q [OF shutdown_loop_quiet])
qed

lemma run_config: "sv_config (fold (server_step ck) es s) = sv_config s"
  by (induction es arbitrary: s) (simp_all add: step_config)

text \<open>C22: Clients left behind in this way use up the limit: once \<^verbatim>\<open>max_connections\<close> of them have
  accumulated, every new connection is refused until the server is shut down.\<close>

theorem leaks_exhaust_limit:
  assumes "distinct us" and "\<forall>u \<in> set us. leaked u s" and "sv_max_connections (sv_config s) \<le> length us"
    and "\<not> has_shutdown es" and "set us \<inter> set (registered es) = {}"
  shows "snd (accept_turn ck (Inr addr) (fold (server_step ck) es s)) \<noteq> Ret True"
proof -
  let ?s = "fold (server_step ck) es s"
  have cfg: "sv_config ?s = sv_config s" by (rule run_config)
  have "set us \<subseteq> fst ` set (sv_connections ?s)"
  proof
    fix u assume u: "u \<in> set us"
    then have "leaked u ?s" using assms(2,4,5) by (intro leaked_run) auto
    then show "u \<in> fst ` set (sv_connections ?s)"
      by (auto simp: leaked_def get_client_def hm_get_def map_of_eq_None_iff)
  qed
  then have "length us \<le> card (fst ` set (sv_connections ?s))"
    using assms(1) card_mono [of "fst ` set (sv_connections ?s)" "set us"] by (simp add: distinct_card)
  also have "\<dots> \<le> length (sv_connections ?s)"
    using card_image_le [of "set (sv_connections ?s)" fst] card_length [of "sv_connections ?s"] by simp
  finally have "sv_max_connections (sv_config ?s) \<le> hm_len (sv_connections ?s)"
    using assms(3) cfg by (simp add: hm_len_def)
  then show ?thesis
    by (auto simp: accept_turn_def op_then_def op_return_def split: prod.splits outcome.splits)
qed

theorem leaks_exhaust_limit_witness:
  "snd (accept_turn True (Inr []) (fold (server_step True) [(5, Broadcasts (message_ping []))]
     (set_task 7 (Returned (Err Timeout)) (one_client 1)))) \<noteq> Ret True"
proof (rule leaks_exhaust_limit [where us = "[7]"])
  show "\<forall>u \<in> set [7]. leaked u (set_task 7 (Returned (Err Timeout)) (one_client 1))"
    by (simp add: leaked_def get_client_def set_task_effect)
       (simp add: one_client_def task_of_def hm.lookup_insert)
  have "sv_config (one_client 1) = server_with_max_connections 1 (server_config_new [])"
    by (simp add: one_client_def server_new_def)
  then show "sv_max_connections (sv_config (set_task 7 (Returned (Err Timeout)) (one_client 1))) \<le> length [7]"
    by (simp add: set_task_effect server_with_max_connections_def)
  show "distinct [7 :: uuid]" by simp
  show "\<not> has_shutdown [(5, Broadcasts (message_ping []))]" by (simp add: has_shutdown_def)
  show "set [7] \<inter> set (registered [(5, Broadcasts (message_ping []))]) = {}" by simp
qed

section \<open>The limit on connections\<close>

text \<open>A step in which every admitted connection registers before the next is accepted.\<close>

fun serial_step :: "bool \<Rightarrow> instant \<times> server_event \<Rightarrow> ws_server \<Rightarrow> ws_server" where
  "serial_step ck (now, Registers failed u addr) s =
     (case accept_turn ck (Inr addr) s of
        (s1, Ret True) \<Rightarrow> fst (handle_connection ck now failed u addr s1)
      | (s1, _) \<Rightarrow> s1)"
| "serial_step ck x s = server_step ck x s"

definition server_within_limit :: "ws_server \<Rightarrow> bool" where
  "server_within_limit s \<longleftrightarrow>
     hm_wf (sv_connections s) \<and> hm_len (sv_connections s) \<le> sv_max_connections (sv_config s)"

lemma within_quiet: "quiet s s' \<Longrightarrow> server_within_limit s \<Longrightarrow> server_within_limit s'"
  by (simp add: server_within_limit_def quiet_def)

lemma within_turn:
  assumes within: "server_within_limit s"
    and f: "\<And>h. hm_get (sv_handlers s) u = Some h \<Longrightarrow> quiet s (fst (f h s))"
  shows "server_within_limit (client_turn ck now u f s)"
proof (rule client_turn_cases [of s u f ck now, OF f], assumption)
  assume "quiet s (client_turn ck now u f s)"
  then show ?thesis using within by (rule within_quiet)
next
  fix s1 t
  assume "quiet s s1" "client_turn ck now u f s = set_task u t s1"
  with within_quiet [OF _ within] show ?thesis by (simp add: server_within_limit_def set_task_effect)
next
  fix s1 s2 r
  assume *: "quiet s s1" "serve_end ck now u s1 = (s2, r)"
      "client_turn ck now u f s = set_task u (case r of Ret x \<Rightarrow> Returned x | Panic \<Rightarrow> Died) s2"
  then have s2: "sv_connections s2 = hm_remove u (sv_connections s)" "sv_config s2 = sv_config s"
    by (auto simp: serve_end_def op_then_def op_on_def op_update_def op_return_def quiet_def
        split: prod.splits outcome.splits)
  have "hm_len (hm_remove u (sv_connections s)) \<le> hm_len (sv_connections s)"
    using within by (intro hm.size_remove_le) (simp add: server_within_limit_def)
  with within show ?thesis
    by (simp add: *(3) server_within_limit_def set_task_effect s2 hm.ok_remove)
qed

lemma handle_connection_connections:
  "sv_connections (fst (handle_connection ck now failed u addr s)) \<in>
     {sv_connections s, hm_insert u \<lparr>cn_id = u, cn_remote_addr = addr\<rparr> (sv_connections s)}"
  "sv_config (fst (handle_connection ck now failed u addr s)) = sv_config s"
  by (auto simp: handle_connection_def Let_def op_then_fst op_on_fst op_update_def op_return_def
      split: option.splits outcome.splits)

lemma within_step: "server_within_limit s \<Longrightarrow> server_within_limit (serial_step ck x s)"
proof -
  assume within: "server_within_limit s"
  obtain now e where x: "x = (now, e)" by (cases x)
  have quiet: "server_within_limit s'" if "quiet s s'" for s' using that within by (rule within_quiet)
  show ?thesis
  proof (cases e)
    case (Registers failed u addr)
    obtain s1 r where r: "accept_turn ck (Inr addr) s = (s1, r)" by (cases "accept_turn ck (Inr addr) s")
    then have s1: "server_within_limit s1" and conns: "sv_connections s1 = sv_connections s" "sv_config s1 = sv_config s"
      using quiet accept_turn_quiet [of s ck "Inr addr"] by (simp_all add: quiet_def)
    show ?thesis
    proof (cases "r = Ret True")
      case True
      with r have room: "hm_len (sv_connections s) < sv_max_connections (sv_config s)"
        by (auto simp: accept_turn_def op_then_def op_return_def split: if_splits prod.splits outcome.splits)
      have "hm_len (hm_insert u \<lparr>cn_id = u, cn_remote_addr = addr\<rparr> (sv_connections s)) \<le> Suc (hm_len (sv_connections s))"
        using within by (intro hm.size_insert_le) (simp add: server_within_limit_def)
      with room s1 handle_connection_connections [of ck now failed u addr s1]
      have "server_within_limit (fst (handle_connection ck now failed u addr s1))"
        by (auto simp: server_within_limit_def conns hm.ok_insert)
      with True r show ?thesis by (simp add: x Registers)
    next
      case False
      with r s1 show ?thesis by (auto simp: x Registers split: outcome.splits bool.splits)
    qed
  next
    case (HWrites u held failed)
    with within show ?thesis by (simp add: x within_turn serve_outgoing_quiet)
  next
    case (HArrives u item)
    with within show ?thesis by (simp add: x within_turn serve_incoming_quiet)
  next
    case ShutsDown
    then have "sv_connections (serial_step ck x s) = hm_empty" by (simp add: x shutdown_connections)
    then show ?thesis by (simp add: server_within_limit_def hm.ok_empty) (simp add: hm_len_def hm_empty_def)
  qed (use x quiet in \<open>auto intro: accept_turn_quiet connected_send_quiet broadcast_quiet
      broadcast_loop_quiet shutdown_loop_quiet\<close>)
qed

interpretation sl: invariant_machine "serial_step ck" server_within_limit for ck
  by unfold_locales (rule within_step)

lemma accepts_race:
  assumes "hm_len (sv_connections s) < sv_max_connections (sv_config s)"
  shows "fold (server_step ck) (replicate k (now, Accepts (Inr addr))) s = s\<lparr>sv_pending := sv_pending s + k\<rparr>"
  using assms
proof (induction k arbitrary: s)
  case (Suc k)
  then have "server_step ck (now, Accepts (Inr addr)) s = s\<lparr>sv_pending := sv_pending s + 1\<rparr>"
    by (simp add: accept_turn_def)
  with Suc show ?case by simp
qed simp

lemma registers_race:
  assumes "distinct us" and "\<forall>u \<in> set us. hm_get (sv_connections s) u = None"
    and "channel_ok (sv_buffer_size (sv_config s))" and "length us \<le> sv_pending s" and "hm_wf (sv_connections s)"
  shows "connection_count (fold (server_step False) (map (\<lambda>u. (now, Registers None u addr)) us) s) =
    connection_count s + length us"
  using assms
proof (induction us arbitrary: s)
  case (Cons u us)
  let ?s = "fst (handle_connection False now None u addr s)"
  have step: "server_step False (now, Registers None u addr) s = ?s" using Cons.prems(4) by simp
  have s: "sv_connections ?s = hm_insert u \<lparr>cn_id = u, cn_remote_addr = addr\<rparr> (sv_connections s)"
      "sv_config ?s = sv_config s" "sv_pending ?s = sv_pending s - 1"
    using Cons.prems(3)
    by (simp_all add: handle_connection_def Let_def op_then_def op_on_def op_update_def op_return_def
        record_connection_def op_add_release touch_def set_handler_def)
  have "connection_count ?s = connection_count s + 1"
    using Cons.prems(2,5) by (simp add: connection_count_def s hm.size_insert)
  moreover have "connection_count (fold (server_step False) (map (\<lambda>u. (now, Registers None u addr)) us) ?s) =
      connection_count ?s + length us"
    using Cons.prems by (intro Cons.IH) (auto simp: s hm.lookup_insert hm.ok_insert)
  ultimately show ?case by (simp add: step del: server_step.simps)
qed simp

text \<open>C13: When each accepted connection registers before the next is accepted, there are never more
  than \<^verbatim>\<open>max_connections\<close>, whatever else happens. The handshake runs between the check and the
  registration, so in general there is no bound: any number of connections that are accepted
  before the first of them has registered all get in.\<close>

theorem server_limit:
  assumes "channel_ok (sv_buffer_size cfg)" and "0 < sv_max_connections cfg" and "distinct us"
  shows "connection_count (fold (serial_step ck) es (server_new cfg)) \<le> sv_max_connections cfg \<and>
    connection_count (fold (server_step False)
      (replicate (length us) (t1, Accepts (Inr addr)) @ map (\<lambda>u. (t2, Registers None u addr)) us)
      (server_new cfg)) = length us"
proof
  have new: "sv_connections (server_new cfg) = hm_empty" "sv_config (server_new cfg) = cfg"
      "hm_len (hm_empty :: (uuid, connected_client) hmap) = 0"
    by (simp_all add: server_new_def hm_len_def hm_empty_def)
  have "server_within_limit (server_new cfg)"
    by (simp add: server_within_limit_def new hm.ok_empty)
  then have "server_within_limit (fold (serial_step ck) es (server_new cfg))" by (rule sl.run_inv)
  moreover have "sv_config (fold (serial_step ck) es s) = sv_config s" for s
  proof (induction es arbitrary: s)
    case (Cons x es)
    have "sv_config (serial_step ck x s) = sv_config s"
    proof (cases "(ck, x, s)" rule: serial_step.cases)
      case (1 _ now failed u addr _)
      then show ?thesis
        using accept_turn_quiet [of s ck "Inr addr"]
        by (auto simp: handle_connection_connections(2) quiet_def split: prod.splits outcome.splits bool.splits)
    qed (simp_all add: step_config del: server_step.simps)
    with Cons show ?case by simp
  qed simp
  ultimately show "connection_count (fold (serial_step ck) es (server_new cfg)) \<le> sv_max_connections cfg"
    by (simp add: server_within_limit_def connection_count_def new)
  show "connection_count (fold (server_step False)
      (replicate (length us) (t1, Accepts (Inr addr)) @ map (\<lambda>u. (t2, Registers None u addr)) us)
      (server_new cfg)) = length us"
    using assms accepts_race [of "server_new cfg" False "length us" t1 addr]
      registers_race [of us "server_new cfg\<lparr>sv_pending := sv_pending (server_new cfg) + length us\<rparr>" t2 addr]
    by (simp add: new connection_count_def hm.ok_empty)
qed

theorem server_limit_witness:
  "connection_count (fold (server_step False)
      (replicate 2 (0, Accepts (Inr [])) @ map (\<lambda>u. (1, Registers None u [])) [3, 4])
      (server_new (server_with_max_connections 1 (server_config_new [])))) = 2"
proof -
  let ?cfg = "server_with_max_connections 1 (server_config_new [])"
  have "channel_ok (sv_buffer_size ?cfg)" and "0 < sv_max_connections ?cfg" and "distinct [3, 4 :: uuid]"
    by (simp_all add: channel_ok_def server_with_max_connections_def server_config_new_def DEFAULT_BUFFER_SIZE_def)
  note both = server_limit [OF this, THEN conjunct2, of 0 "[]" 1]
  have "length [3, 4 :: uuid] = 2" by simp
  with both show ?thesis by (simp only:)
qed

section \<open>Broadcast\<close>

text \<open>What a broadcast should do to the channel of one client.\<close>

definition delivered :: "message \<Rightarrow> handler \<Rightarrow> handler" where
  "delivered m h = (if hd_task h = Running then h\<lparr>hd_queue := hd_queue h @ [m]\<rparr> else h)"

definition has_room :: "ws_server \<Rightarrow> uuid \<Rightarrow> bool" where
  "has_room s u =
     (case hm_get (sv_handlers s) u of
        None \<Rightarrow> True
      | Some h \<Rightarrow> hd_task h = Running \<longrightarrow> length (hd_queue h) < unat (sv_buffer_size (sv_config s)))"

lemma connected_send_room:
  assumes "has_room s u"
  shows "snd (connected_send m u s) =
      Some (if task_of s u = Some Running then Ok () else Err ConnectionClosed)"
    and "hm_get (sv_handlers (fst (connected_send m u s))) v =
      (if v = u then map_option (delivered m) (hm_get (sv_handlers s) u) else hm_get (sv_handlers s) v)"
  using assms
  by (auto simp: connected_send_def has_room_def task_of_def delivered_def set_handler_def hm.lookup_insert
      split: option.splits)

lemma broadcast_loop_exact:
  assumes "distinct (map cn_id cs)" and "\<forall>c \<in> set cs. has_room s (cn_id c)"
  shows "\<exists>s'. broadcast_loop False now m cs n s =
      (s', Ret (Some (n + length (filter (\<lambda>c. task_of s (cn_id c) = Some Running) cs)))) \<and>
    (\<forall>v. hm_get (sv_handlers s') v =
       (if v \<in> cn_id ` set cs then map_option (delivered m) (hm_get (sv_handlers s) v) else hm_get (sv_handlers s) v))"
  using assms
proof (induction cs arbitrary: n s)
  case (Cons c cs)
  let ?u = "cn_id c"
  obtain s1 r where r: "connected_send m ?u s = (s1, r)" by (cases "connected_send m ?u s")
  note send = connected_send_room [of s ?u m, unfolded r, simplified]
  have room: "has_room s ?u" using Cons.prems(2) by simp
  have s1: "quiet s s1" using connected_send_quiet [of s m ?u] r by simp
  define s2 where "s2 = (if task_of s ?u = Some Running
      then s1\<lparr>sv_metrics := fst (record_message_sent False now (msg_size m) (sv_metrics s1))\<rparr> else s1)"
  have s2: "task_of s2 = task_of s" "sv_config s2 = sv_config s" "sv_handlers s2 = sv_handlers s1"
    using s1 by (auto simp: s2_def quiet_def) (auto simp: task_of_def fun_eq_iff)
  have step: "broadcast_loop False now m (c # cs) n s =
      broadcast_loop False now m cs (if task_of s ?u = Some Running then n + 1 else n) s2"
    using send(1) [OF room]
    by (simp add: r s2_def record_message_sent_def op_then_def op_on_def op_update_def op_add_release touch_def)
  have other: "hm_get (sv_handlers s2) v = hm_get (sv_handlers s) v" if "v \<noteq> ?u" for v
    using send(2) [OF room, of v] that by (simp add: s2)
  have "\<forall>c \<in> set cs. has_room s2 (cn_id c)"
  proof
    fix d assume d: "d \<in> set cs"
    then have "cn_id d \<noteq> ?u" using Cons.prems(1) by (metis distinct.simps(2) imageI list.set_map list.simps(9))
    from other [OF this] have "has_room s2 (cn_id d) = has_room s (cn_id d)"
      unfolding has_room_def s2(2) by (rule arg_cong)
    with d Cons.prems(2) show "has_room s2 (cn_id d)" by simp
  qed
  with Cons.IH [of s2 "if task_of s ?u = Some Running then n + 1 else n"] Cons.prems(1)
  obtain s' where s': "broadcast_loop False now m cs (if task_of s ?u = Some Running then n + 1 else n) s2 =
      (s', Ret (Some ((if task_of s ?u = Some Running then n + 1 else n) +
        length (filter (\<lambda>c. task_of s (cn_id c) = Some Running) cs))))"
    and lookup: "\<And>v. hm_get (sv_handlers s') v =
       (if v \<in> cn_id ` set cs then map_option (delivered m) (hm_get (sv_handlers s2) v) else hm_get (sv_handlers s2) v)"
    unfolding s2(1) by auto
  have "hm_get (sv_handlers s') v =
       (if v \<in> cn_id ` set (c # cs) then map_option (delivered m) (hm_get (sv_handlers s) v)
        else hm_get (sv_handlers s) v)" for v
    using lookup [of v] other [of v] send(2) [OF room, of v] Cons.prems(1) by (auto simp: s2)
  with step s' show ?case by auto
qed simp

text \<open>C23: A broadcast puts the message once into the channel of every registered client whose task runs,
  touches no other channel, and answers how many that were, provided each has room.\<close>

theorem broadcast_exact:
  assumes "server_ok s" and "\<forall>u. has_room s u" and "broadcast False now m s = (s', r)"
  shows "r = Ret (Some (card {u. task_of s u = Some Running})) \<and>
    hm_get (sv_handlers s') u = map_option (delivered m) (hm_get (sv_handlers s) u) \<and>
    sv_connections s' = sv_connections s"
proof (intro conjI)
  let ?cs = "hm_values (sv_connections s)"
  have wf: "hm_wf (sv_connections s)"
    and reg: "\<And>u. (hm_get (sv_connections s) u \<noteq> None) = (\<exists>t. task_of s u = Some t \<and> t \<noteq> Returned (Ok ()))"
    and id: "\<And>u c. hm_get (sv_connections s) u = Some c \<Longrightarrow> cn_id c = u"
    using assms(1) unfolding server_ok_def by blast+
  have "cn_id c = u" if "(u, c) \<in> set (sv_connections s)" for u c
    using that wf id [of u c] by (simp add: hm_wf_def hm_get_def)
  then have keys: "map cn_id ?cs = map fst (sv_connections s)" by (auto simp: hm_values_def)
  then have dist: "distinct (map cn_id ?cs)" using wf by (simp add: hm_wf_def)
  have keyset: "cn_id ` set ?cs = {u. hm_get (sv_connections s) u \<noteq> None}"
    using arg_cong [OF keys, of set] by (auto simp: hm_get_def map_of_eq_None_iff)
  obtain s2 where s2: "broadcast_loop False now m ?cs 0 s =
      (s2, Ret (Some (length (filter (\<lambda>c. task_of s (cn_id c) = Some Running) ?cs))))"
    and lookup: "\<And>v. hm_get (sv_handlers s2) v =
       (if v \<in> cn_id ` set ?cs then map_option (delivered m) (hm_get (sv_handlers s) v) else hm_get (sv_handlers s) v)"
    using broadcast_loop_exact [OF dist, of s now m 0] assms(2) by auto
  have b: "broadcast False now m s = broadcast_loop False now m ?cs 0 s"
    by (auto simp: broadcast_def)
  have s': "s' = s2" and r: "r = Ret (Some (length (filter (\<lambda>c. task_of s (cn_id c) = Some Running) ?cs)))"
    using assms(3) b s2 by auto
  have "length (filter (\<lambda>c. task_of s (cn_id c) = Some Running) ?cs) =
      card (cn_id ` set (filter (\<lambda>c. task_of s (cn_id c) = Some Running) ?cs))"
    using distinct_card [of "map cn_id (filter (\<lambda>c. task_of s (cn_id c) = Some Running) ?cs)"]
      distinct_map_filter [OF dist] by simp
  also have "cn_id ` set (filter (\<lambda>c. task_of s (cn_id c) = Some Running) ?cs) = {u. task_of s u = Some Running}"
    using keyset reg by auto
  finally show "r = Ret (Some (card {u. task_of s u = Some Running}))" by (simp add: r)
  show "hm_get (sv_handlers s') u = map_option (delivered m) (hm_get (sv_handlers s) u)"
    using lookup [of u] reg [of u] keyset
    by (cases "hm_get (sv_handlers s) u") (auto simp: s' delivered_def task_of_def)
  show "sv_connections s' = sv_connections s"
    using broadcast_quiet [of s False now m] assms(3) by (simp add: quiet_def)
qed

theorem broadcast_exact_witness:
  "snd (broadcast False 0 (message_binary [1])
     ((one_client 5)\<lparr>sv_metrics := metrics_new\<lparr>active_connections := 1\<rparr>\<rparr>)) =
   Ret (Some (card {u. task_of ((one_client 5)\<lparr>sv_metrics := metrics_new\<lparr>active_connections := 1\<rparr>\<rparr>) u =
     Some Running}))"
proof -
  let ?s = "(one_client 5)\<lparr>sv_metrics := metrics_new\<lparr>active_connections := 1\<rparr>\<rparr>"
  have conns: "sv_connections ?s = hm_insert 7 \<lparr>cn_id = 7, cn_remote_addr = []\<rparr> hm_empty"
    and hds: "sv_handlers ?s = hm_insert 7 \<lparr>hd_queue = [message_ping []], hd_task = Running\<rparr> hm_empty"
    and buf: "sv_buffer_size (sv_config ?s) = 1000"
    by (simp_all add: one_client_def server_new_def server_with_max_connections_def server_config_new_def
        DEFAULT_BUFFER_SIZE_def)
  have "hm_len (hm_empty :: (uuid, connected_client) hmap) = 0" by (simp add: hm_len_def hm_empty_def)
  then have "server_ok ?s"
    unfolding server_ok_def conns task_of_def hds
    by (auto simp: hm.ok_insert hm.ok_empty hm.lookup_insert hm.size_insert split: if_splits)
  moreover have "\<forall>u. has_room ?s u"
    unfolding has_room_def hds buf by (simp add: hm.lookup_insert)
  ultimately show ?thesis
    using broadcast_exact [OF _ _ prod.collapse [symmetric], of ?s 0 "message_binary [1]"] by blast
qed

section \<open>Shutdown\<close>

text \<open>A shutdown forgets all clients and stops the heartbeat, but nothing tells the accept loop,
  which only ends when a message comes through the stored channel: the next connection is
  admitted and registered by a server that says it is not running.\<close>

theorem shutdown_keeps_accepting:
  assumes "0 < sv_max_connections (sv_config s)" and "channel_ok (sv_buffer_size (sv_config s))"
    and "s1 = fst (server_shutdown s)"
    and "s2 = fold (server_step False) [(t1, Accepts (Inr addr)), (t2, Registers None u addr)] s1"
  shows "connection_count s1 = 0 \<and> \<not> sv_running s1 \<and> \<not> fst (server_heartbeat_tick now s1) \<and>
    sv_shutdown_tx s1 = sv_shutdown_tx s \<and> snd (accept_turn False (Inr addr) s1) = Ret True \<and>
    connection_count s2 = 1 \<and> get_client u s2 \<noteq> None \<and> \<not> sv_running s2"
proof -
  have send: "sv_running (fst (connected_send m v s)) = sv_running s \<and>
      sv_shutdown_tx (fst (connected_send m v s)) = sv_shutdown_tx s" for m v s
    by (simp add: connected_send_def set_handler_def split: option.split)
  have loop: "sv_running (fst (shutdown_loop cs s)) = sv_running s \<and>
      sv_shutdown_tx (fst (shutdown_loop cs s)) = sv_shutdown_tx s" for cs s
  proof (induction cs arbitrary: s)
    case (Cons c cs)
    obtain sc r where r: "connected_send shutdown_message (cn_id c) s = (sc, r)"
      by (cases "connected_send shutdown_message (cn_id c) s")
    with Cons.IH [of sc] send [of shutdown_message "cn_id c" s] show ?case by (simp split: option.split)
  qed simp
  have s1: "sv_connections s1 = hm_empty" "\<not> sv_running s1" "sv_shutdown_tx s1 = sv_shutdown_tx s"
      "sv_config s1 = sv_config s"
    using loop [of "hm_values (sv_connections s)" "s\<lparr>sv_connections := hm_empty, sv_running := False\<rparr>"]
      shutdown_connections [of s] step_config [of False "(0, ShutsDown)" s]
    by (simp_all add: assms(3)) (simp_all add: server_shutdown_def)
  have none: "hm_len (hm_empty :: (uuid, connected_client) hmap) = 0" by (simp add: hm_len_def hm_empty_def)
  have acc: "accept_turn False (Inr addr) s1 = (s1\<lparr>sv_pending := sv_pending s1 + 1\<rparr>, Ret True)"
    using assms(1) by (simp add: accept_turn_def s1 none)
  have s2: "s2 = fst (handle_connection False t2 None u addr (s1\<lparr>sv_pending := sv_pending s1 + 1\<rparr>))"
    by (simp add: assms(4) acc)
  have "sv_connections s2 = hm_insert u \<lparr>cn_id = u, cn_remote_addr = addr\<rparr> hm_empty \<and> \<not> sv_running s2"
    using assms(2) s1
    by (simp add: s2 handle_connection_def Let_def op_then_def op_on_def op_update_def op_return_def
        record_connection_def op_add_release touch_def set_handler_def)
  then show ?thesis
    using s1 acc by (simp add: connection_count_def get_client_def none hm.size_insert hm.ok_empty
        server_heartbeat_tick_def)
qed

theorem shutdown_keeps_accepting_witness:
  "connection_count (fold (server_step False) [(0, Accepts (Inr [])), (1, Registers None 3 [])]
     (fst (server_shutdown (server_new (server_config_new []))))) = 1"
proof -
  let ?s = "server_new (server_config_new [])"
  have "sv_config ?s = server_config_new []" by (simp add: server_new_def)
  then have "0 < sv_max_connections (sv_config ?s)" and "channel_ok (sv_buffer_size (sv_config ?s))"
    by (simp_all add: server_config_new_def channel_ok_def DEFAULT_BUFFER_SIZE_def)
  from shutdown_keeps_accepting [OF this refl refl] show ?thesis by blast
qed

end
