(* ===== verification/Delivery.thy ===== *)
theory Delivery
  imports Server
begin

text \<open>
  What the server delivers to one client (\<^verbatim>\<open>src/src/server.rs\<close>): the channel of the client as a
  queue, whatever the other clients, the broadcasts and the shutdown do in between.
\<close>

section \<open>The channel of a client\<close>

definition queue_of :: "ws_server \<Rightarrow> uuid \<Rightarrow> message list" where
  "queue_of s u = (case hm_get (sv_handlers s) u of None \<Rightarrow> [] | Some h \<Rightarrow> hd_queue h)"

text \<open>What the task of a client writes in a turn, from its channel and in answer to a ping.\<close>

definition turn_output ::
  "uuid \<Rightarrow> (handler \<Rightarrow> (ws_server, tungstenite option \<times> turn) op) \<Rightarrow> ws_server \<Rightarrow> tungstenite list" where
  "turn_output u f s =
     (case hm_get (sv_handlers s) u of
        None \<Rightarrow> []
      | Some h \<Rightarrow>
          if hd_task h \<noteq> Running then []
          else (case f h s of (_, Ret (Some t, _)) \<Rightarrow> [t] | _ \<Rightarrow> []))"

definition serve_written :: "bool \<Rightarrow> uuid \<Rightarrow> instant \<times> server_event \<Rightarrow> ws_server \<Rightarrow> tungstenite list" where
  "serve_written ck u ev s =
     (case ev of
        (now, HWrites v held failed) \<Rightarrow> if v = u then turn_output u (serve_outgoing ck held failed u) s else []
      | _ \<Rightarrow> [])"

definition serve_replied :: "bool \<Rightarrow> uuid \<Rightarrow> instant \<times> server_event \<Rightarrow> ws_server \<Rightarrow> tungstenite list" where
  "serve_replied ck u ev s =
     (case ev of
        (now, HArrives v item) \<Rightarrow> if v = u then turn_output u (\<lambda>h. serve_incoming ck now item) s else []
      | _ \<Rightarrow> [])"

text \<open>A step that may append to the channel of the client and does not touch its task.\<close>

definition extends :: "uuid \<Rightarrow> ws_server \<Rightarrow> ws_server \<Rightarrow> bool" where
  "extends u s s' \<longleftrightarrow> task_of s' u = task_of s u \<and> (\<exists>new. queue_of s' u = queue_of s u @ new)"

lemma extends_same: "hm_get (sv_handlers s') u = hm_get (sv_handlers s) u \<Longrightarrow> extends u s s'"
  by (simp add: extends_def task_of_def queue_of_def)

lemma extends_trans: "extends u s s' \<Longrightarrow> extends u s' s'' \<Longrightarrow> extends u s s''"
  by (auto simp: extends_def)

lemma queue_of_set_handler: "queue_of (set_handler v h s) u = (if u = v then hd_queue h else queue_of s u)"
  by (simp add: queue_of_def set_handler_def hm.lookup_insert)

lemma connected_send_extends: "extends u s (fst (connected_send m v s))"
  by (auto simp: connected_send_def extends_def task_of_set_handler queue_of_set_handler split: option.split)
     (auto simp: task_of_def queue_of_def)

lemma op_metrics_handlers [simp]: "sv_handlers (fst (on_metrics f s)) = sv_handlers s"
  by (simp add: op_on_fst)

lemma broadcast_loop_extends: "extends u s (fst (broadcast_loop ck now m cs n s))"
proof (induction cs arbitrary: n s)
  case (Cons c cs)
  obtain s1 r where r: "connected_send m (cn_id c) s = (s1, r)" by (cases "connected_send m (cn_id c) s")
  then have s1: "extends u s s1" using connected_send_extends [of u s m "cn_id c"] by simp
  have "extends u s1 (fst (op_then (on_metrics (record_message_sent ck now (msg_size m)))
      (\<lambda>_. broadcast_loop ck now m cs (n + 1)) s1))"
    by (auto simp: op_then_fst intro: extends_trans [OF extends_same Cons.IH] extends_same split: outcome.split)
  with s1 Cons.IH [of s1 n] r show ?case
    by (auto intro: extends_trans split: option.split sum.split)
qed (simp add: extends_same)

lemma shutdown_loop_extends: "extends u s (fst (shutdown_loop cs s))"
proof (induction cs arbitrary: s)
  case (Cons c cs)
  obtain s1 r where r: "connected_send shutdown_message (cn_id c) s = (s1, r)"
    by (cases "connected_send shutdown_message (cn_id c) s")
  then have "extends u s s1" using connected_send_extends [of u s shutdown_message "cn_id c"] by simp
  with Cons.IH [of s1] r show ?case by (auto intro: extends_trans split: option.split)
qed (simp add: extends_same)

lemma set_task_handlers:
  "u \<noteq> v \<Longrightarrow> hm_get (sv_handlers (set_task v t s)) u = hm_get (sv_handlers s) u"
  "queue_of (set_task v t s) u = queue_of s u"
  by (auto simp: set_task_def set_handler_def queue_of_def hm.lookup_insert split: option.split)

lemma serve_end_handlers: "sv_handlers (fst (serve_end ck now u s)) = sv_handlers s"
  by (auto simp: serve_end_def op_then_fst op_update_def op_return_def split: outcome.split)

lemma serve_outgoing_others:
  "u \<noteq> v \<Longrightarrow> hm_get (sv_handlers (fst (serve_outgoing ck held failed v h s))) u = hm_get (sv_handlers s) u"
  by (auto simp: serve_outgoing_def Let_def op_then_fst op_on_fst op_return_def set_handler_def hm.lookup_insert
      split: list.split sum.split option.split outcome.split)

lemma serve_incoming_handlers: "sv_handlers (fst (serve_incoming ck now item s)) = sv_handlers s"
  by (cases item; (cases "projr item")?;
      simp add: serve_incoming_def serve_received_def op_then_fst op_on_fst op_return_def op_update_def
        split: outcome.split)

text \<open>A turn keeps what the branch keeps.\<close>

lemma client_turn_others:
  assumes "u \<noteq> v" and "\<And>h. hm_get (sv_handlers (fst (f h s))) u = hm_get (sv_handlers s) u"
  shows "hm_get (sv_handlers (client_turn ck now v f s)) u = hm_get (sv_handlers s) u"
proof (cases "hm_get (sv_handlers s) v")
  case (Some h)
  obtain s1 r where r: "f h s = (s1, r)" by (cases "f h s")
  obtain s2 r2 where r2: "serve_end ck now v s1 = (s2, r2)" by (cases "serve_end ck now v s1")
  have "hm_get (sv_handlers s1) u = hm_get (sv_handlers s) u" "sv_handlers s2 = sv_handlers s1"
    using assms(2) [of h] r serve_end_handlers [of ck now v s1] r2 by simp_all
  with Some r r2 assms(1) show ?thesis
    by (auto simp: client_turn_def set_task_handlers split: outcome.split turn.split)
qed (simp add: client_turn_def)

lemma client_turn_queue:
  assumes "hm_get (sv_handlers s) u = Some h" and "hd_task h = Running"
  shows "queue_of (client_turn ck now u f s) u = queue_of (fst (f h s)) u"
proof -
  obtain s1 r where r: "f h s = (s1, r)" by (cases "f h s")
  obtain s2 r2 where r2: "serve_end ck now u s1 = (s2, r2)" by (cases "serve_end ck now u s1")
  have "queue_of s2 u = queue_of s1 u"
    using serve_end_handlers [of ck now u s1] r2 by (simp add: queue_of_def)
  with assms r r2 show ?thesis
    by (auto simp: client_turn_def set_task_handlers split: outcome.split turn.split)
qed

lemma handle_connection_handlers:
  "u \<noteq> v \<Longrightarrow>
     hm_get (sv_handlers (fst (handle_connection ck now failed v addr s))) u = hm_get (sv_handlers s) u"
  by (auto simp: handle_connection_def Let_def op_then_fst op_on_fst op_update_def op_return_def set_handler_def
      hm.lookup_insert split: option.split outcome.split)

lemma accept_turn_handlers: "sv_handlers (fst (accept_turn ck a s)) = sv_handlers s"
  by (auto simp: accept_turn_def op_then_fst op_return_def split: sum.split outcome.split)

text \<open>Every event but the turns of the client's own task at most appends to its channel.\<close>

lemma other_step_extends:
  assumes "u \<notin> set (registered [(now, e)])" and "\<And>held failed. e \<noteq> HWrites u held failed" and "\<And>item. e \<noteq> HArrives u item"
  shows "extends u s (server_step ck (now, e) s)"
proof (cases e)
  case (Accepts a)
  then show ?thesis by (simp add: extends_same accept_turn_handlers)
next
  case (Registers failed v addr)
  with assms(1) show ?thesis by (simp add: extends_same handle_connection_handlers)
next
  case (HWrites v held failed)
  with assms(2) show ?thesis by (auto intro!: extends_same client_turn_others serve_outgoing_others)
next
  case (HArrives v item)
  with assms(3) show ?thesis by (auto intro!: extends_same client_turn_others simp: serve_incoming_handlers)
next
  case ShutsDown
  then show ?thesis
    using extends_trans [OF extends_same shutdown_loop_extends, of "s\<lparr>sv_connections := hm_empty, sv_running := False\<rparr>" u s]
    by (simp add: server_shutdown_def)
qed (simp_all add: connected_send_extends broadcast_def broadcast_loop_extends shutdown_loop_extends extends_same)

text \<open>The turns of the client's own task.\<close>

lemma arrival_turn:
  assumes "task_of s u = Some Running"
  shows "queue_of (server_step ck (now, HArrives u item) s) u = queue_of s u"
proof -
  obtain h where "hm_get (sv_handlers s) u = Some h" "hd_task h = Running" using assms by (auto simp: task_of_def)
  then show ?thesis
    by (simp add: client_turn_queue) (simp add: queue_of_def serve_incoming_handlers)
qed

lemma dead_turn: "task_of s u \<noteq> Some Running \<Longrightarrow> client_turn ck now u f s = s \<and> turn_output u f s = []"
  by (auto simp: client_turn_def turn_output_def task_of_def split: option.split)

lemma task_of_update [simp]:
  "task_of (s\<lparr>sv_backpressure := b\<rparr>) = task_of s" "task_of (s\<lparr>sv_connections := c\<rparr>) = task_of s"
  "task_of (s\<lparr>sv_metrics := m\<rparr>) = task_of s"
  by (simp_all add: task_of_def fun_eq_iff)

lemma queue_of_update [simp]: "queue_of (s\<lparr>sv_backpressure := b\<rparr>) u = queue_of s u"
  by (simp add: queue_of_def)

lemma writing_turn:
  fixes u now held failed s
  defines "s' \<equiv> server_step False (now, HWrites u held failed) s"
    and "out \<equiv> turn_output u (serve_outgoing False held failed u) s"
  assumes "task_of s u = Some Running"
  shows "(queue_of s' u = queue_of s u \<and> out = []) \<or>
    (\<exists>m t. queue_of s u = m # queue_of s' u \<and> to_tungstenite m = Ok t \<and> out = [t] \<and> task_of s' u = Some Running) \<or>
    (\<exists>m. queue_of s u = m # queue_of s' u \<and> out = [] \<and> task_of s' u \<noteq> Some Running)"
proof -
  obtain h where h: "hm_get (sv_handlers s) u = Some h" "hd_task h = Running" using assms(3) by (auto simp: task_of_def)
  then have q: "queue_of s u = hd_queue h" by (simp add: queue_of_def)
  have q': "queue_of s' u = queue_of (fst (serve_outgoing False held failed u h s)) u"
    using h by (simp add: s'_def client_turn_queue)
  show ?thesis
  proof (cases "hd_queue h")
    case Nil
    then have "queue_of s' u = []" unfolding q' by (simp add: serve_outgoing_def q)
    then show ?thesis using Nil h by (simp add: q out_def turn_output_def serve_outgoing_def)
  next
    case (Cons m ms)
    have qs: "queue_of s' u = ms" unfolding q'
      by (auto simp: serve_outgoing_def Cons Let_def op_then_fst op_on_fst op_return_def queue_of_set_handler
          split: sum.split option.split outcome.split)
    show ?thesis
      using h Cons unfolding q qs unfolding out_def s'_def
      by (cases "to_tungstenite m"; cases failed)
        (auto simp: turn_output_def client_turn_def serve_outgoing_def Let_def op_then_def op_on_def op_return_def
          record_send_def op_add_def add_ck_release set_task_effect task_of_set_handler)
  qed
qed

interpretation sf: fifo_channel "server_step False" "\<lambda>s. queue_of s u" "\<lambda>s. task_of s u = Some Running"
    "serve_written False u" "\<lambda>ev. u \<notin> set (registered [ev])" for u
proof
  fix ev s
  assume new: "u \<notin> set (registered [ev])" and dead: "task_of s u \<noteq> Some Running"
  obtain now e where ev: "ev = (now, e)" by (cases ev)
  have "serve_written False u ev s = []"
    using dead_turn [OF dead] by (simp add: ev serve_written_def split: server_event.split)
  moreover have "task_of (server_step False (now, e) s) u \<noteq> Some Running"
  proof (cases "(\<exists>held failed. e = HWrites u held failed) \<or> (\<exists>item. e = HArrives u item)")
    case True
    with dead dead_turn [OF dead] show ?thesis by auto
  next
    case False
    with other_step_extends [of u now e s False] new dead show ?thesis by (auto simp: ev extends_def)
  qed
  ultimately show "task_of (server_step False ev s) u \<noteq> Some Running \<and> serve_written False u ev s = []"
    by (simp add: ev)
next
  fix ev s
  assume new: "u \<notin> set (registered [ev])" and running: "task_of s u = Some Running"
  obtain now e where ev: "ev = (now, e)" by (cases ev)
  show "(\<exists>new. queue_of (server_step False ev s) u = queue_of s u @ new \<and> serve_written False u ev s = []) \<or>
    (\<exists>m t. queue_of s u = m # queue_of (server_step False ev s) u \<and> to_tungstenite m = Ok t \<and>
       serve_written False u ev s = [t]) \<or>
    (\<exists>m. queue_of s u = m # queue_of (server_step False ev s) u \<and> serve_written False u ev s = [] \<and>
       task_of (server_step False ev s) u \<noteq> Some Running)"
  proof (cases "\<exists>held failed. e = HWrites u held failed")
    case True
    then obtain held failed where e: "e = HWrites u held failed" by blast
    have out: "serve_written False u ev s = turn_output u (serve_outgoing False held failed u) s"
      by (simp add: ev e serve_written_def)
    from writing_turn [OF running, of now held failed] show ?thesis
      unfolding out unfolding ev e by (elim disjE) (intro disjI1 exI [of _ "[]"], simp, blast+)
  next
    case False
    have "serve_written False u ev s = []"
      using False by (auto simp: ev serve_written_def split: server_event.split)
    moreover have "\<exists>new. queue_of (server_step False ev s) u = queue_of s u @ new"
    proof (cases "\<exists>item. e = HArrives u item")
      case True
      with arrival_turn [OF running] show ?thesis by (auto simp: ev)
    next
      case no: False
      with other_step_extends [of u now e s False] new False show ?thesis by (auto simp: ev extends_def)
    qed
    ultimately show ?thesis by blast
  qed
qed

text \<open>C6: The server delivers to each client in order: whatever is sent to it, broadcast to it or queued by
  a shutdown reaches the wire of the client once and in the order in which its channel accepted
  it, converted, while other clients come, go and are served in between; while the task of the
  client runs the rest is what the channel still holds.\<close>

theorem server_fifo:
  assumes "queue_of s u = []" and "u \<notin> set (registered es)"
    and "history (server_step False) (appended (\<lambda>s. queue_of s u) (server_step False)) (serve_written False u) es s = (ms, ts)"
  shows "\<exists>sent rest. ms = sent @ rest \<and> map to_tungstenite sent = map Ok ts \<and>
    (task_of (fold (server_step False) es s) u = Some Running \<longrightarrow>
       rest = queue_of (fold (server_step False) es s) u)"
proof -
  have "\<forall>ev \<in> set es. u \<notin> set (registered [ev])"
    using assms(2)
  proof (induction es)
    case (Cons x es)
    then show ?case unfolding registered_Cons [of x es] by simp
  qed simp
  from sf.fifo [OF assms(1) this assms(3)] show ?thesis .
qed

definition empty_channel :: ws_server where
  "empty_channel = (one_client 5)\<lparr>sv_handlers := hm_insert 7 \<lparr>hd_queue = [], hd_task = Running\<rparr> hm_empty\<rparr>"

lemma empty_channel: "queue_of empty_channel 7 = []" "task_of empty_channel 7 = Some Running"
  by (simp_all add: empty_channel_def queue_of_def task_of_def hm.lookup_insert)

theorem server_fifo_witness:
  "let h = history (server_step False) (appended (\<lambda>s. queue_of s 7) (server_step False)) (serve_written False 7)
       [(2, SendsTo 7 (message_ping [9])), (3, HWrites 7 True None)] empty_channel
   in \<exists>sent rest. fst h = sent @ rest \<and> map to_tungstenite sent = map Ok (snd h)"
  using server_fifo [OF empty_channel(1) _ prod.collapse [symmetric],
      of "[(2, SendsTo 7 (message_ping [9])), (3, HWrites 7 True None)]"]
  by (simp only: Let_def registered.simps) auto

end
