(* ===== verification/ServerHeartbeat.thy ===== *)
theory ServerHeartbeat
  imports Server
begin

text \<open>
  The heartbeat of the server (\<^verbatim>\<open>run_heartbeat\<close> in \<^verbatim>\<open>src/src/server.rs\<close>): one manager for all
  clients, which nothing ever asks for a ping.
\<close>

section \<open>Who touches the manager\<close>

named_theorems keeps_heartbeat

lemma connected_send_heartbeat [keeps_heartbeat]: "sv_heartbeat (fst (connected_send m u s)) = sv_heartbeat s"
  by (simp add: connected_send_def set_handler_def split: option.split)

lemma on_metrics_heartbeat [keeps_heartbeat]: "sv_heartbeat (fst (on_metrics f s)) = sv_heartbeat s"
  by (simp add: op_on_fst)

lemma broadcast_loop_heartbeat [keeps_heartbeat]:
  "sv_heartbeat (fst (broadcast_loop ck now m cs n s)) = sv_heartbeat s"
proof (induction cs arbitrary: n s)
  case (Cons c cs)
  then show ?case
    using connected_send_heartbeat [of m "cn_id c" s]
    by (auto simp: op_then_fst on_metrics_heartbeat split: prod.split option.split sum.split outcome.split)
qed simp

lemma shutdown_loop_heartbeat [keeps_heartbeat]: "sv_heartbeat (fst (shutdown_loop cs s)) = sv_heartbeat s"
proof (induction cs arbitrary: s)
  case (Cons c cs)
  then show ?case
    using connected_send_heartbeat [of shutdown_message "cn_id c" s] by (auto split: prod.split option.split)
qed simp

lemma accept_turn_heartbeat [keeps_heartbeat]: "sv_heartbeat (fst (accept_turn ck a s)) = sv_heartbeat s"
  by (auto simp: accept_turn_def op_then_fst op_return_def on_metrics_heartbeat split: sum.split outcome.split)

lemma handle_connection_heartbeat [keeps_heartbeat]:
  "sv_heartbeat (fst (handle_connection ck now failed u addr s)) = sv_heartbeat s"
  by (auto simp: handle_connection_def Let_def op_then_fst op_on_fst op_update_def op_return_def set_handler_def
      split: option.split outcome.split)

lemma serve_outgoing_heartbeat [keeps_heartbeat]:
  "sv_heartbeat (fst (serve_outgoing ck held failed u h s)) = sv_heartbeat s"
  by (auto simp: serve_outgoing_def Let_def op_then_fst op_on_fst op_return_def set_handler_def
      split: list.split sum.split option.split outcome.split)

lemma serve_incoming_heartbeat:
  assumes "\<And>p. item \<noteq> Inr (TPong p)"
  shows "sv_heartbeat (fst (serve_incoming ck now item s)) = sv_heartbeat s"
  using assms
  by (cases item; (cases "projr item")?;
      simp add: serve_incoming_def serve_received_def op_then_fst op_on_fst op_return_def op_update_def
        split: outcome.split)

lemma client_turn_heartbeat:
  "sv_heartbeat (client_turn ck now u f s) = sv_heartbeat s \<or>
     (\<exists>h. sv_heartbeat (client_turn ck now u f s) = sv_heartbeat (fst (f h s)))"
proof (cases "hm_get (sv_handlers s) u")
  case (Some h)
  have task: "sv_heartbeat (set_task u t s) = sv_heartbeat s" for t s
    by (simp add: set_task_def set_handler_def split: option.split)
  obtain s1 r where r: "f h s = (s1, r)" by (cases "f h s")
  obtain s2 r2 where r2: "serve_end ck now u s1 = (s2, r2)" by (cases "serve_end ck now u s1")
  then have "sv_heartbeat s2 = sv_heartbeat s1"
    by (auto simp: serve_end_def op_then_def op_on_def op_update_def op_return_def split: prod.splits outcome.splits)
  with Some r r2 have "sv_heartbeat (client_turn ck now u f s) \<in> {sv_heartbeat s, sv_heartbeat (fst (f h s))}"
    by (auto simp: client_turn_def task split: outcome.split turn.split)
  then show ?thesis by blast
qed (simp add: client_turn_def)

text \<open>The pong that answers a ping that was never sent.\<close>

abbreviation zero_pong :: bytes where
  "zero_pong \<equiv> replicate 8 0"

lemma to_be_zero: "to_be n 0 = replicate n 0"
  by (induction n) (simp_all add: replicate_append_same)

definition never_pinged :: "heartbeat \<Rightarrow> bool" where
  "never_pinged h \<longleftrightarrow> last_ping h = None \<and> last_pong h = None \<and> ping_count h = 0"

lemma never_pinged_pong:
  assumes "never_pinged h" and "p \<noteq> zero_pong"
  shows "never_pinged (fst (handle_pong ck now p h))"
proof -
  have "\<not> (length p = 8 \<and> of_nat (from_be p) = expected_ping h)"
  proof
    assume *: "length p = 8 \<and> of_nat (from_be p) = expected_ping h"
    then have "from_be p < 2 ^ 64" using from_be_bound [of p] by simp
    then have "unat (of_nat (from_be p) :: u64) = from_be p" by (simp add: unat_of_nat)
    moreover have "of_nat (from_be p) = (0 :: u64)"
      using * assms(1) by (simp add: never_pinged_def expected_ping_def)
    ultimately have "from_be p = 0" by simp
    with * to_be_from_be [of p 8] have "p = to_be 8 0" by (simp del: to_be.simps)
    with assms(2) show False by (metis to_be_zero)
  qed
  with assms(1) show ?thesis
    by (auto simp: handle_pong_mismatch never_pinged_def split: outcome.split)
qed

section \<open>Properties\<close>

text \<open>No client sends the pong of a ping it was not sent.\<close>

definition honest :: "server_event \<Rightarrow> bool" where
  "honest e \<longleftrightarrow> (\<forall>u. e \<noteq> HArrives u (Inr (TPong zero_pong)))"

lemma step_never_pinged:
  assumes "never_pinged (sv_heartbeat s)" and "honest e"
  shows "never_pinged (sv_heartbeat (server_step ck (now, e) s))"
proof (cases e)
  case (HWrites u held failed)
  with assms(1) client_turn_heartbeat [of ck now u "serve_outgoing ck held failed u" s] show ?thesis
    by (auto simp: keeps_heartbeat)
next
  case (HArrives u item)
  have "never_pinged (sv_heartbeat (fst (serve_incoming ck now item s)))"
  proof (cases "\<exists>p. item = Inr (TPong p)")
    case True
    then obtain p where p: "item = Inr (TPong p)" by blast
    then have "p \<noteq> zero_pong" using assms(2) HArrives by (auto simp: honest_def)
    with assms(1) p never_pinged_pong show ?thesis
      by (simp add: serve_incoming_def op_then_fst op_on_fst op_return_def split: outcome.split)
  next
    case False
    with assms(1) show ?thesis by (simp add: serve_incoming_heartbeat)
  qed
  with HArrives assms(1) client_turn_heartbeat [of ck now u "\<lambda>h. serve_incoming ck now item" s] show ?thesis
    by auto
qed (use assms(1) in \<open>simp_all add: keeps_heartbeat broadcast_def server_shutdown_def\<close>)

lemma run_never_pinged:
  "never_pinged (sv_heartbeat s) \<Longrightarrow> \<forall>(now, e) \<in> set es. honest e \<Longrightarrow>
     never_pinged (sv_heartbeat (fold (server_step ck) es s))"
  by (induction es arbitrary: s) (auto intro: step_never_pinged)

lemma step_hb_config:
  "hb_config (sv_heartbeat (server_step ck ev s)) = hb_config (sv_heartbeat s)"
proof -
  have pong: "hb_config (fst (handle_pong ck now p h)) = hb_config h" for now p h
    by (auto simp: handle_pong_def op_then_fst op_add_def op_update_def op_return_def split: outcome.split)
  have item: "hb_config (sv_heartbeat (fst (serve_incoming ck now item s))) = hb_config (sv_heartbeat s)" for now item s
  proof (cases "\<exists>p. item = Inr (TPong p)")
    case True
    then show ?thesis
      by (auto simp: serve_incoming_def op_then_fst op_on_fst op_return_def pong split: outcome.split)
  next
    case False
    then show ?thesis by (simp add: serve_incoming_heartbeat)
  qed
  obtain now e where ev: "ev = (now, e)" by (cases ev)
  show ?thesis
  proof (cases e)
    case (HWrites u held failed)
    then show ?thesis
      using client_turn_heartbeat [of ck now u "serve_outgoing ck held failed u" s] by (auto simp: ev keeps_heartbeat)
  next
    case (HArrives u i)
    then show ?thesis
      using client_turn_heartbeat [of ck now u "\<lambda>h. serve_incoming ck now i" s] by (auto simp: ev item)
  qed (simp_all add: ev keeps_heartbeat broadcast_def server_shutdown_def)
qed

lemma run_hb_config: "hb_config (sv_heartbeat (fold (server_step ck) es s)) = hb_config (sv_heartbeat s)"
  by (induction es arbitrary: s) (simp_all add: step_hb_config)

text \<open>C26: The heartbeat of the server never notices a dead client: nothing sends a ping on the server, so
  that whatever clients do, short of answering a ping that was never sent, every tick finds
  the one shared manager alive and warns about nobody; and a single unsolicited pong of eight
  zero bytes makes it warn about every client from \<^verbatim>\<open>ping_timeout\<close> later on.\<close>

theorem server_heartbeat_blind:
  assumes "\<forall>(now, e) \<in> set es. honest e"
    and s: "s = fold (server_step False) es (fst (start_listening None ch (server_new cfg)))"
    and s': "s' = server_step False (t, HArrives u (Inr (TPong zero_pong))) s"
  shows "snd (server_heartbeat_tick now s) = [] \<and> ping_count (sv_heartbeat s) = 0 \<and>
    (task_of s u = Some Running \<and> sv_running s' \<and> t + sv_ping_timeout cfg \<le> now \<longrightarrow>
       snd (server_heartbeat_tick now s') = map cn_id (server_clients s'))"
proof -
  have start: "sv_heartbeat (fst (start_listening None ch (server_new cfg))) = heartbeat_new
        \<lparr>hc_enabled = True, hc_ping_interval = sv_ping_interval cfg, hc_ping_timeout = sv_ping_timeout cfg\<rparr>"
    by (simp add: start_listening_def server_new_def)
  have np: "never_pinged (sv_heartbeat s)"
    unfolding s by (rule run_never_pinged [OF _ assms(1)]) (simp add: start never_pinged_def heartbeat_new_def)
  have cfg: "hb_config (sv_heartbeat s') =
        \<lparr>hc_enabled = True, hc_ping_interval = sv_ping_interval cfg, hc_ping_timeout = sv_ping_timeout cfg\<rparr>"
    unfolding s' s step_hb_config run_hb_config start by (simp add: heartbeat_new_def)
  have "last_pong (sv_heartbeat s') = Some t" if "task_of s u = Some Running"
  proof -
    obtain h where h: "hm_get (sv_handlers s) u = Some h" "hd_task h = Running" using \<open>task_of s u = Some Running\<close> by (auto simp: task_of_def)
    have "from_be zero_pong = 0" using from_be_to_be [of 0 8] by (simp add: to_be_zero del: to_be.simps)
    then have "of_nat (from_be zero_pong) = expected_ping (sv_heartbeat s)"
      using np by (simp add: never_pinged_def expected_ping_def)
    then obtain hb where hb: "handle_pong False t zero_pong (sv_heartbeat s) = (hb, Ret (Ok ()))" "last_pong hb = Some t"
      by (simp add: handle_pong_def op_then_def op_update_def op_return_def op_add_release)
    then have "serve_incoming False t (Inr (TPong zero_pong)) s = (s\<lparr>sv_heartbeat := hb\<rparr>, Ret (None, Continue))"
      by (simp add: serve_incoming_def op_then_def op_on_def op_return_def)
    with h hb(2) show ?thesis by (simp add: s' client_turn_def)
  qed
  then show ?thesis
    using np cfg by (auto simp: server_heartbeat_tick_def is_alive_def never_pinged_def hb_is_enabled_def elapsed_def)
qed

theorem server_heartbeat_blind_witness:
  "snd (server_heartbeat_tick 100 (fold (server_step False)
     [(0, Accepts (Inr [])), (1, Registers None 7 []), (2, HArrives 7 (Inr (TPong [1])))]
     (fst (start_listening None 0 (server_new (server_config_new [])))))) = []"
proof -
  have "length [1 :: u8] \<noteq> length zero_pong" by simp
  then have "[1] \<noteq> zero_pong" by metis
  then have "\<forall>(now, e) \<in> set [(0, Accepts (Inr [])), (1, Registers None 7 []), (2, HArrives 7 (Inr (TPong [1])))]. honest e"
    by (simp add: honest_def)
  from server_heartbeat_blind [OF this refl refl] show ?thesis by blast
qed

end
