(* ===== verification/Accepting.thy ===== *)
theory Accepting
  imports Server
begin

text \<open>
  \<^verbatim>\<open>start\<close> in \<^verbatim>\<open>src/src/server.rs\<close>: the accept loop and its shutdown branch. Between two turns
  the other tasks change the state.
\<close>

section \<open>The loop\<close>

text \<open>The branch that a turn takes: an answer of the listener, or the receiver of the shutdown channel,
  which is ready only when its sender is gone: the one sender is stored in the state and
  nothing ever sends on it.\<close>

datatype accept_event = Listened "rstr + rstr" | Signalled

fun accept_loop ::
  "bool \<Rightarrow> nat \<Rightarrow> ((ws_server \<Rightarrow> ws_server) \<times> accept_event) list \<Rightarrow> (ws_server, unit result option) op" where
  "accept_loop ck ch [] s = (s, Ret None)"
| "accept_loop ck ch ((env, Listened a) # turns) s =
     (case accept_turn ck a (env s) of
        (s1, Panic) \<Rightarrow> (s1, Panic)
      | (s1, Ret spawned) \<Rightarrow> accept_loop ck ch turns s1)"
| "accept_loop ck ch ((env, Signalled) # turns) s =
     (if sv_shutdown_tx (env s) = Some ch then accept_loop ck ch turns (env s)
      else
        (case server_shutdown (env s) of
           (s1, True) \<Rightarrow> (s1, Ret (Some (Ok ())))
         | (s1, False) \<Rightarrow> (s1, Ret None)))"

text \<open>\<open>None\<close> is a call that has not returned.\<close>

definition server_start ::
  "bool \<Rightarrow> nat \<Rightarrow> rstr option \<Rightarrow> ((ws_server \<Rightarrow> ws_server) \<times> accept_event) list \<Rightarrow>
     (ws_server, unit result option) op" where
  "server_start ck ch failed turns s =
     (case start_listening failed ch s of
        (s1, Inl e) \<Rightarrow> (s1, Ret (Some (Err e)))
      | (s1, Inr u) \<Rightarrow> accept_loop ck ch turns s1)"

definition server_is_running :: "ws_server \<Rightarrow> bool" where
  "server_is_running s \<longleftrightarrow> sv_running s"

section \<open>The shutdown channel\<close>

named_theorems keeps_channel

lemma connected_send_channel [keeps_channel]: "sv_shutdown_tx (fst (connected_send m u s)) = sv_shutdown_tx s"
  by (simp add: connected_send_def set_handler_def split: option.split)

lemma broadcast_loop_channel [keeps_channel]:
  "sv_shutdown_tx (fst (broadcast_loop ck now m cs n s)) = sv_shutdown_tx s"
proof (induction cs arbitrary: n s)
  case (Cons c cs)
  then show ?case
    using connected_send_channel [of m "cn_id c" s]
    by (auto simp: op_then_fst op_on_fst split: prod.split option.split sum.split outcome.split)
qed simp

lemma shutdown_loop_channel [keeps_channel]: "sv_shutdown_tx (fst (shutdown_loop cs s)) = sv_shutdown_tx s"
proof (induction cs arbitrary: s)
  case (Cons c cs)
  then show ?case
    using connected_send_channel [of shutdown_message "cn_id c" s] by (auto split: prod.split option.split)
qed simp

lemma server_shutdown_channel [keeps_channel]: "sv_shutdown_tx (fst (server_shutdown s)) = sv_shutdown_tx s"
  by (simp add: server_shutdown_def keeps_channel)

lemma accept_turn_channel [keeps_channel]: "sv_shutdown_tx (fst (accept_turn ck a s)) = sv_shutdown_tx s"
  by (auto simp: accept_turn_def op_then_fst op_on_fst op_return_def split: sum.split outcome.split)

lemma handle_connection_channel [keeps_channel]:
  "sv_shutdown_tx (fst (handle_connection ck now failed u addr s)) = sv_shutdown_tx s"
  by (auto simp: handle_connection_def Let_def op_then_fst op_on_fst op_update_def op_return_def set_handler_def
      split: option.split outcome.split)

lemma serve_outgoing_channel: "sv_shutdown_tx (fst (serve_outgoing ck held failed u h s)) = sv_shutdown_tx s"
  by (auto simp: serve_outgoing_def Let_def op_then_fst op_on_fst op_return_def set_handler_def
      split: list.split sum.split option.split outcome.split)

lemma serve_incoming_channel: "sv_shutdown_tx (fst (serve_incoming ck now item s)) = sv_shutdown_tx s"
  by (cases item; (cases "projr item")?;
      simp add: serve_incoming_def serve_received_def op_then_fst op_on_fst op_return_def op_update_def
        split: outcome.split)

lemma client_turn_channel:
  assumes "\<And>h. sv_shutdown_tx (fst (f h s)) = sv_shutdown_tx s"
  shows "sv_shutdown_tx (client_turn ck now u f s) = sv_shutdown_tx s"
proof (cases "hm_get (sv_handlers s) u")
  case (Some h)
  have task: "sv_shutdown_tx (set_task u t s) = sv_shutdown_tx s" for t s
    by (simp add: set_task_def set_handler_def split: option.split)
  obtain s1 r where r: "f h s = (s1, r)" by (cases "f h s")
  obtain s2 r2 where r2: "serve_end ck now u s1 = (s2, r2)" by (cases "serve_end ck now u s1")
  then have "sv_shutdown_tx s2 = sv_shutdown_tx s1"
    by (auto simp: serve_end_def op_then_def op_on_def op_update_def op_return_def split: prod.splits outcome.splits)
  with Some r r2 assms [of h] show ?thesis
    by (auto simp: client_turn_def task split: outcome.split turn.split)
qed (simp add: client_turn_def)

lemma step_channel: "sv_shutdown_tx (server_step ck (now, e) s) = sv_shutdown_tx s"
proof (cases e)
  case (Accepts a)
  then show ?thesis by (simp add: accept_turn_channel)
next
  case (Registers failed u addr)
  then show ?thesis by (simp add: handle_connection_channel)
next
  case (HWrites u held failed)
  then show ?thesis by (simp add: client_turn_channel [OF serve_outgoing_channel])
next
  case (HArrives u item)
  then show ?thesis by (simp add: client_turn_channel [OF serve_incoming_channel])
next
  case (Broadcasts m)
  then show ?thesis by (simp add: broadcast_def broadcast_loop_channel)
qed (simp_all add: connected_send_channel broadcast_loop_channel shutdown_loop_channel server_shutdown_channel)

lemma run_channel: "sv_shutdown_tx (fold (server_step ck) es s) = sv_shutdown_tx s"
proof (induction es arbitrary: s)
  case (Cons x es)
  then show ?case using step_channel by (cases x) simp
qed simp

lemma shutdown_loop_running: "sv_running (fst (shutdown_loop cs s)) = sv_running s"
proof (induction cs arbitrary: s)
  case (Cons c cs)
  obtain s1 r where r: "connected_send shutdown_message (cn_id c) s = (s1, r)"
    by (cases "connected_send shutdown_message (cn_id c) s")
  moreover have "sv_running (fst (connected_send shutdown_message (cn_id c) s)) = sv_running s"
    by (simp add: connected_send_def set_handler_def split: option.split)
  ultimately show ?case using Cons.IH [of s1] by (simp split: option.split)
qed simp

lemma server_shutdown_running: "\<not> sv_running (fst (server_shutdown s))"
  by (simp add: server_shutdown_def shutdown_loop_running)

section \<open>Properties\<close>

lemma accept_turn_returns: "\<exists>b. snd (accept_turn False a s) = Ret b"
  by (auto simp: accept_turn_def op_then_def op_on_def op_return_def record_connection_error_def op_add_release
      split: sum.split)

lemma loop_goes_on:
  assumes "sv_shutdown_tx s = Some ch"
  shows "snd (accept_loop False ch (map (map_prod (fold (server_step False)) id) turns) s) = Ret None \<and>
    sv_shutdown_tx (fst (accept_loop False ch (map (map_prod (fold (server_step False)) id) turns) s)) = Some ch"
  using assms
proof (induction turns arbitrary: s)
  case (Cons x turns)
  obtain es e where x: "x = (es, e)" by (cases x)
  let ?s = "fold (server_step False) es s"
  have ch: "sv_shutdown_tx ?s = Some ch" using Cons.prems by (simp add: run_channel)
  show ?case
  proof (cases e)
    case (Listened a)
    obtain s1 b where s1: "accept_turn False a ?s = (s1, Ret b)"
      using accept_turn_returns [of a ?s] by (cases "accept_turn False a ?s") auto
    then have "sv_shutdown_tx s1 = Some ch" using accept_turn_channel [of False a ?s] ch by simp
    with Cons.IH [of s1] s1 show ?thesis by (simp add: x Listened)
  next
    case Signalled
    with Cons.IH [of ?s] ch show ?thesis by (simp add: x)
  qed
qed simp

lemma accept_turn_config: "sv_config (fst (accept_turn ck a s)) = sv_config s"
  by (auto simp: accept_turn_def op_then_fst op_on_fst op_return_def split: sum.split outcome.split)

lemma loop_config:
  assumes "sv_shutdown_tx s = Some ch"
  shows "sv_config (fst (accept_loop False ch (map (map_prod (fold (server_step False)) id) turns) s)) = sv_config s"
  using assms
proof (induction turns arbitrary: s)
  case (Cons x turns)
  obtain es e where x: "x = (es, e)" by (cases x)
  let ?s = "fold (server_step False) es s"
  have ch: "sv_shutdown_tx ?s = Some ch" using Cons.prems by (simp add: run_channel)
  show ?case
  proof (cases e)
    case (Listened a)
    obtain s1 b where s1: "accept_turn False a ?s = (s1, Ret b)"
      using accept_turn_returns [of a ?s] by (cases "accept_turn False a ?s") auto
    then have "sv_shutdown_tx s1 = Some ch" "sv_config s1 = sv_config s"
      using accept_turn_channel [of False a ?s] accept_turn_config [of False a ?s] ch by (simp_all add: run_config)
    with Cons.IH [of s1] s1 show ?thesis by (simp add: x Listened)
  next
    case Signalled
    with Cons.IH [of ?s] ch show ?thesis by (simp add: x run_config)
  qed
qed simp

text \<open>C27: A server that has started cannot be stopped, except by starting it again (release build).
  Whatever happens between the turns of the accept loop, calls of \<^verbatim>\<open>shutdown\<close> included,
  \<^verbatim>\<open>start\<close> does not return and the loop goes on to accept: the next connection is taken exactly when
  the registry is below \<^verbatim>\<open>max_connections\<close>, so that right after a \<^verbatim>\<open>shutdown\<close> it is taken whenever
  the maximum is positive. But a second \<^verbatim>\<open>start\<close> replaces the sender of the first loop, which
  then shuts the server down, clears the registry of both and leaves the flag at not running, while
  the second loop still accepts (again if the maximum is positive).\<close>

theorem start_never_returns:
  assumes "ch \<noteq> ch'" and "0 < sv_max_connections (sv_config s)"
    and "server_start False ch None (map (map_prod (fold (server_step False)) id) turns) s = (s0, r0)"
    and "s1 = fold (server_step False) es (fst (start_listening None ch' s))"
    and "accept_loop False ch ((id, Signalled) # rest) s1 = (s2, r)"
  shows "r0 = Ret None \<and>
    snd (accept_turn False (Inr addr) s0) = Ret (connection_count s0 < sv_max_connections (sv_config s)) \<and>
    snd (accept_turn False (Inr addr) (fst (server_shutdown s0))) = Ret True \<and>
    connection_count s2 = 0 \<and> \<not> server_is_running s2 \<and> r \<in> {Ret (Some (Ok ())), Ret None} \<and>
    sv_shutdown_tx s2 = Some ch' \<and> snd (accept_turn False (Inr addr) s2) = Ret True"
proof -
  have taken: "snd (accept_turn False (Inr addr) s) = Ret (connection_count s < sv_max_connections (sv_config s))" for s
    by (simp add: accept_turn_def connection_count_def op_then_def op_on_def op_return_def record_connection_error_def
        op_add_release not_less)
  have empty: "connection_count (fst (server_shutdown s)) = 0" "sv_config (fst (server_shutdown s)) = sv_config s" for s
    using step_config [of False "(0, ShutsDown)" s]
    by (simp_all add: connection_count_def shutdown_connections hm_len_def hm_empty_def)
  have "r0 = Ret None" and "sv_config s0 = sv_config s"
    using loop_goes_on [of "fst (start_listening None ch s)" ch turns]
      loop_config [of "fst (start_listening None ch s)" ch turns] assms(3)
    by (simp_all add: server_start_def start_listening_def)
  moreover
  obtain s3 b where s3: "server_shutdown s1 = (s3, b)" by (cases "server_shutdown s1")
  have ch': "sv_shutdown_tx s1 = Some ch'" by (simp add: assms(4) run_channel start_listening_def)
  with assms(1,5) s3 have s2: "s2 = s3" "r \<in> {Ret (Some (Ok ())), Ret None}" by (auto split: bool.splits)
  have "sv_shutdown_tx s2 = Some ch'" using server_shutdown_channel [of s1] s3 ch' s2 by simp
  moreover have "\<not> sv_running s2" using server_shutdown_running [of s1] s3 s2 by simp
  moreover have "sv_config s2 = sv_config s" "connection_count s2 = 0"
    using empty [of s1] s3 s2 by (simp_all add: assms(4) run_config start_listening_def)
  ultimately show ?thesis
    using assms(2) s2(2) empty [of s0] by (simp add: server_is_running_def taken)
qed

theorem start_never_returns_witness:
  "snd (server_start False 0 None [(fold (server_step False) [(1, ShutsDown)], Listened (Inr []))]
     (server_new (server_config_new []))) = Ret None"
proof -
  let ?s = "server_new (server_config_new [])"
  have "0 < sv_max_connections (sv_config ?s)" by (simp add: server_new_def server_config_new_def)
  from start_never_returns [OF _ this prod.collapse [symmetric] refl prod.collapse [symmetric],
      of 0 1 "[([(1, ShutsDown)], Listened (Inr []))]"]
  show ?thesis by simp
qed

end
