(* ===== verification/System.thy ===== *)
theory System
  imports Client Delivery "HOL-Library.Sublist"
begin

text \<open>
  A client (\<^verbatim>\<open>src/src/client.rs\<close>), the server (\<^verbatim>\<open>src/src/server.rs\<close>) and the connection between
  them as one step relation. Each wire is a list. The network keeps the order of what is written
  and loses nothing while the connection lasts, as WebSocket over TCP does; the protocol
  engine on either side may put control frames of its own anywhere between the messages, and the stream may fail at
  any time. The server serves any number of other clients at the same time.
\<close>

section \<open>The connection\<close>

text \<open>\<open>lk_asked\<close> and \<open>lk_told\<close> record what the two channels have accepted, \<open>lk_got\<close> and \<open>lk_heard\<close> what
  the two tasks have read.\<close>

record link =
  lk_client :: ws_client
  lk_server :: ws_server
  lk_up :: "tungstenite list"
  lk_down :: "tungstenite list"
  lk_asked :: "message list"
  lk_told :: "message list"
  lk_got :: "tungstenite list"
  lk_heard :: "tungstenite list"

definition client_does :: "instant \<times> client_event \<Rightarrow> link \<Rightarrow> link" where
  "client_does ev n =
     n\<lparr>lk_client := client_step False ev (lk_client n),
       lk_up := lk_up n @ written_by False ev (lk_client n),
       lk_asked := lk_asked n @ enqueued_by False ev (lk_client n)\<rparr>"

definition server_does :: "uuid \<Rightarrow> instant \<times> server_event \<Rightarrow> link \<Rightarrow> link" where
  "server_does u ev n =
     n\<lparr>lk_server := server_step False ev (lk_server n),
       lk_down := lk_down n @ serve_written False u ev (lk_server n) @ serve_replied False u ev (lk_server n),
       lk_told := lk_told n @ appended (\<lambda>s. queue_of s u) (server_step False) ev (lk_server n)\<rparr>"

inductive link_step :: "uuid \<Rightarrow> link \<Rightarrow> link \<Rightarrow> bool" for u where
  client_acts: "\<forall>t. e \<noteq> Arrives (Inr t) \<Longrightarrow> link_step u n (client_does (now, e) n)"
| server_acts: "\<forall>t. e \<noteq> HArrives u (Inr t) \<Longrightarrow> u \<notin> set (registered [(now, e)]) \<Longrightarrow>
    link_step u n (server_does u (now, e) n)"
| server_reads: "task_of (lk_server n) u = Some Running \<Longrightarrow> lk_up n = t # ts \<Longrightarrow>
    link_step u n (server_does u (now, HArrives u (Inr t)) (n\<lparr>lk_up := ts, lk_got := lk_got n @ [t]\<rparr>))"
| client_reads: "wc_task (lk_client n) = Running \<Longrightarrow> lk_down n = t # ts \<Longrightarrow>
    link_step u n (client_does (now, Arrives (Inr t)) (n\<lparr>lk_down := ts, lk_heard := lk_heard n @ [t]\<rparr>))"
| control_up: "\<not> is_payload t \<Longrightarrow> lk_up n = xs @ ys \<Longrightarrow> link_step u n (n\<lparr>lk_up := xs @ t # ys\<rparr>)"
| control_down: "\<not> is_payload t \<Longrightarrow> lk_down n = xs @ ys \<Longrightarrow> link_step u n (n\<lparr>lk_down := xs @ t # ys\<rparr>)"

text \<open>A connection just made: nothing sent, nothing received.\<close>

definition link_start :: "uuid \<Rightarrow> link \<Rightarrow> bool" where
  "link_start u n \<longleftrightarrow>
     wc_queue (lk_client n) = [] \<and> messages_received (wc_metrics (lk_client n)) = 0 \<and>
     bytes_received (wc_metrics (lk_client n)) = 0 \<and> queue_of (lk_server n) u = [] \<and>
     lk_up n = [] \<and> lk_down n = [] \<and> lk_asked n = [] \<and> lk_told n = [] \<and> lk_got n = [] \<and> lk_heard n = []"

section \<open>What a client counts as received\<close>

definition received_by :: "ws_client \<Rightarrow> u64 \<times> u64" where
  "received_by c = (messages_received (wc_metrics c), bytes_received (wc_metrics c))"

definition wire_size :: "tungstenite \<Rightarrow> u64" where
  "wire_size t = (case t of TText s \<Rightarrow> of_nat (length (utf8_encode s)) | TBinary b \<Rightarrow> of_nat (length b) | _ \<Rightarrow> 0)"

lemma metrics_received [simp]:
  "messages_received (fst (record_message_sent ck now n m)) = messages_received m"
  "bytes_received (fst (record_message_sent ck now n m)) = bytes_received m"
  "messages_received (fst (record_disconnection ck now m)) = messages_received m"
  "bytes_received (fst (record_disconnection ck now m)) = bytes_received m"
  "messages_received (fst (record_receive_error ck m)) = messages_received m"
  "bytes_received (fst (record_receive_error ck m)) = bytes_received m"
  by (simp_all add: metrics_ops op_then_fst op_add_def op_update_def split: outcome.splits)

lemma received_by_update [simp]:
  "received_by (c\<lparr>wc_queue := q\<rparr>) = received_by c" "received_by (c\<lparr>wc_task := t\<rparr>) = received_by c"
  "received_by (c\<lparr>wc_backpressure := b\<rparr>) = received_by c" "received_by (c\<lparr>wc_heartbeat := h\<rparr>) = received_by c"
  "received_by (c\<lparr>wc_shutdown := x, wc_connected := y\<rparr>) = received_by c"
  by (simp_all add: received_by_def)

lemma received_by_metrics:
  "messages_received m = messages_received (wc_metrics c) \<Longrightarrow> bytes_received m = bytes_received (wc_metrics c) \<Longrightarrow>
     received_by (c\<lparr>wc_metrics := m\<rparr>) = received_by c"
  by (simp add: received_by_def)

lemma send_received: "received_by (fst (client_send ck now m c)) = received_by c"
  and enqueue_received: "received_by (fst (send_enqueue ck now m c)) = received_by c"
  by (auto simp: client_send_def send_enqueue_def op_then_fst op_on_fst op_return_def op_update_def received_by_metrics
      split: sum.split outcome.split)

lemma close_after_received: "received_by (fst (close_after ck now r c)) = received_by c"
  by (auto simp: close_after_def op_then_fst op_on_fst op_return_def op_update_def received_by_metrics
      split: option.split sum.split outcome.split)

lemma run_outgoing_received: "received_by (fst (run_outgoing ck failed c)) = received_by c"
  by (auto simp: run_outgoing_def op_then_fst op_on_fst op_return_def
      split: list.split sum.split option.split outcome.split)

lemma task_turn_received:
  "received_by (task_turn f c) = (if wc_task c = Running then received_by (fst (f c)) else received_by c)"
  by (auto simp: task_turn_def split: prod.split outcome.split)

lemma step_received:
  assumes "\<forall>t. e \<noteq> Arrives (Inr t)"
  shows "received_by (client_step ck (now, e) c) = received_by c"
proof (cases e)
  case (Closes r)
  then show ?thesis
    by (auto simp: client_close_def op_then_fst close_after_received send_received split: outcome.split)
next
  case (ResumesClose r)
  then show ?thesis
    by (auto simp: op_then_fst close_after_received enqueue_received split: outcome.split)
next
  case (Arrives item)
  with assms obtain x where "item = Inl x" by (cases item) auto
  with Arrives show ?thesis
    by (auto simp: task_turn_received run_incoming_def op_then_fst op_on_fst op_return_def received_by_metrics
        split: outcome.split)
next
  case Ticks
  then show ?thesis
    by (auto simp: heartbeat_tick_def op_then_fst op_on_fst op_return_def send_received split: outcome.split)
qed (simp_all add: send_received enqueue_received task_turn_received run_outgoing_received)

lemma run_received_received:
  "received_by (fst (run_received False now m c)) = (fst (received_by c) + 1, snd (received_by c) + msg_size m)"
  by (simp add: run_received_def record_message_received_def op_then_def op_on_def op_update_def op_return_def
      op_add_release touch_def received_by_def)

lemma arrival_received:
  assumes "wc_task c = Running"
  shows "received_by (client_step False (now, Arrives (Inr t)) c) =
    (if is_payload t then (fst (received_by c) + 1, snd (received_by c) + wire_size t) else received_by c)"
proof (cases t)
  case (TText x)
  with assms show ?thesis
    by (simp add: task_turn_received run_incoming_def run_received_received is_payload_def wire_size_def msg_size_def
        message_len_def message_text_def)
next
  case (TBinary x)
  with assms show ?thesis
    by (simp add: task_turn_received run_incoming_def run_received_received is_payload_def wire_size_def msg_size_def
        message_len_def message_binary_def)
qed (use assms in \<open>auto simp: task_turn_received run_incoming_def is_payload_def op_then_fst op_on_fst op_return_def
      received_by_metrics split: outcome.split\<close>)

section \<open>The invariant\<close>

text \<open>One direction: what was accepted against what was read and what is still on the wire.\<close>

definition direction_ok :: "message list \<Rightarrow> tungstenite list \<Rightarrow> bool \<Rightarrow> message list \<Rightarrow> bool" where
  "direction_ok accepted flow up held \<longleftrightarrow>
     (\<exists>wire. in_order accepted wire up held \<and> filter is_payload wire = filter is_payload flow)"

definition link_ok :: "uuid \<Rightarrow> link \<Rightarrow> bool" where
  "link_ok u n \<longleftrightarrow>
     direction_ok (lk_asked n) (lk_got n @ lk_up n) (wc_task (lk_client n) = Running) (wc_queue (lk_client n)) \<and>
     direction_ok (lk_told n) (lk_heard n @ lk_down n) (task_of (lk_server n) u = Some Running)
       (queue_of (lk_server n) u) \<and>
     received_by (lk_client n) =
       (of_nat (length (filter is_payload (lk_heard n))), sum_list (map wire_size (filter is_payload (lk_heard n))))"

lemma link_ok_start: "link_start u n \<Longrightarrow> link_ok u n"
  by (auto simp: link_start_def link_ok_def direction_ok_def received_by_def intro!: exI [of _ "[]"])

lemma client_replies_no_payload: "filter is_payload (replied_by False ev c) = []"
  by (auto simp: replied_by_def run_incoming_def run_received_def op_then_def op_return_def is_payload_def
      split: client_event.splits prod.splits sum.splits tungstenite.splits outcome.splits option.splits)

lemma server_replies_no_payload: "filter is_payload (serve_replied ck u ev s) = []"
  by (auto simp: serve_replied_def turn_output_def serve_incoming_def serve_received_def op_then_def op_return_def
      is_payload_def
      split: server_event.splits prod.splits sum.splits tungstenite.splits outcome.splits option.splits)

lemmas replies_no_payload = client_replies_no_payload server_replies_no_payload

text \<open>A step of an endpoint that owns the channel.\<close>

lemma direction_client:
  assumes "direction_ok accepted flow (wc_task c = Running) (wc_queue c)"
    and "filter is_payload extra = []"
  shows "direction_ok (accepted @ enqueued_by False ev c) (flow @ sent_by False ev c @ extra)
    (wc_task (client_step False ev c) = Running) (wc_queue (client_step False ev c))"
proof -
  obtain wire where "in_order accepted wire (wc_task c = Running) (wc_queue c)"
    and "filter is_payload wire = filter is_payload flow"
    using assms(1) by (auto simp: direction_ok_def)
  with cf.in_order_step [of accepted wire c ev] assms(2) show ?thesis
    unfolding direction_ok_def enqueued_by_def by (intro exI [of _ "wire @ sent_by False ev c"]) simp
qed

lemma direction_server:
  assumes "direction_ok accepted flow (task_of s u = Some Running) (queue_of s u)"
    and "u \<notin> set (registered [ev])" and "filter is_payload extra = []"
  shows "direction_ok (accepted @ appended (\<lambda>s. queue_of s u) (server_step False) ev s) (flow @ serve_written False u ev s @ extra)
    (task_of (server_step False ev s) u = Some Running) (queue_of (server_step False ev s) u)"
proof -
  obtain wire where "in_order accepted wire (task_of s u = Some Running) (queue_of s u)"
    and "filter is_payload wire = filter is_payload flow"
    using assms(1) by (auto simp: direction_ok_def)
  with sf.in_order_step [of accepted wire s u ev] assms(2,3) show ?thesis
    unfolding direction_ok_def by (intro exI [of _ "wire @ serve_written False u ev s"]) simp
qed

lemma direction_flow:
  "filter is_payload flow' = filter is_payload flow \<Longrightarrow>
     direction_ok accepted flow' up held = direction_ok accepted flow up held"
  by (simp add: direction_ok_def)

lemma client_does_ok:
  assumes "link_ok u n" and "received_by (client_step False ev (lk_client n)) = received_by (lk_client n)"
  shows "link_ok u (client_does ev n)"
  using assms direction_client [of "lk_asked n" "lk_got n @ lk_up n" "lk_client n" "replied_by False ev (lk_client n)" ev]
  by (simp add: link_ok_def client_does_def written_by_def replies_no_payload)

lemma server_does_ok:
  assumes "link_ok u n" and "u \<notin> set (registered [ev])"
  shows "link_ok u (server_does u ev n)"
  using assms direction_server [of "lk_told n" "lk_heard n @ lk_down n" "lk_server n" u ev
      "serve_replied False u ev (lk_server n)"]
  by (simp add: link_ok_def server_does_def replies_no_payload)

lemma link_ok_step:
  assumes "link_step u n n'" and "link_ok u n"
  shows "link_ok u n'"
  using assms
proof (induction rule: link_step.induct)
  case (client_acts e now n)
  then show ?case by (intro client_does_ok step_received) auto
next
  case (server_acts e now n)
  then show ?case by (intro server_does_ok) auto
next
  case (server_reads n t ts now)
  then have "link_ok u (n\<lparr>lk_up := ts, lk_got := lk_got n @ [t]\<rparr>)" by (simp add: link_ok_def)
  then show ?case by (intro server_does_ok) auto
next
  case (client_reads n t ts now)
  let ?c = "lk_client n" and ?ev = "(now, Arrives (Inr t))"
  have "direction_ok (lk_asked n) (lk_got n @ lk_up n) (wc_task ?c = Running) (wc_queue ?c)"
    using client_reads(3) by (simp add: link_ok_def)
  from direction_client [OF this, of "replied_by False ?ev ?c" ?ev] client_reads arrival_received [of ?c now t]
  show ?case by (simp add: link_ok_def client_does_def written_by_def replies_no_payload del: client_step.simps)
next
  case (control_up t n xs ys)
  then show ?case by (simp add: link_ok_def) (subst direction_flow; auto)
next
  case (control_down t n xs ys)
  then show ?case by (simp add: link_ok_def) (subst direction_flow; auto)
qed

lemma link_ok_run: "(link_step u)\<^sup>*\<^sup>* n n' \<Longrightarrow> link_ok u n \<Longrightarrow> link_ok u n'"
  by (induction rule: rtranclp_induct) (auto intro: link_ok_step)

lemma direction_delivered:
  assumes "direction_ok accepted flow up held"
  shows "\<exists>sent. prefix sent accepted \<and> map to_tungstenite (filter carries_data sent) = map Ok (filter is_payload flow) \<and>
    (up \<longrightarrow> accepted = sent @ held)"
proof -
  obtain sent rest wire where *: "accepted = sent @ rest" "map to_tungstenite sent = map Ok wire" "up \<longrightarrow> rest = held"
      "filter is_payload wire = filter is_payload flow"
    using assms by (auto simp: direction_ok_def in_order_def)
  from payloads_of_data [OF *(2)] * show ?thesis by (intro exI [of _ sent]) simp
qed

text \<open>C2: Delivery end to end: however the calls, the two tasks, the network and the other clients of
  the server interleave, the server has read from the client exactly the first of the data
  messages that the client's channel accepted, in order and each once, less what is still on
  the wire, and nothing is lost before the channel while the task runs; the same holds in the
  other direction for what was sent to the client or broadcast; and the client counts exactly
  the messages and bytes that it has read (release build, modulo 2^64).\<close>

theorem link_delivery:
  assumes "link_start u n0" and "(link_step u)\<^sup>*\<^sup>* n0 n"
  shows "(\<exists>sent. prefix sent (lk_asked n) \<and>
       map to_tungstenite (filter carries_data sent) = map Ok (filter is_payload (lk_got n @ lk_up n)) \<and>
       (wc_task (lk_client n) = Running \<longrightarrow> lk_asked n = sent @ wc_queue (lk_client n))) \<and>
    (\<exists>sent. prefix sent (lk_told n) \<and>
       map to_tungstenite (filter carries_data sent) = map Ok (filter is_payload (lk_heard n @ lk_down n)) \<and>
       (task_of (lk_server n) u = Some Running \<longrightarrow> lk_told n = sent @ queue_of (lk_server n) u)) \<and>
    messages_received (wc_metrics (lk_client n)) = of_nat (length (filter is_payload (lk_heard n))) \<and>
    bytes_received (wc_metrics (lk_client n)) = sum_list (map wire_size (filter is_payload (lk_heard n)))"
proof -
  have "link_ok u n" using link_ok_run [OF assms(2)] link_ok_start [OF assms(1)] by blast
  then have up: "direction_ok (lk_asked n) (lk_got n @ lk_up n) (wc_task (lk_client n) = Running) (wc_queue (lk_client n))"
    and down: "direction_ok (lk_told n) (lk_heard n @ lk_down n) (task_of (lk_server n) u = Some Running)
       (queue_of (lk_server n) u)"
    and count: "received_by (lk_client n) =
       (of_nat (length (filter is_payload (lk_heard n))), sum_list (map wire_size (filter is_payload (lk_heard n))))"
    by (auto simp: link_ok_def)
  from direction_delivered [OF up] direction_delivered [OF down] count show ?thesis
    unfolding received_by_def by blast
qed

section \<open>Draining\<close>

text \<open>A message that the task can write, and an item that does not end the reader.\<close>

definition writable :: "message \<Rightarrow> bool" where
  "writable m \<longleftrightarrow> msg_type m \<noteq> Close \<and> (\<exists>t. to_tungstenite m = Ok t)"

definition no_close :: "tungstenite \<Rightarrow> bool" where
  "no_close t \<longleftrightarrow> (\<forall>x. t \<noteq> TClose x)"

lemma writable_no_close: "writable m \<Longrightarrow> to_tungstenite m = Ok t \<Longrightarrow> no_close t"
  by (cases "msg_type m") (auto simp: writable_def no_close_def to_tungstenite_def try_then_Ok_iff)

lemma client_writes:
  assumes "wc_task c = Running" and "wc_queue c = m # ms" and "to_tungstenite m = Ok t"
  shows "wc_task (client_step False (now, Writes None) c) = Running" "wc_queue (client_step False (now, Writes None) c) = ms"
    "written_by False (now, Writes None) c = [t]" "enqueued_by False (now, Writes None) c = []"
  using assms
  by (simp_all add: task_turn_def run_outgoing_def written_by_def sent_by_def replied_by_def enqueued_by_def appended_def
      op_then_def op_on_def op_return_def record_send_def op_add_def add_ck_release)

lemma server_reads_on:
  assumes "task_of s u = Some Running" and "no_close t"
  shows "task_of (server_step False (now, HArrives u (Inr t)) s) u = Some Running"
proof -
  obtain h where h: "hm_get (sv_handlers s) u = Some h" "hd_task h = Running" using assms(1) by (auto simp: task_of_def)
  have "\<exists>s' out. serve_incoming False now (Inr t) s = (s', Ret (out, Continue))"
    using assms(2)
    by (cases t) (auto simp: no_close_def serve_incoming_def serve_received_def op_then_def op_on_def op_return_def
        op_update_def record_message_received_def op_add_release touch_def handle_pong_def)
  then obtain s' out where s': "serve_incoming False now (Inr t) s = (s', Ret (out, Continue))" by blast
  then have "quiet s s'" using serve_incoming_quiet [of s False now "Inr t"] by simp
  with h s' assms(1) show ?thesis by (simp add: client_turn_def quiet_def)
qed

text \<open>The turns by which the two tasks move messages to the server: the connection task of the client
  takes the next message of its channel and the stream takes it, or the task of the server reads
  the next item of the wire. No call of the user is among them.\<close>

inductive task_step :: "uuid \<Rightarrow> link \<Rightarrow> link \<Rightarrow> bool" for u where
  task_writes: "wc_task (lk_client n) = Running \<Longrightarrow> wc_queue (lk_client n) \<noteq> [] \<Longrightarrow>
    task_step u n (client_does (now, Writes None) n)"
| task_reads: "task_of (lk_server n) u = Some Running \<Longrightarrow> lk_up n = t # ts \<Longrightarrow>
    task_step u n (server_does u (now, HArrives u (Inr t)) (n\<lparr>lk_up := ts, lk_got := lk_got n @ [t]\<rparr>))"

lemma task_step_link: "task_step u n n' \<Longrightarrow> link_step u n n'"
  by (induction rule: task_step.induct) (auto intro: link_step.intros)

definition draining :: "uuid \<Rightarrow> link \<Rightarrow> bool" where
  "draining u n \<longleftrightarrow>
     wc_task (lk_client n) = Running \<and> task_of (lk_server n) u = Some Running \<and>
     (\<forall>m \<in> set (wc_queue (lk_client n)). writable m) \<and> (\<forall>t \<in> set (lk_up n). no_close t)"

text \<open>A queued message is written and then read; an item on the wire is only read.\<close>

definition turns_left :: "link \<Rightarrow> nat" where
  "turns_left n = 2 * length (wc_queue (lk_client n)) + length (lk_up n)"

lemma draining_step:
  assumes "task_step u n n'" and "draining u n"
  shows "draining u n' \<and> lk_asked n' = lk_asked n \<and> turns_left n = Suc (turns_left n')"
  using assms
proof (induction rule: task_step.induct)
  case (task_writes n now)
  obtain m ms where q: "wc_queue (lk_client n) = m # ms" using task_writes(2) by (cases "wc_queue (lk_client n)") auto
  then obtain t where t: "to_tungstenite m = Ok t" and "no_close t"
    using task_writes(3) writable_no_close [of m] by (auto simp: draining_def writable_def)
  with client_writes [OF task_writes(1) q t, of now] task_writes(3) q show ?case
    by (simp add: draining_def turns_left_def client_does_def ball_Un del: client_step.simps)
next
  case (task_reads n t ts now)
  then have "task_of (server_step False (now, HArrives u (Inr t)) (lk_server n)) u = Some Running"
    by (intro server_reads_on) (simp_all add: draining_def)
  with task_reads show ?case
    by (simp add: draining_def turns_left_def server_does_def del: server_step.simps)
qed

lemma draining_run:
  "(task_step u ^^ k) n n' \<Longrightarrow> draining u n \<Longrightarrow>
     draining u n' \<and> lk_asked n' = lk_asked n \<and> turns_left n = k + turns_left n' \<and> (link_step u)\<^sup>*\<^sup>* n n'"
proof (induction k arbitrary: n')
  case (Suc k)
  then obtain n1 where "(task_step u ^^ k) n n1" and last: "task_step u n1 n'" by auto
  with Suc have n1: "draining u n1" "lk_asked n1 = lk_asked n" "turns_left n = k + turns_left n1" "(link_step u)\<^sup>*\<^sup>* n n1"
    by blast+
  with draining_step [OF last n1(1)] task_step_link [OF last] show ?case by (auto intro: rtranclp.rtrancl_into_rtrancl)
qed auto

lemma draining_stops:
  assumes "draining u n" and "\<forall>n'. \<not> task_step u n n'"
  shows "wc_queue (lk_client n) = [] \<and> lk_up n = []"
  using assms task_step.intros [of n u] by (cases "lk_up n") (auto simp: draining_def)

lemma draining_ends: "draining u n \<Longrightarrow> \<exists>n'. (task_step u)\<^sup>*\<^sup>* n n' \<and> (\<forall>n''. \<not> task_step u n' n'')"
proof (induction "turns_left n" arbitrary: n rule: less_induct)
  case less
  show ?case
  proof (cases "\<exists>n'. task_step u n n'")
    case True
    then obtain n1 where step: "task_step u n n1" by blast
    with draining_step [OF step less.prems] less.hyps [of n1] show ?thesis
      by (auto intro: converse_rtranclp_into_rtranclp)
  qed blast
qed

text \<open>C7: Nothing that was accepted is stuck (release build). Take any reachable state in which both tasks
  run, every message still in the client's channel can be written (its text is valid UTF-8 and it
  is no close) and no close is on the wire. Then the turns of the two tasks alone, without any
  call, deliver: in whatever order and at whatever times the client's task writes and the
  server's task reads, every message in the channel takes at most two turns and every item on
  the wire at most one, nothing is accepted meanwhile, and when no such turn is left the server
  has read every data message that the client's channel ever accepted, all of them and in
  order; and such an end is reached.\<close>

theorem link_drains:
  assumes "link_start u n0" and "(link_step u)\<^sup>*\<^sup>* n0 n"
    and "wc_task (lk_client n) = Running" and "task_of (lk_server n) u = Some Running"
    and "\<forall>m \<in> set (wc_queue (lk_client n)). writable m" and "\<forall>t \<in> set (lk_up n). no_close t"
  shows "(\<forall>k n'. (task_step u ^^ k) n n' \<longrightarrow>
      k \<le> 2 * length (wc_queue (lk_client n)) + length (lk_up n) \<and> lk_asked n' = lk_asked n \<and>
      ((\<forall>n''. \<not> task_step u n' n'') \<longrightarrow>
       map to_tungstenite (filter carries_data (lk_asked n)) = map Ok (filter is_payload (lk_got n')))) \<and>
    (\<exists>n'. (task_step u)\<^sup>*\<^sup>* n n' \<and> (\<forall>n''. \<not> task_step u n' n''))"
proof -
  have drain: "draining u n" using assms(3-) by (simp add: draining_def)
  have read: "map to_tungstenite (filter carries_data (lk_asked n)) = map Ok (filter is_payload (lk_got n'))"
    if run: "(task_step u ^^ k) n n'" and stop: "\<forall>n''. \<not> task_step u n' n''" for k n'
  proof -
    note n' = draining_run [OF run drain]
    have "link_ok u n'" by (rule link_ok_run [OF rtranclp_trans [OF assms(2)] link_ok_start [OF assms(1)]]) (simp add: n')
    then have "direction_ok (lk_asked n') (lk_got n' @ lk_up n') (wc_task (lk_client n') = Running) (wc_queue (lk_client n'))"
      by (simp add: link_ok_def)
    from direction_delivered [OF this] obtain sent
      where sent: "map to_tungstenite (filter carries_data sent) = map Ok (filter is_payload (lk_got n' @ lk_up n'))"
        "wc_task (lk_client n') = Running \<longrightarrow> lk_asked n' = sent @ wc_queue (lk_client n')" by blast
    have "wc_task (lk_client n') = Running" using n' by (simp add: draining_def)
    moreover have "wc_queue (lk_client n') = [] \<and> lk_up n' = []" by (rule draining_stops [OF _ stop]) (simp add: n')
    ultimately show ?thesis using sent n' by simp
  qed
  have "k \<le> turns_left n \<and> lk_asked n' = lk_asked n" if "(task_step u ^^ k) n n'" for k n'
    using draining_run [OF that drain] by simp
  with read draining_ends [OF drain] show ?thesis unfolding turns_left_def by blast
qed

section \<open>Witnesses\<close>

definition sample_link :: link where
  "sample_link =
     \<lparr>lk_client = client_fresh (client_config_new (lit ''ws'')), lk_server = empty_channel, lk_up = [], lk_down = [],
      lk_asked = [], lk_told = [], lk_got = [], lk_heard = []\<rparr>"

lemma sample_link_start: "link_start 7 sample_link"
  by (simp add: link_start_def sample_link_def empty_channel) (simp add: client_fresh_def metrics_new_def)

lemma sample_run:
  "(link_step 7)\<^sup>*\<^sup>* sample_link (client_does (5, Sends (message_binary [1, 2])) sample_link)"
  by (intro r_into_rtranclp link_step.client_acts) simp

theorem link_delivery_witness:
  "let n = client_does (5, Sends (message_binary [1, 2])) sample_link
   in \<exists>sent. prefix sent (lk_asked n) \<and>
     map to_tungstenite (filter carries_data sent) = map Ok (filter is_payload (lk_got n @ lk_up n))"
  using link_delivery [OF sample_link_start sample_run] by (simp only: Let_def) blast

lemma sample_link_sends:
  defines "n \<equiv> client_does (5, Sends (message_binary [1, 2])) sample_link"
  shows "wc_queue (lk_client n) = [message_binary [1, 2]]" "wc_task (lk_client n) = Running"
    "lk_asked n = [message_binary [1, 2]]" "lk_up n = []" "lk_server n = empty_channel"
proof -
  let ?c = "client_fresh (client_config_new (lit ''ws''))" and ?m = "message_binary [1, 2]"
  have open_c: "open_idle ?c" by (rule open_idle_fresh) (simp add: client_config_new_def)
  have "msg_size ?m = 2" by (simp add: msg_size_def message_len_def message_binary_def)
  then have "counters_fit (msg_size ?m) ?c"
    by (simp add: counters_fit_def client_fresh_def metrics_new_def backpressure_new_def)
  note sent = client_send_accepts [OF open_c this, of False 5]
  show "wc_queue (lk_client n) = [?m]" "wc_task (lk_client n) = Running"
    "lk_asked n = [?m]" "lk_up n = []" "lk_server n = empty_channel"
    using open_c
    by (simp_all add: n_def client_does_def sample_link_def sent enqueued_by_def appended_def written_by_def
        sent_by_def replied_by_def open_idle_def)
qed

theorem link_drains_witness:
  "\<exists>n. (link_step 7)\<^sup>*\<^sup>* sample_link n \<and> lk_asked n = [message_binary [1, 2]] \<and>
     filter is_payload (lk_got n) = [TBinary [1, 2]]"
proof -
  let ?n = "client_does (5, Sends (message_binary [1, 2])) sample_link"
  have conv: "to_tungstenite (message_binary [1, 2]) = Ok (TBinary [1, 2])"
    by (simp add: to_tungstenite_def message_binary_def)
  have data: "carries_data (message_binary [1, 2])" by (simp add: carries_data_def message_binary_def)
  have "writable (message_binary [1, 2])" by (simp add: writable_def conv) (simp add: message_binary_def)
  then have queue: "\<forall>m \<in> set (wc_queue (lk_client ?n)). writable m" by (simp only: sample_link_sends) simp
  have up: "task_of (lk_server ?n) 7 = Some Running" by (simp only: sample_link_sends empty_channel)
  have wire: "\<forall>t \<in> set (lk_up ?n). no_close t" by (simp only: sample_link_sends) simp
  note drains = link_drains [OF sample_link_start sample_run sample_link_sends(2) up queue wire]
  from conjunct2 [OF drains] obtain n where run: "(task_step 7)\<^sup>*\<^sup>* ?n n" and stop: "\<forall>n''. \<not> task_step 7 n n''" by blast
  from rtranclp_imp_relpowp [OF run] obtain k where "(task_step 7 ^^ k) ?n n" by blast
  from conjunct1 [OF drains, rule_format, OF this] have asked: "lk_asked n = lk_asked ?n"
      and "(\<forall>n''. \<not> task_step 7 n n'') \<longrightarrow>
        map to_tungstenite (filter carries_data (lk_asked ?n)) = map Ok (filter is_payload (lk_got n))"
    by blast+
  with stop have got: "map to_tungstenite (filter carries_data (lk_asked ?n)) = map Ok (filter is_payload (lk_got n))"
    by blast
  have "(link_step 7)\<^sup>*\<^sup>* ?n n" using run by (rule mono_rtranclp [rule_format, rotated]) (rule task_step_link)
  with rtranclp_trans [OF sample_run] data conv asked got show ?thesis
    unfolding sample_link_sends(3) by (intro exI [of _ n]) (auto simp: map_eq_Cons_conv)
qed

end
