(* ===== verification/RateBound.thy ===== *)
theory RateBound
  imports RateLimit
begin

text \<open>
  What a limiter (\<^verbatim>\<open>src/src/ratelimit.rs\<close>) grants in the long run: the time that a refill moves the
  bucket forward pays for the tokens that it adds, up to a nanosecond and the rounding of
  the double arithmetic.
\<close>

section \<open>One refill\<close>

definition slack :: rat where
  "slack = 1 + 16 * unit_roundoff"

text \<open>The tokens of a number of nanoseconds, rounded generously.\<close>

definition paid :: "u64 \<Rightarrow> rat \<Rightarrow> rat" where
  "paid rate nanos = nanos * (rat_of rate / 1000000000) * slack"

lemma slack_ge: "1 \<le> slack"
  by (simp add: slack_def unit_roundoff_def)

lemma paid_mono: "x \<le> y \<Longrightarrow> paid rate x \<le> paid rate y"
  unfolding paid_def using slack_ge by (intro mult_right_mono) (simp_all add: rat_of_bounds)

lemma paid_nonneg: "0 \<le> x \<Longrightarrow> 0 \<le> paid rate x"
  unfolding paid_def using slack_ge by (intro mult_nonneg_nonneg) (simp_all add: rat_of_bounds)

lemma paid_add: "paid rate (x + y) = paid rate x + paid rate y"
  by (simp add: paid_def algebra_simps)

text \<open>The time charged for added tokens.\<close>

definition charge :: "u64 \<Rightarrow> u64 \<Rightarrow> u64" where
  "charge added rate =
     f64_to_u64 (f64_mul (f64_div (f64_of_u64 added) (f64_of_u64 rate)) nanos_per_second)"

lemma fl_ge_one: "w \<noteq> 0 \<Longrightarrow> 1 \<le> fl (rat_of w)"
  using fl_ge [OF representable_powi [of 0], of "rat_of w"] rat_of_ge_one [of w] rat_of_zero_iff [of w] by simp

lemma charge_eq:
  assumes "rate \<noteq> 0"
  shows "charge added rate = f64_to_u64 (Fin (fl (fl (fl (rat_of added) / fl (rat_of rate)) * 1000000000)))"
proof -
  let ?a = "fl (rat_of added)" and ?r = "fl (rat_of rate)"
  have a: "0 \<le> ?a" "?a \<le> 2 powi 64" using f64_of_u64_eq [of added] by simp_all
  have r: "1 \<le> ?r" using fl_ge_one [OF assms] .
  then have q: "0 \<le> ?a / ?r" "?a / ?r \<le> 2 powi 64"
    using a by (simp_all add: divide_le_eq)
  have qf: "fround (?a / ?r) = Fin (fl (?a / ?r))" "0 \<le> fl (?a / ?r)" "fl (?a / ?r) \<le> 2 powi 64"
    using fround_finite [OF q] by simp_all
  have "fl (?a / ?r) * 1000000000 \<le> 2 powi 64 * 2 powi 30"
    using qf by (intro mult_mono) simp_all
  then have t: "0 \<le> fl (?a / ?r) * 1000000000" "fl (?a / ?r) * 1000000000 \<le> 2 powi 94"
    using qf by simp_all
  have "fround (fl (?a / ?r) * 1000000000) = Fin (fl (fl (?a / ?r) * 1000000000))"
    using fround_finite [OF t] by simp
  then show ?thesis
    using f64_of_u64_eq [of added] f64_of_u64_eq [of rate] r qf(1)
    by (simp add: charge_def nanos_per_second_eq)
qed

lemma scaled_quotient_ge:
  assumes "rate \<noteq> 0"
  shows "rat_of added / rat_of rate * 1000000000 * (1 - 8 * unit_roundoff) \<le>
    fl (fl (fl (rat_of added) / fl (rat_of rate)) * 1000000000)"
proof (cases "added = 0")
  case True
  then show ?thesis by (simp add: rat_of_def fl_def)
next
  case False
  let ?u = unit_roundoff and ?A = "rat_of added" and ?R = "rat_of rate"
  let ?a = "fl ?A" and ?r = "fl ?R"
  have u: "0 < ?u" "?u \<le> 1 / 16" by (simp_all add: unit_roundoff_def)
  have R: "1 \<le> ?R" "?R \<le> 2 powi 64" and A: "1 \<le> ?A"
    using rat_of_ge_one [of rate] rat_of_ge_one [of added] rat_of_zero_iff [of rate] rat_of_zero_iff [of added]
      rat_of_bounds(2) [of rate] assms False by auto
  have a: "1 \<le> ?a" "?A * (1 - ?u) \<le> ?a" using fl_ge_one [OF False] fl_bounds(2) [OF rat_of_normal] by simp_all
  have r: "1 \<le> ?r" "?r \<le> ?R * (1 + ?u)" "?r \<le> 2 powi 64"
    using fl_ge_one [OF assms] fl_bounds(1) [OF rat_of_normal] f64_of_u64_eq [of rate] by simp_all
  have q: "2 powi (- 64) \<le> ?a / ?r"
  proof -
    have "1 / 2 powi 64 \<le> ?a / ?r" using a(1) r(1,3) by (intro frac_le) simp_all
    then show ?thesis by (simp add: power_int_minus field_simps)
  qed
  have small: "(2::rat) powi (- 1022) \<le> 2 powi (- 64)" by (rule powi_mono) simp
  have fq: "?a / ?r * (1 - ?u) \<le> fl (?a / ?r)"
    by (rule fl_bounds(2) [OF disjI2 [OF order_trans [OF small q]]])
  have "2 powi (- 64) \<le> fl (?a / ?r)" using q by (intro fl_ge representable_powi) simp_all
  then have t: "2 powi (- 64) \<le> fl (?a / ?r) * 1000000000" using powi_pos [of "- 64"] by linarith
  have ft: "fl (?a / ?r) * 1000000000 * (1 - ?u) \<le> fl (fl (?a / ?r) * 1000000000)"
    by (rule fl_bounds(2) [OF disjI2 [OF order_trans [OF small t]]])
  have "?A * (1 - ?u) / (?R * (1 + ?u)) \<le> ?a / ?r"
    using a r A R u by (intro frac_le) simp_all
  then have "?A * (1 - ?u) / (?R * (1 + ?u)) * (1 - ?u) * 1000000000 * (1 - ?u) \<le>
      ?a / ?r * (1 - ?u) * 1000000000 * (1 - ?u)"
    using u by (intro mult_right_mono) simp_all
  also have "\<dots> \<le> fl (?a / ?r) * 1000000000 * (1 - ?u)" using fq u by (intro mult_right_mono) simp_all
  also note ft
  finally have main: "?A * (1 - ?u) / (?R * (1 + ?u)) * (1 - ?u) * 1000000000 * (1 - ?u) \<le>
      fl (fl (?a / ?r) * 1000000000)" .
  have "(1 - 8 * ?u) * (1 + ?u) \<le> (1 - ?u) * (1 - ?u) * (1 - ?u)" by (simp add: unit_roundoff_def)
  then have "1 - 8 * ?u \<le> (1 - ?u) * (1 - ?u) * (1 - ?u) / (1 + ?u)" using u by (simp add: pos_le_divide_eq)
  then have "?A / ?R * 1000000000 * (1 - 8 * ?u) \<le>
      ?A / ?R * 1000000000 * ((1 - ?u) * (1 - ?u) * (1 - ?u) / (1 + ?u))"
    using A R by (intro mult_left_mono) simp_all
  also have "\<dots> = ?A * (1 - ?u) / (?R * (1 + ?u)) * (1 - ?u) * 1000000000 * (1 - ?u)" by simp
  finally show ?thesis using main by linarith
qed

lemma charge_pays:
  assumes "rate \<noteq> 0" and "charge added rate < el"
  shows "rat_of added \<le> paid rate (rat_of (charge added rate) + 1)"
proof -
  let ?y = "fl (fl (fl (rat_of added) / fl (rat_of rate)) * 1000000000)"
  let ?u = unit_roundoff
  have y: "0 \<le> ?y" by (intro fl_nonneg mult_nonneg_nonneg divide_nonneg_nonneg) (simp_all add: rat_of_bounds)
  have c: "uint (charge added rate) = f64_to_int (2 ^ 64 - 1) (Fin ?y)"
    by (simp only: charge_eq [OF assms(1)] uint_f64_to_u64)
  have "uint (charge added rate) < uint el" using assms(2) by (simp add: word_less_def)
  then have "uint (charge added rate) < 2 ^ 64 - 1" using uint_lt2p [of el] by simp
  with c y have "uint (charge added rate) = \<lfloor>?y\<rfloor>" by (auto simp: min_def max_def split: if_splits)
  then have up: "?y < rat_of (charge added rate) + 1" by (simp add: rat_of_def) linarith
  have R: "0 < rat_of rate" using rat_of_ge_one [of rate] rat_of_zero_iff [of rate] assms(1) by linarith
  have "rat_of added / rat_of rate * 1000000000 * (1 - 8 * ?u) \<le> rat_of (charge added rate) + 1"
    using scaled_quotient_ge [OF assms(1), of added] up by linarith
  then have "rat_of added / rat_of rate * 1000000000 * (1 - 8 * ?u) * slack \<le> (rat_of (charge added rate) + 1) * slack"
    using slack_ge by (intro mult_right_mono) simp_all
  moreover have "1 \<le> (1 - 8 * ?u) * slack" by (simp add: slack_def unit_roundoff_def)
  then have "rat_of added / rat_of rate * 1000000000 * 1 \<le> rat_of added / rat_of rate * 1000000000 * ((1 - 8 * ?u) * slack)"
    using R by (intro mult_left_mono) (simp_all add: rat_of_bounds)
  ultimately have "rat_of added / rat_of rate * 1000000000 \<le> (rat_of (charge added rate) + 1) * slack" by simp
  then show ?thesis using R by (simp add: paid_def field_simps)
qed

lemma rat_of_unat: "rat_of w = of_nat (unat w)"
  by (simp only: rat_of_def uint_nat of_int_of_nat_eq)

lemma rat_of_le: "rat_of v \<le> rat_of w \<longleftrightarrow> v \<le> w"
  by (simp only: rat_of_def of_int_le_iff word_le_def)

lemma to_add_paid: "rat_of (tokens_to_add el rate) \<le> paid rate (rat_of el)"
proof -
  let ?y = "fl (token_quotient el rate)"
  have "token_quotient el rate \<ge> 0"
    unfolding token_quotient_def by (intro mult_nonneg_nonneg fl_nonneg divide_nonneg_nonneg) (simp_all add: rat_of_bounds fl_nonneg)
  then have y: "0 \<le> ?y" by (rule fl_nonneg)
  have "uint (tokens_to_add el rate) = f64_to_int (2 ^ 64 - 1) (Fin ?y)"
    by (simp only: tokens_to_add_eq uint_f64_to_u64)
  then have "uint (tokens_to_add el rate) \<le> \<lfloor>?y\<rfloor>" using y by (auto simp: min_def max_def)
  then have "rat_of (tokens_to_add el rate) \<le> ?y" by (simp add: rat_of_def le_floor_iff)
  also have "?y \<le> rat_of el / 1000000000 * rat_of rate * (1 + 8 * unit_roundoff)"
    by (rule fl_token_quotient_error)
  also have "\<dots> \<le> rat_of el / 1000000000 * rat_of rate * slack"
    by (intro mult_left_mono) (simp_all add: slack_def unit_roundoff_def rat_of_bounds)
  finally show ?thesis by (simp add: paid_def)
qed

text \<open>A refill adds no more tokens than the time it moves the bucket forward pays for.\<close>

lemma refill_ledger:
  fixes b :: token_bucket and now :: u64
  assumes "bucket_ok b"
  defines "b' \<equiv> refill now b"
  shows "rat_of (tokens b') - rat_of (tokens b) \<le>
      paid (refill_rate b) (rat_of (last_refill b') - rat_of (last_refill b) + 1)"
    and "last_refill b' \<le> max (last_refill b) now"
proof -
  let ?el = "sat_sub now (last_refill b)" and ?r = "refill_rate b"
  let ?add = "tokens_to_add ?el ?r"
  have "(rat_of (tokens b') - rat_of (tokens b) \<le>
      paid ?r (rat_of (last_refill b') - rat_of (last_refill b) + 1)) \<and> last_refill b' \<le> max (last_refill b) now"
  proof (cases "?el = 0 \<or> \<not> 0 < ?add")
    case True
    then have "b' = b" by (auto simp: b'_def refill_def Let_def)
    then show ?thesis by (simp add: paid_nonneg)
  next
    case False
    define new where "new = min (sat_add (tokens b) ?add) (capacity b)"
    define added where "added = sat_sub new (tokens b)"
    define step where "step = min (charge added ?r) ?el"
    have b': "tokens b' = new" "last_refill b' = sat_add (last_refill b) step"
      using False by (auto simp: b'_def refill_def Let_def new_def added_def step_def charge_def)
    have rate: "?r \<noteq> 0"
      using False by (auto simp: tokens_to_add_eq token_quotient_def rat_of_def f64_div_zero f64_to_u64_def)
    have new: "unat new = min (unat (tokens b) + unat ?add) (unat (capacity b))"
      using assms(1) unfolding new_def by (intro min_sat_add) (simp add: bucket_ok_def)
    then have ge: "tokens b \<le> new" and le: "unat new \<le> unat (tokens b) + unat ?add"
      using assms(1) by (simp_all add: word_le_nat_alt bucket_ok_def)
    then have added: "unat added = unat new - unat (tokens b)" by (simp add: added_def unat_sat_sub)
    have diff: "rat_of new - rat_of (tokens b) = rat_of added"
      using ge added by (simp add: rat_of_unat word_le_nat_alt of_nat_diff)
    have el: "unat ?el = unat now - unat (last_refill b)" by (simp add: unat_sat_sub)
    have step_le: "unat step \<le> unat ?el" by (simp add: step_def unat_min)
    then have fit: "unat (last_refill b) + unat step \<le> max (unat (last_refill b)) (unat now)" using el by simp
    then have last: "unat (sat_add (last_refill b) step) = unat (last_refill b) + unat step"
      using unat_less_two_power [of "last_refill b"] unat_less_two_power [of now] by (simp add: unat_sat_add)
    have moved: "rat_of (last_refill b') - rat_of (last_refill b) = rat_of step"
      unfolding b'(2) by (simp add: rat_of_unat last)
    have "rat_of added \<le> paid ?r (rat_of step + 1)"
    proof (cases "charge added ?r < ?el")
      case True
      then have "step = charge added ?r" unfolding step_def by (intro min_absorb1) (rule less_imp_le)
      with charge_pays [OF rate True] show ?thesis by simp
    next
      case no: False
      then have step: "step = ?el" unfolding step_def by (intro min_absorb2) simp
      have "added \<le> ?add" using le added by (simp add: word_le_nat_alt)
      then have "rat_of added \<le> rat_of ?add" by (simp only: rat_of_le)
      also have "\<dots> \<le> paid ?r (rat_of ?el)" by (rule to_add_paid)
      also have "\<dots> \<le> paid ?r (rat_of step + 1)" unfolding step by (rule paid_mono) simp
      finally show ?thesis .
    qed
    moreover have "last_refill b' \<le> max (last_refill b) now"
      using fit unfolding b'(2) by (simp add: word_le_nat_alt last unat_max)
    ultimately show ?thesis using diff moved by (simp add: b'(1))
  qed
  then show "rat_of (tokens b') - rat_of (tokens b) \<le>
      paid ?r (rat_of (last_refill b') - rat_of (last_refill b) + 1)"
    and "last_refill b' \<le> max (last_refill b) now" by blast+
qed

section \<open>A run\<close>

text \<open>What an event grants, and the clock readings it makes.\<close>

definition grant :: "rate_limit_type \<Rightarrow> limiter_event \<Rightarrow> rate_limiter \<Rightarrow> nat" where
  "grant t e l =
     (case e of Acquire q a \<Rightarrow> if snd (try_acquire q t a l) = Ret (Ok ()) then unat a else 0 | _ \<Rightarrow> 0)"

fun granted :: "rate_limit_type \<Rightarrow> (rate_limit_type \<times> limiter_event) list \<Rightarrow> rate_limiter \<Rightarrow> nat" where
  "granted t [] l = 0"
| "granted t ((t', e) # es) l =
     (if t' = t then grant t e l else 0) + granted t es (fst (limiter_step t' e l))"

fun readings :: "limiter_event \<Rightarrow> u64 list" where
  "readings (Acquire q a) = [read1 q, read2 q]"
| "readings (Status n1 n2) = [n1, n2]"
| "readings (ResetType now) = [now]"

definition is_reset :: "limiter_event \<Rightarrow> bool" where
  "is_reset e \<longleftrightarrow> (case e of ResetType now \<Rightarrow> True | _ \<Rightarrow> False)"

text \<open>The account of a bucket: the tokens in it, less what the time it was moved forward has paid.\<close>

definition moves :: "nat \<Rightarrow> u64 \<Rightarrow> token_bucket \<Rightarrow> nat \<Rightarrow> token_bucket \<Rightarrow> bool" where
  "moves n now b g b' \<longleftrightarrow>
     bucket_ok b' \<and> refill_rate b' = refill_rate b \<and> last_refill b' \<le> max (last_refill b) now \<and>
     of_nat g + rat_of (tokens b') - rat_of (tokens b) \<le>
       paid (refill_rate b) (rat_of (last_refill b') - rat_of (last_refill b) + of_nat n)"

lemma moves_refl: "bucket_ok b \<Longrightarrow> moves n now b 0 b"
  by (simp add: moves_def paid_nonneg)

lemma moves_refill: "bucket_ok b \<Longrightarrow> moves 1 now b 0 (refill now b)"
  using refill_ledger [of b now] refill_ok [of b now] by (simp add: moves_def)

lemma moves_trans:
  assumes "moves n now b g b'" and "moves m now b' g' b''"
  shows "moves (n + m) now b (g + g') b''"
proof -
  have "of_nat (g + g') + rat_of (tokens b'') - rat_of (tokens b) =
      (of_nat g + rat_of (tokens b') - rat_of (tokens b)) + (of_nat g' + rat_of (tokens b'') - rat_of (tokens b'))"
    by simp
  also have "\<dots> \<le> paid (refill_rate b) (rat_of (last_refill b') - rat_of (last_refill b) + of_nat n) +
      paid (refill_rate b) (rat_of (last_refill b'') - rat_of (last_refill b') + of_nat m)"
    using assms by (intro add_mono) (simp_all add: moves_def)
  also have "\<dots> = paid (refill_rate b) (rat_of (last_refill b'') - rat_of (last_refill b) + of_nat (n + m))"
    unfolding paid_add [symmetric] by (rule arg_cong [where f = "paid _"]) simp
  finally show ?thesis
    using assms by (auto simp: moves_def le_max_iff_disj intro: order_trans)
qed

lemma moves_later: "moves n now b g b' \<Longrightarrow> now \<le> now' \<Longrightarrow> moves n now' b g b'"
  by (auto simp: moves_def le_max_iff_disj)

lemma moves_more: "moves n now b g b' \<Longrightarrow> n \<le> m \<Longrightarrow> moves m now b g b'"
  unfolding moves_def
  using paid_mono [of "rat_of (last_refill b') - rat_of (last_refill b) + of_nat n"
      "rat_of (last_refill b') - rat_of (last_refill b) + of_nat m" "refill_rate b"]
  by (auto intro: order_trans)

lemma moves_take:
  assumes "moves n now b g b'" and "a \<le> tokens b'"
  shows "moves n now b (g + unat a) (b'\<lparr>tokens := tokens b' - a\<rparr>)"
proof -
  have "rat_of (tokens b' - a) = rat_of (tokens b') - of_nat (unat a)"
    using assms(2) unfolding rat_of_unat by (subst unat_sub) (simp_all add: of_nat_diff word_le_nat_alt)
  with assms show ?thesis by (simp add: moves_def consume_ok)
qed

lemma refill_twice: "bucket_ok b \<Longrightarrow> n1 \<le> now \<Longrightarrow> n2 \<le> now \<Longrightarrow> moves 2 now b 0 (refill n2 (refill n1 b))"
  using moves_trans [OF moves_later [OF moves_refill [of b n1]] moves_later [OF moves_refill [of "refill n1 b" n2]], of now]
  by (simp add: refill_ok numeral_2_eq_2)

lemma step_moves:
  assumes "bucket_view t l = Some b" and "bucket_ok b" and "\<not> is_reset e" and "\<forall>r \<in> set (readings e). r \<le> now"
  shows "\<exists>b'. bucket_view t (fst (limiter_step t e l)) = Some b' \<and> moves 2 now b (grant t e l) b'"
proof (cases e)
  case (Acquire q a)
  have get: "hm_get (buckets l) t = Some b" using assms(1) by (simp add: bucket_view_def)
  have r: "read1 q \<le> now" "read2 q \<le> now" using assms(4) Acquire by simp_all
  show ?thesis
  proof (cases "a = 0")
    case True
    with Acquire assms(1,2) show ?thesis by (simp add: try_acquire_def grant_def moves_refl)
  next
    case False
    let ?b1 = "refill (read1 q) b"
    have "moves 2 now b (unat a) (?b1\<lparr>tokens := tokens ?b1 - a\<rparr>)" if "a \<le> tokens ?b1"
      using moves_take [OF moves_more [OF moves_later [OF moves_refill [OF assms(2)] r(1)]] that, of 2] by simp
    moreover have "moves 2 now b 0 (refill (read2 q) ?b1)" using assms(2) r by (rule refill_twice)
    ultimately show ?thesis
      unfolding Acquire using try_acquire_bucket [OF get False, of q]
      by (auto simp: grant_def Let_def bind_outcome_Ret_iff case_prod_beta)
  qed
next
  case (Status n1 n2)
  have "moves 2 now b 0 (refill n2 (refill n1 b))"
    using assms(2,4) Status by (intro refill_twice) simp_all
  with Status assms(1) time_until_full_state [of n2 "refill n1 b"] show ?thesis
    by (cases "time_until_full n2 (refill n1 b)")
      (simp add: limiter_status_def available_def Let_def grant_def bucket_view_def set_bucket_def hm.lookup_insert)
next
  case (ResetType n)
  with assms(3) show ?thesis by (simp add: is_reset_def)
qed

lemma run_moves:
  assumes "limiter_ok l" and "bucket_view t l = Some b"
    and "\<forall>(t', e) \<in> set es. \<not> is_reset e \<and> (\<forall>r \<in> set (readings e). r \<le> now)"
  shows "\<exists>b'. bucket_view t (fold (\<lambda>(t, e) l. fst (limiter_step t e l)) es l) = Some b' \<and>
    moves (2 * length es) now b (granted t es l) b'"
  using assms
proof (induction es arbitrary: l b)
  case Nil
  then have "bucket_ok b" by (auto simp: limiter_ok_def bucket_view_def dest: spec [of _ t])
  with Nil show ?case by (simp add: moves_refl)
next
  case (Cons x es)
  obtain t' e where x: "x = (t', e)" by (cases x)
  let ?l = "fst (limiter_step t' e l)"
  have ok: "limiter_ok ?l" using limiter_ok_step [OF Cons.prems(1)] .
  have rest: "\<forall>(t', e) \<in> set es. \<not> is_reset e \<and> (\<forall>r \<in> set (readings e). r \<le> now)" using Cons.prems(3) by simp
  have b: "bucket_ok b"
    using Cons.prems(1,2) by (auto simp: limiter_ok_def bucket_view_def dest: spec [of _ t])
  have "\<exists>b1. bucket_view t ?l = Some b1 \<and> moves 2 now b (if t' = t then grant t e l else 0) b1"
  proof (cases "t' = t")
    case True
    with step_moves [OF Cons.prems(2) b, of e now] Cons.prems(3) x show ?thesis by simp
  next
    case False
    with limiter_step_other [of t t' e l] Cons.prems(2) moves_refl [OF b] show ?thesis by simp
  qed
  then obtain b1 where b1: "bucket_view t ?l = Some b1" "moves 2 now b (if t' = t then grant t e l else 0) b1" by blast
  from Cons.IH [OF ok b1(1) rest] moves_trans [OF b1(2)] show ?case by (auto simp: x)
qed

text \<open>C10: The long-run rate: whatever acquisitions and status queries are made, at whatever times, on
  whatever types, and with whatever clock, even one that runs backwards, a limiter that is not
  reset grants in total no more than the capacity of the bucket and what its rate yields from
  its creation to the latest reading of the clock, up to two nanoseconds per call and the
  rounding of the double arithmetic.\<close>

theorem long_run_rate:
  assumes "\<forall>(t', e) \<in> set es. \<not> is_reset e \<and> (\<forall>r \<in> set (readings e). r \<le> now)" and "clock t \<le> now"
  shows "of_nat (granted t es (rate_limiter_new clock c)) \<le>
    rat_of (bucket_capacity c t) +
    (rat_of now - rat_of (clock t) + of_nat (2 * length es)) * (rat_of (get_limit c t) / 1000000000) *
      (1 + 16 * unit_roundoff)"
proof -
  let ?l = "rate_limiter_new clock c"
  let ?b = "token_bucket_new (clock t) (bucket_capacity c t) (get_limit c t)"
  have "bucket_view t ?l = Some ?b"
    by (cases t) (simp_all add: bucket_view_def rate_limiter_new_def rate_limit_types_all_def hm.lookup_insert)
  from run_moves [OF limiter_ok_new this assms(1)] obtain b' where "moves (2 * length es) now ?b (granted t es ?l) b'"
    by blast
  then have main: "of_nat (granted t es ?l) + rat_of (tokens b') - rat_of (bucket_capacity c t) \<le>
      paid (get_limit c t) (rat_of (last_refill b') - rat_of (clock t) + of_nat (2 * length es))"
    and "last_refill b' \<le> max (clock t) now"
    by (simp_all add: moves_def token_bucket_new_def)
  then have "rat_of (last_refill b') \<le> rat_of now" using assms(2) by (simp add: rat_of_le max_def)
  then have "paid (get_limit c t) (rat_of (last_refill b') - rat_of (clock t) + of_nat (2 * length es)) \<le>
      paid (get_limit c t) (rat_of now - rat_of (clock t) + of_nat (2 * length es))"
    by (intro paid_mono) simp
  with main rat_of_bounds(1) [of "tokens b'"] show ?thesis by (simp add: paid_def slack_def)
qed

theorem long_run_rate_witness:
  "of_nat (granted RL_Message
     [(RL_Message, Acquire \<lparr>spurious = 0, read1 = 5, read2 = 6\<rparr> 60), (RL_Byte, Status 7 8),
      (RL_Message, Acquire \<lparr>spurious = 1, read1 = 8, read2 = 9\<rparr> 60)]
     (rate_limiter_new (\<lambda>_. 0) rate_limit_config_default)) \<le> (101 :: rat)"
proof -
  let ?es = "[(RL_Message, Acquire \<lparr>spurious = 0, read1 = 5, read2 = 6\<rparr> 60), (RL_Byte, Status 7 8),
      (RL_Message, Acquire \<lparr>spurious = 1, read1 = 8, read2 = 9\<rparr> 60)]"
  have "\<forall>(t', e) \<in> set ?es. \<not> is_reset e \<and> (\<forall>r \<in> set (readings e). r \<le> 9)" by (simp add: is_reset_def)
  from long_run_rate [OF this, of "\<lambda>_. 0" RL_Message rate_limit_config_default]
  show ?thesis
    by (simp add: rate_limit_config_default_def bucket_capacity_def get_limit_def rat_of_def unit_roundoff_def)
qed

end
