(* ===== verification/UnitTest.thy ===== *)
theory UnitTest
  imports Errors
begin

text \<open>
  The crate's own unit tests as definitions: a test runs the model, an assertion that fails or an
  \<^verbatim>\<open>unwrap\<close> of an error panics, and a test marked \<^verbatim>\<open>should_panic\<close> passes when it does.
\<close>

type_synonym test = "unit outcome"

definition all_of :: "bool list \<Rightarrow> test" where
  "all_of bs = (if list_all (\<lambda>b. b) bs then Ret () else Panic)"

definition unwrap :: "'a result \<Rightarrow> 'a outcome" where
  "unwrap r = (case r of Inl e \<Rightarrow> Panic | Inr x \<Rightarrow> Ret x)"

definition unwrap_some :: "'a option \<Rightarrow> 'a outcome" where
  "unwrap_some r = (case r of None \<Rightarrow> Panic | Some x \<Rightarrow> Ret x)"

definition is_ok :: "'a result \<Rightarrow> bool" where
  "is_ok r = (case r of Inl e \<Rightarrow> False | Inr x \<Rightarrow> True)"

definition is_err :: "'a result \<Rightarrow> bool" where
  "is_err r \<longleftrightarrow> \<not> is_ok r"

definition passes :: "test \<Rightarrow> bool" where
  "passes t \<longleftrightarrow> (case t of Ret u \<Rightarrow> True | Panic \<Rightarrow> False)"

definition panics :: "'a outcome \<Rightarrow> bool" where
  "panics t \<longleftrightarrow> (case t of Ret u \<Rightarrow> False | Panic \<Rightarrow> True)"

section \<open>Tests of a state\<close>

text \<open>
  A test on a mutable value is an operation on it: calls, and assertions on the state between
  them. \<open>run_test\<close> starts it and forgets the state, \<open>call_unwrap\<close> is a call whose error panics.
\<close>

definition assert_that :: "('s \<Rightarrow> bool) \<Rightarrow> ('s, unit) op" where
  "assert_that P s = (s, if P s then Ret () else Panic)"

definition call_unwrap :: "('s \<Rightarrow> 's \<times> 'a result) \<Rightarrow> ('s, 'a) op" where
  "call_unwrap f s = (case f s of (s', r) \<Rightarrow> (s', unwrap r))"

definition call_with :: "('s \<Rightarrow> 's \<times> 'a) \<Rightarrow> ('a \<Rightarrow> bool) \<Rightarrow> ('s, unit) op" where
  "call_with f P s = (case f s of (s', r) \<Rightarrow> (s', if P r then Ret () else Panic))"

text \<open>The same for a call that can panic.\<close>

definition unwrapping :: "('s, 'a result) op \<Rightarrow> ('s, 'a) op" where
  "unwrapping f = op_then f (\<lambda>r s. (s, unwrap r))"

definition asserting :: "('s, 'a) op \<Rightarrow> ('a \<Rightarrow> bool) \<Rightarrow> ('s, unit) op" where
  "asserting f P = op_then f (\<lambda>r s. (s, if P r then Ret () else Panic))"

definition ignored :: "('s, 'a) op \<Rightarrow> ('s, unit) op" where
  "ignored f = op_then f (\<lambda>_. op_return ())"

definition steps :: "('s, unit) op list \<Rightarrow> ('s, unit) op" where
  "steps fs = foldr (\<lambda>f g. op_then f (\<lambda>_. g)) fs (op_return ())"

primrec repeat_op :: "nat \<Rightarrow> ('s, unit) op \<Rightarrow> ('s, unit) op" where
  "repeat_op 0 f = op_return ()"
| "repeat_op (Suc n) f = op_then f (\<lambda>_. repeat_op n f)"

definition run_test :: "'s \<Rightarrow> ('s, unit) op \<Rightarrow> test" where
  "run_test s f = snd (f s)"

lemma repeat_op_numeral: "repeat_op (numeral k) f = op_then f (\<lambda>_. repeat_op (pred_numeral k) f)"
  by (simp add: numeral_eq_Suc)

text \<open>A byte string literal.\<close>

definition ascii :: "string \<Rightarrow> bytes" where
  "ascii s = utf8_encode (lit s)"

lemma utf8_decode_ascii:
  "utf8_decode [] = Some []"
  "unat b < 128 \<Longrightarrow> utf8_decode (b # bs) = map_option ((#) (unat b)) (utf8_decode bs)"
  by (simp_all add: Let_def utf8_decode.simps)

lemma utf8_decode_ascii_bytes: "list_all (\<lambda>b. unat b < 128) bs \<Longrightarrow> utf8_decode bs = Some (map unat bs)"
  by (induction bs) (simp_all add: utf8_decode_ascii)

lemma utf8_encode_ascii: "list_all (\<lambda>c. c < 128) s \<Longrightarrow> utf8_encode s = map of_nat s"
  by (induction s) (simp_all add: utf8_encode_def utf8_char_def)

lemma str_ok_ascii: "list_all (\<lambda>c. c < 128) s \<Longrightarrow> str_ok s"
  by (auto simp: str_ok_def is_scalar_def list_all_iff)

lemmas unit_test_eval =
  all_of_def unwrap_def unwrap_some_def is_ok_def is_err_def passes_def panics_def lit_def
  assert_that_def call_unwrap_def call_with_def ignored_def steps_def run_test_def repeat_op_numeral
  unwrapping_def asserting_def op_then_def op_return_def op_update_def op_add_def add_ck_def ascii_def utf8_encode_def utf8_char_def utf8_decode_ascii

end
