(* ===== verification/Tests_Errors.thy ===== *)
theory Tests_Errors
  imports Errors UnitTest
begin

text \<open>The unit tests of \<^verbatim>\<open>src/src/error.rs\<close>, run on the model. \<open>io\<close> is the text of the
  \<^verbatim>\<open>io::Error\<close> a test makes, \<open>um\<close> and \<open>dd\<close> the rendering by the standard library.\<close>

lemmas error_eval =
  unit_test_eval connection_failed_def error_display_def is_retryable_def invalid_frame_def should_reconnect_error_def
  handshake_failed_def invalid_url_def authentication_failed_def

section \<open>Errors\<close>

definition test_error_display :: "(bytes \<Rightarrow> rstr) \<Rightarrow> (duration \<Rightarrow> rstr) \<Rightarrow> rstr \<Rightarrow> test" where
  "test_error_display um dd io =
     all_of
      [str_contains (error_display um dd (connection_failed (lit ''test''))) (lit ''Connection failed''),
       str_contains (error_display um dd (Io io)) (lit ''I/O error'')]"

definition test_is_retryable :: "rstr \<Rightarrow> test" where
  "test_is_retryable io =
     all_of [is_retryable (Io io), \<not> is_retryable (invalid_frame (lit ''test''))]"

definition test_should_reconnect :: test where
  "test_should_reconnect =
     all_of [should_reconnect_error ConnectionClosed,
      \<not> should_reconnect_error (InvalidFrame (lit ''test''))]"

definition test_error_convenience_methods :: test where
  "test_error_convenience_methods =
     all_of
      [case handshake_failed (lit ''invalid key'') of HandshakeFailed _ \<Rightarrow> True | _ \<Rightarrow> False,
       case invalid_url (lit ''missing scheme'') of InvalidUrl _ \<Rightarrow> True | _ \<Rightarrow> False,
       case authentication_failed (lit ''invalid token'') of AuthenticationFailed _ \<Rightarrow> True | _ \<Rightarrow> False]"

lemma error_tests:
  "passes (test_error_display um dd io)"
  "passes (test_is_retryable io)"
  "passes test_should_reconnect"
  "passes test_error_convenience_methods"
  by (simp_all add: test_error_display_def test_is_retryable_def test_should_reconnect_def
    test_error_convenience_methods_def error_eval)

end
