(* ===== verification/Tests_Messages.thy ===== *)
theory Tests_Messages
  imports Messages UnitTest
begin

text \<open>The unit tests of \<^verbatim>\<open>src/src/message.rs\<close>, run on the model, but for the one of the JSON
  conversions, which exercises the library \<^verbatim>\<open>serde_json\<close>.\<close>

lemmas message_eval =
  unit_test_eval message_text_def message_binary_def message_ping_def message_pong_def message_close_def
  message_from_str_def is_text_def is_binary_def is_ping_def is_pong_def is_close_def message_len_def as_bytes_def
  as_text_def Let_def frame_new_def is_final_def frame_opcode_def frame_len_def with_compression_def
  is_compressed_def

section \<open>Messages\<close>

definition test_message_text :: test where
  "test_message_text =
     (let msg = message_text (lit ''Hello'') in
     all_of [is_text msg, as_text msg = Ok (lit ''Hello''), message_len msg = 5])"

definition test_message_binary :: test where
  "test_message_binary =
     (let data = [1, 2, 3, 4]; msg = message_binary data in
     all_of [is_binary msg, as_bytes msg = data])"

definition test_message_ping :: test where
  "test_message_ping =
     (let msg = message_ping (ascii ''ping'') in all_of [is_ping msg, as_bytes msg = (ascii ''ping'')])"

definition test_message_pong :: test where
  "test_message_pong =
     (let msg = message_pong (ascii ''pong'') in all_of [is_pong msg, as_bytes msg = (ascii ''pong'')])"

definition test_message_close :: test where
  "test_message_close =
     (let msg = message_close (Some 1000) (Some (lit ''Normal closure'')) in
     all_of [is_close msg, 2 < length (payload msg)])"

definition test_message_from_string :: test where
  "test_message_from_string =
     (let msg = message_from_str (lit ''Hello'') in
     all_of [is_text msg, as_text msg = Ok (lit ''Hello'')])"

lemma message_tests:
  "passes test_message_text"
  "passes test_message_binary"
  "passes test_message_ping"
  "passes test_message_pong"
  "passes test_message_close"
  "passes test_message_from_string"
  by (simp_all add: test_message_text_def test_message_binary_def test_message_ping_def
    test_message_pong_def test_message_close_def test_message_from_string_def message_eval)

section \<open>Frames\<close>

definition test_frame_creation :: test where
  "test_frame_creation =
     (let frame = frame_new True 0x01 [] in
     all_of [is_final frame, frame_opcode frame = 0x01, frame_len frame = 0])"

definition test_frame_compression :: test where
  "test_frame_compression =
     (let frame = with_compression True (frame_new True 0x01 []);
        frame_uncompressed = with_compression False (frame_new True 0x01 []) in
     all_of [is_compressed frame, rsv1 frame, \<not> is_compressed frame_uncompressed])"

lemma frame_tests:
  "passes test_frame_creation"
  "passes test_frame_compression"
  by (simp_all add: test_frame_creation_def test_frame_compression_def message_eval)

end
