(* ===== verification/Tests_Fragmentation.thy ===== *)
theory Tests_Fragmentation
  imports Fragmentation UnitTest
begin

text \<open>The unit tests of \<^verbatim>\<open>src/src/fragmentation.rs\<close>, run on the model. \<open>t\<close> is the instant at which a
  test runs; a test that sleeps goes on at a later one. Left out is the test of a message of one
  megabyte, whose general form is the round trip proved for every message.\<close>

text \<open>\<^verbatim>\<open>"A".repeat(n)\<close>.\<close>

definition repeated :: "nat \<Rightarrow> nat \<Rightarrow> rstr" where
  "repeated n c = replicate n c"

text \<open>\<^verbatim>\<open>reassembler.ingest_frame(&frame, id).unwrap()\<close>, and the loop that feeds frames and keeps
  the message that came out.\<close>

definition ingesting :: "instant \<Rightarrow> frame \<Rightarrow> connection_id \<Rightarrow> (reassembler, message option) op" where
  "ingesting t f k = call_unwrap (ingest_frame t f k)"

fun feed :: "instant \<Rightarrow> connection_id \<Rightarrow> frame list \<Rightarrow> message option \<Rightarrow> (reassembler, message option) op" where
  "feed t k [] acc = op_return acc"
| "feed t k (f # fs) acc =
     op_then (ingesting t f k) (\<lambda>r. feed t k fs (case r of None \<Rightarrow> acc | Some m \<Rightarrow> Some m))"

lemma utf8_encode_replicate: "c < 128 \<Longrightarrow> utf8_encode (replicate n c) = replicate n (of_nat c)"
  by (simp add: utf8_encode_ascii list_all_iff map_replicate)

lemma utf8_decode_halves:
  "unat b < 128 \<Longrightarrow> utf8_decode (replicate m b @ replicate n b) = Some (replicate (m + n) (unat b))"
  by (subst utf8_decode_ascii_bytes) (auto simp: list_all_iff replicate_add)

lemmas text_eval =
  all_of_def unwrap_def unwrap_some_def is_ok_def is_err_def passes_def panics_def
  assert_that_def call_unwrap_def call_with_def ignored_def steps_def run_test_def
  op_then_def op_return_def op_update_def

lemmas fragmenter_eval =
  text_eval fragmenter_new_def fragmenter_default_def fragmenter_max_frame_size_def DEFAULT_MAX_FRAME_SIZE_def
  message_text_def message_binary_def split_message_def Let_def message_opcode_def first_fragment_opcode_def
  OPCODE_CONTINUATION_def OPCODE_TEXT_def OPCODE_BINARY_def OPCODE_CLOSE_def OPCODE_PING_def OPCODE_PONG_def
  frame_new_def calculate_frame_count_def needs_fragmentation_def message_len_def div_ceil_def chunks_step
  utf8_encode_replicate repeated_def

lemmas reassembler_eval =
  fragmenter_eval reassembler_new_def reassembler_default_def DEFAULT_REASSEMBLY_TIMEOUT_def reassembler_timeout_def
  is_control_frame_def frame_to_message_def cleanup_expired_def ingest_locked_def ingest_frame_def abort_def
  in_progress_count_def in_progress_size_def cleanup_all_expired_def partial_new_def add_fragment_def is_expired_def
  assemble_def partial_total_size_def unknown_opcode_def ingesting_def elapsed_def try_then_def
  hm_get_def hm_insert_def hm_remove_def hm_len_def hm_empty_def hm_retain_def hm_values_def
  is_text_def is_binary_def is_ping_def is_pong_def is_close_def as_text_def as_bytes_def utf8_decode_halves

section \<open>Fragmenter\<close>

definition test_fragmenter_creation :: test where
  "test_fragmenter_creation =
     bind_outcome (fragmenter_new 1024) (\<lambda>f.
     all_of [fragmenter_max_frame_size f = 1024])"

definition test_fragmenter_default :: test where
  "test_fragmenter_default =
     bind_outcome fragmenter_default (\<lambda>f.
     all_of [fragmenter_max_frame_size f = DEFAULT_MAX_FRAME_SIZE])"

definition test_fragmenter_too_small :: test where
  "test_fragmenter_too_small =
     bind_outcome (fragmenter_new 100) (\<lambda>_. Ret ())"

definition test_fragmenter_small_message :: test where
  "test_fragmenter_small_message =
     bind_outcome (fragmenter_new 1024) (\<lambda>f.
     let frames = split_message f (message_text (lit ''Hello, World!'')) in
     all_of [length frames = 1, fin (frames ! 0), opcode (frames ! 0) = OPCODE_TEXT,
       frame_payload (frames ! 0) = (ascii ''Hello, World!'')])"

definition test_fragmentation_empty_message :: test where
  "test_fragmentation_empty_message =
     bind_outcome (fragmenter_new 200) (\<lambda>f.
     let frames = split_message f (message_text []) in
     all_of [length frames = 1, fin (frames ! 0), length (frame_payload (frames ! 0)) = 0])"

definition test_fragmentation_single_byte :: test where
  "test_fragmentation_single_byte =
     bind_outcome (fragmenter_new 200) (\<lambda>f.
     let frames = split_message f (message_text (lit ''A'')) in
     all_of [length frames = 1, fin (frames ! 0), length (frame_payload (frames ! 0)) = 1])"

lemma fragmenter_tests:
  "passes test_fragmenter_creation"
  "passes test_fragmenter_default"
  "panics test_fragmenter_too_small"
  "passes test_fragmenter_small_message"
  "passes test_fragmentation_empty_message"
  "passes test_fragmentation_single_byte"
  by (simp_all add: test_fragmenter_creation_def test_fragmenter_default_def
    test_fragmenter_too_small_def test_fragmenter_small_message_def
    test_fragmentation_empty_message_def test_fragmentation_single_byte_def
    fragmenter_eval lit_def utf8_encode_def utf8_char_def ascii_def)

section \<open>Long messages\<close>

definition test_fragmenter_large_text_message :: test where
  "test_fragmenter_large_text_message =
     bind_outcome (fragmenter_new 200) (\<lambda>f.
     let frames = split_message f (message_text (repeated 500 65)) in
     all_of [1 < length frames, opcode (frames ! 0) = OPCODE_TEXT, \<not> fin (frames ! 0),
       list_all (\<lambda>frame. opcode frame = OPCODE_CONTINUATION \<and> \<not> fin frame) (tl (butlast frames)),
       fin (last frames)])"

definition test_fragmenter_large_binary_message :: test where
  "test_fragmenter_large_binary_message =
     bind_outcome (fragmenter_new 200) (\<lambda>f.
     let frames = split_message f (message_binary (replicate 500 0)) in
     all_of [1 < length frames, opcode (frames ! 0) = OPCODE_BINARY, \<not> fin (frames ! 0),
       list_all (\<lambda>frame. opcode frame = OPCODE_CONTINUATION \<and> \<not> fin frame) (tl (butlast frames)),
       fin (last frames)])"

definition test_fragmenter_exactly_max_size :: test where
  "test_fragmenter_exactly_max_size =
     bind_outcome (fragmenter_new 200) (\<lambda>f.
     let frames = split_message f (message_text (repeated 200 65)) in
     all_of [length frames = 1, fin (frames ! 0)])"

definition test_fragmenter_one_byte_over_max :: test where
  "test_fragmenter_one_byte_over_max =
     bind_outcome (fragmenter_new 200) (\<lambda>f.
     let frames = split_message f (message_text (repeated 201 65)) in
     all_of [length frames = 2, length (frame_payload (frames ! 0)) = 200, length (frame_payload (frames ! 1)) = 1])"

definition test_fragmenter_calculate_frame_count :: test where
  "test_fragmenter_calculate_frame_count =
     bind_outcome (fragmenter_new 200) (\<lambda>f.
     all_of [calculate_frame_count f 50 = 1, calculate_frame_count f 200 = 1,
       calculate_frame_count f 201 = 2, calculate_frame_count f 1000 = 5, calculate_frame_count f 2000 = 10])"

definition test_fragmenter_needs_fragmentation :: test where
  "test_fragmenter_needs_fragmentation =
     bind_outcome (fragmenter_new 200) (\<lambda>f.
     all_of [\<not> needs_fragmentation f (message_text (lit ''small'')),
       needs_fragmentation f (message_text (repeated 300 65))])"

lemma fragmenter_needs_test: "passes test_fragmenter_needs_fragmentation"
  by (simp add: test_fragmenter_needs_fragmentation_def fragmenter_eval)
    (simp add: lit_def utf8_encode_def utf8_char_def)

lemma fragmenter_long_tests:
  "passes test_fragmenter_large_text_message"
  "passes test_fragmenter_large_binary_message"
  "passes test_fragmenter_exactly_max_size"
  "passes test_fragmenter_one_byte_over_max"
  "passes test_fragmenter_calculate_frame_count"
  by (simp_all add: test_fragmenter_large_text_message_def
    test_fragmenter_large_binary_message_def test_fragmenter_exactly_max_size_def
    test_fragmenter_one_byte_over_max_def test_fragmenter_calculate_frame_count_def
    fragmenter_eval)

section \<open>Reassembler\<close>

definition test_reassembler_creation :: test where
  "test_reassembler_creation =
     all_of [reassembler_timeout (reassembler_new (secs 10)) = secs 10]"

definition test_reassembler_default :: test where
  "test_reassembler_default =
     all_of [reassembler_timeout reassembler_default = DEFAULT_REASSEMBLY_TIMEOUT]"

definition test_reassembler_unfragmented_message :: "instant \<Rightarrow> test" where
  "test_reassembler_unfragmented_message t =
     run_test reassembler_default (
     op_then (ingesting t (frame_new True OPCODE_TEXT (ascii ''Hello'')) 1) (\<lambda>r. \<lambda>s.
     (s, bind_outcome (unwrap_some r) (\<lambda>message.
      all_of [is_text message, as_text message = Ok (lit ''Hello'')]))))"

definition test_reassembler_continuation_without_start :: "instant \<Rightarrow> test" where
  "test_reassembler_continuation_without_start t =
     run_test reassembler_default (
     call_with (ingest_frame t (frame_new True OPCODE_CONTINUATION []) 1) (\<lambda>result.
       case result of Inl (ProtocolViolation _) \<Rightarrow> True | _ \<Rightarrow> False))"

definition test_reassembler_overlapping_fragments :: "instant \<Rightarrow> test" where
  "test_reassembler_overlapping_fragments t =
     run_test reassembler_default (steps [
     call_with (ingest_frame t (frame_new False OPCODE_TEXT (ascii ''First'')) 1) (\<lambda>result1. result1 = Ok None),
     call_with (ingest_frame t (frame_new False OPCODE_TEXT (ascii ''Second'')) 1) is_err])"

definition test_reassembler_control_frames :: "instant \<Rightarrow> test" where
  "test_reassembler_control_frames t =
     run_test reassembler_default (steps [
     call_with (ingest_frame t (frame_new True OPCODE_PING (ascii ''ping'')) 1)
       (\<lambda>result. case result of Inr (Some m) \<Rightarrow> is_ping m | _ \<Rightarrow> False),
     call_with (ingest_frame t (frame_new True OPCODE_PONG (ascii ''pong'')) 1)
       (\<lambda>result. case result of Inr (Some m) \<Rightarrow> is_pong m | _ \<Rightarrow> False),
     call_with (ingest_frame t (frame_new True OPCODE_CLOSE []) 1)
       (\<lambda>result. case result of Inr (Some m) \<Rightarrow> is_close m | _ \<Rightarrow> False)])"

definition test_unknown_opcode :: "instant \<Rightarrow> test" where
  "test_unknown_opcode t =
     run_test reassembler_default (
     call_with (ingest_frame t (frame_new True 0x7 []) 1) is_err)"

lemma reassembler_tests:
  "passes test_reassembler_creation"
  "passes test_reassembler_default"
  "passes (test_reassembler_unfragmented_message t)"
  "passes (test_reassembler_continuation_without_start t)"
  "passes (test_reassembler_overlapping_fragments t)"
  "passes (test_reassembler_control_frames t)"
  "passes (test_unknown_opcode t)"
  by (simp_all add: test_reassembler_creation_def test_reassembler_default_def
    test_reassembler_unfragmented_message_def test_reassembler_continuation_without_start_def
    test_reassembler_overlapping_fragments_def test_reassembler_control_frames_def
    test_unknown_opcode_def
    reassembler_eval ascii_def utf8_encode_def utf8_char_def lit_def utf8_decode_ascii)

section \<open>Messages in progress\<close>

definition test_reassembler_in_progress_count :: "instant \<Rightarrow> test" where
  "test_reassembler_in_progress_count t =
     run_test reassembler_default (steps [
     assert_that (\<lambda>r. in_progress_count r = 0),
     ignored (ingesting t (frame_new False OPCODE_TEXT (ascii ''Start'')) 1),
     assert_that (\<lambda>r. in_progress_count r = 1),
     ignored (ingesting t (frame_new False OPCODE_TEXT (ascii ''Start2'')) 2),
     assert_that (\<lambda>r. in_progress_count r = 2),
     ignored (ingesting t (frame_new True OPCODE_CONTINUATION []) 1),
     assert_that (\<lambda>r. in_progress_count r = 1)])"

definition test_reassembler_abort :: "instant \<Rightarrow> test" where
  "test_reassembler_abort t =
     run_test reassembler_default (steps [
     ignored (ingesting t (frame_new False OPCODE_TEXT (ascii ''Start'')) 1),
     assert_that (\<lambda>r. in_progress_count r = 1),
     call_with (abort 1) (\<lambda>aborted. aborted),
     assert_that (\<lambda>r. in_progress_count r = 0),
     call_with (abort 1) (\<lambda>aborted. \<not> aborted)])"

definition test_reassembler_timeout :: "instant \<Rightarrow> test" where
  "test_reassembler_timeout t =
     run_test (reassembler_new (millis 100)) (steps [
     ignored (ingesting t (frame_new False OPCODE_TEXT (ascii ''Start'')) 1),
     assert_that (\<lambda>r. in_progress_count r = 1),
     call_with (ingest_frame (t + millis 150) (frame_new True OPCODE_CONTINUATION []) 1) is_err])"

definition test_reassembler_cleanup_expired :: "instant \<Rightarrow> test" where
  "test_reassembler_cleanup_expired t =
     run_test (reassembler_new (millis 100)) (steps [
     ignored (ingesting t (frame_new False OPCODE_TEXT (ascii ''Start'')) 1),
     assert_that (\<lambda>r. in_progress_count r = 1),
     op_update (cleanup_all_expired (t + millis 150)),
     assert_that (\<lambda>r. in_progress_count r = 0)])"

definition test_reassembler_in_progress_size :: "instant \<Rightarrow> test" where
  "test_reassembler_in_progress_size t =
     run_test reassembler_default (steps [
     ignored (ingesting t (frame_new False OPCODE_TEXT (ascii ''12345'')) 1),
     ignored (ingesting t (frame_new False OPCODE_TEXT (ascii ''67890'')) 2),
     assert_that (\<lambda>r. in_progress_size r = 10)])"

definition test_partial_message_assemble :: "instant \<Rightarrow> test" where
  "test_partial_message_assemble t =
     (let partial = partial_new t OPCODE_TEXT (ascii ''Hello'');
        partial = add_fragment (ascii '', '') partial;
        partial = add_fragment (ascii ''World'') partial;
        message = assemble partial in
     all_of [is_text message, as_text message = Ok (lit ''Hello, World'')])"

definition test_partial_message_is_expired :: "instant \<Rightarrow> test" where
  "test_partial_message_is_expired t =
     (let partial = partial_new t OPCODE_TEXT (ascii ''Test'') in
     all_of [\<not> is_expired t (secs 1) partial, is_expired (t + millis 100) (millis 50) partial])"

definition test_partial_message_total_size :: "instant \<Rightarrow> test" where
  "test_partial_message_total_size t =
     run_test (partial_new t OPCODE_TEXT (ascii ''Hello'')) (steps [
     assert_that (\<lambda>p. partial_total_size p = 5),
     op_update (add_fragment (ascii ''World'')),
     assert_that (\<lambda>p. partial_total_size p = 10)])"

lemma in_progress_tests:
  "passes (test_reassembler_in_progress_count t)"
  "passes (test_reassembler_abort t)"
  "passes (test_reassembler_timeout t)"
  "passes (test_reassembler_cleanup_expired t)"
  "passes (test_reassembler_in_progress_size t)"
  "passes (test_partial_message_assemble t)"
  "passes (test_partial_message_is_expired t)"
  "passes (test_partial_message_total_size t)"
  by (simp_all add: test_reassembler_in_progress_count_def test_reassembler_abort_def
    test_reassembler_timeout_def test_reassembler_cleanup_expired_def
    test_reassembler_in_progress_size_def test_partial_message_assemble_def
    test_partial_message_is_expired_def test_partial_message_total_size_def
    reassembler_eval ascii_def utf8_encode_def utf8_char_def lit_def utf8_decode_ascii)

section \<open>Splitting and reassembling\<close>

definition test_reassembler_fragmented_message :: "instant \<Rightarrow> test" where
  "test_reassembler_fragmented_message t =
     bind_outcome (fragmenter_new 150) (\<lambda>f.
     let message = message_text (repeated 300 65); frames = split_message f message in
     run_test reassembler_default (op_then (feed t 1 frames None) (\<lambda>complete_message. \<lambda>s.
     (s, bind_outcome (unwrap_some complete_message) (\<lambda>reassembled.
      all_of [is_text reassembled, message_len reassembled = 300, as_text reassembled = Ok (repeated 300 65)])))))"

text \<open>The loop over the two lists of frames, with the messages that came out and their connections.\<close>

fun feed_two ::
  "instant \<Rightarrow> (frame \<times> frame) list \<Rightarrow> (connection_id \<times> message) list \<Rightarrow>
     (reassembler, (connection_id \<times> message) list) op"
where
  "feed_two t [] results = op_return results"
| "feed_two t ((f1, f2) # fs) results =
     op_then (ingesting t f1 1) (\<lambda>r1.
     op_then (ingesting t f2 2) (\<lambda>r2.
     feed_two t fs
       (results @ (case r1 of None \<Rightarrow> [] | Some m \<Rightarrow> [(1, m)]) @ (case r2 of None \<Rightarrow> [] | Some m \<Rightarrow> [(2, m)]))))"

definition test_reassembler_multiple_connections :: "instant \<Rightarrow> test" where
  "test_reassembler_multiple_connections t =
     bind_outcome (fragmenter_new 150) (\<lambda>f.
     let frames1 = split_message f (message_text (repeated 300 65));
         frames2 = split_message f (message_text (repeated 300 66)) in
     run_test reassembler_default (op_then (feed_two t (zip frames1 frames2) []) (\<lambda>results. \<lambda>s.
     (s, all_of [length results = 2, fst (results ! 0) = 1, fst (results ! 1) = 2]))))"

definition test_fragmentation_roundtrip_binary :: "instant \<Rightarrow> test" where
  "test_fragmentation_roundtrip_binary t =
     bind_outcome (fragmenter_new 200) (\<lambda>f.
     let original_data = map (\<lambda>i. of_nat (i mod 255)) [0..<500];
         frames = split_message f (message_binary original_data) in
     run_test reassembler_default (op_then (feed t 1 frames None) (\<lambda>reassembled. \<lambda>s.
     (s, bind_outcome (unwrap_some reassembled) (\<lambda>result.
      all_of [is_binary result, as_bytes result = original_data])))))"

definition test_fragmentation_roundtrip_text :: "instant \<Rightarrow> test" where
  "test_fragmentation_roundtrip_text t =
     bind_outcome (fragmenter_new 200) (\<lambda>f.
     let original_text = concat (replicate 50 (lit ''Hello, World! ''));
         frames = split_message f (message_text original_text) in
     run_test reassembler_default (op_then (feed t 1 frames None) (\<lambda>reassembled. \<lambda>s.
     (s, bind_outcome (unwrap_some reassembled) (\<lambda>result.
      all_of [is_text result, as_text result = Ok original_text])))))"

text \<open>The last two, for any data of their length.\<close>

lemma chunks_500:
  assumes "length xs = 500"
  shows "chunks 200 xs = [take 200 xs, take 200 (drop 200 xs), drop 400 xs]"
    "take 200 xs @ take 200 (drop 200 xs) @ drop 400 xs = xs"
proof -
  have "xs \<noteq> []" using assms by auto
  with assms show chunks: "chunks 200 xs = [take 200 xs, take 200 (drop 200 xs), drop 400 xs]"
    by (simp add: chunks_step)
  show "take 200 xs @ take 200 (drop 200 xs) @ drop 400 xs = xs"
    using concat_chunks [of 200 xs] by (simp add: chunks)
qed

lemma chunks_700:
  assumes "length xs = 700"
  shows "chunks 200 xs = [take 200 xs, take 200 (drop 200 xs), take 200 (drop 400 xs), drop 600 xs]"
    "take 200 xs @ take 200 (drop 200 xs) @ take 200 (drop 400 xs) @ drop 600 xs = xs"
proof -
  have "xs \<noteq> []" using assms by auto
  with assms show chunks:
    "chunks 200 xs = [take 200 xs, take 200 (drop 200 xs), take 200 (drop 400 xs), drop 600 xs]"
    by (simp add: chunks_step)
  show "take 200 xs @ take 200 (drop 200 xs) @ take 200 (drop 400 xs) @ drop 600 xs = xs"
    using concat_chunks [of 200 xs] by (simp add: chunks)
qed

lemma roundtrip_tests:
  "passes (test_fragmentation_roundtrip_binary t)"
  "passes (test_fragmentation_roundtrip_text t)"
proof -
  have bin: "length (map (\<lambda>i. of_nat (i mod 255)) [0..<500] :: bytes) = 500" by simp
  show "passes (test_fragmentation_roundtrip_binary t)"
    using chunks_500 [OF bin]
    by (simp add: test_fragmentation_roundtrip_binary_def reassembler_eval del: upt_rec_numeral)
  let ?s = "concat (replicate 50 (lit ''Hello, World! ''))"
  have ascii: "list_all (\<lambda>c. c < 128) ?s"
    by (simp add: list_all_iff lit_def)
  then have len: "length (utf8_encode ?s) = 700"
    by (simp add: utf8_encode_ascii length_concat lit_def sum_list_replicate)
  show "passes (test_fragmentation_roundtrip_text t)"
    using chunks_700 [OF len] utf8_roundtrip [OF str_ok_ascii [OF ascii]] len
    unfolding test_fragmentation_roundtrip_text_def
    by (simp only: Let_def, simp add: reassembler_eval)
qed

lemma fragment_and_reassemble_tests:
  "passes (test_reassembler_fragmented_message t)"
  "passes (test_reassembler_multiple_connections t)"
  by (simp_all add: test_reassembler_fragmented_message_def
    test_reassembler_multiple_connections_def reassembler_eval)

end
