(* ===== verification/Tests_Subprotocol.thy ===== *)
theory Tests_Subprotocol
  imports Subprotocol UnitTest
begin

text \<open>The unit tests of \<^verbatim>\<open>src/src/subprotocol.rs\<close>, run on the model, whatever the table of
  alphanumeric characters beyond ASCII says: the names in the tests are ASCII.\<close>

section \<open>The client's list\<close>

text \<open>A chain of \<^verbatim>\<open>.with_protocol(p).unwrap()\<close>.\<close>

definition offering :: "(nat \<Rightarrow> bool) \<Rightarrow> rstr list \<Rightarrow> subprotocol_list outcome" where
  "offering ua ps =
     foldl (\<lambda>l p. bind_outcome l (\<lambda>l. unwrap (with_protocol ua p l))) (Ret subprotocol_list_new) ps"

definition serving :: "(nat \<Rightarrow> bool) \<Rightarrow> rstr list \<Rightarrow> subprotocol_negotiator outcome" where
  "serving ua ps =
     foldl (\<lambda>n p. bind_outcome n (\<lambda>n. unwrap (negotiator_with_protocol ua p n))) (Ret negotiator_new) ps"

lemmas subprotocol_eval =
  unit_test_eval offering_def serving_def subprotocol_list_new_def with_protocol_def validate_protocol_def try_then_def
  protocol_char_def is_alphanumeric_def ascii_alnum_def subprotocol_list_from_slice_def list_is_empty_def list_len_def
  list_contains_def to_header_value_def parse_response_def list_protocols_def list_display_def negotiator_new_def
  negotiator_with_protocol_def negotiator_from_slice_def with_wildcard_def negotiator_is_empty_def
  negotiator_len_def supports_def negotiate_def should_reject_def parse_header_def negotiator_protocols_def trim_def
  is_whitespace_def

definition test_subprotocol_list_new :: test where
  "test_subprotocol_list_new =
     all_of [list_is_empty subprotocol_list_new, list_len subprotocol_list_new = 0]"

definition test_subprotocol_list_with_protocol :: "(nat \<Rightarrow> bool) \<Rightarrow> test" where
  "test_subprotocol_list_with_protocol ua =
     bind_outcome (offering ua [lit ''chat-v2'', lit ''mqtt'']) (\<lambda>l.
     all_of [list_len l = 2, list_protocols l = [lit ''chat-v2'', lit ''mqtt'']])"

definition test_subprotocol_list_from_slice :: "(nat \<Rightarrow> bool) \<Rightarrow> test" where
  "test_subprotocol_list_from_slice ua =
     bind_outcome (unwrap (subprotocol_list_from_slice ua [lit ''chat-v2'', lit ''mqtt'', lit ''graphql''])) (\<lambda>l.
     all_of [list_len l = 3, list_protocols l = [lit ''chat-v2'', lit ''mqtt'', lit ''graphql'']])"

definition test_subprotocol_list_contains :: "(nat \<Rightarrow> bool) \<Rightarrow> test" where
  "test_subprotocol_list_contains ua =
     bind_outcome (offering ua [lit ''chat-v2'', lit ''mqtt'']) (\<lambda>l.
     all_of [list_contains l (lit ''chat-v2''), list_contains l (lit ''mqtt''), \<not> list_contains l (lit ''graphql'')])"

definition test_subprotocol_list_to_header_value :: "(nat \<Rightarrow> bool) \<Rightarrow> test" where
  "test_subprotocol_list_to_header_value ua =
     bind_outcome (offering ua [lit ''chat-v2'', lit ''mqtt'', lit ''graphql'']) (\<lambda>l.
     all_of [to_header_value l = (lit ''chat-v2, mqtt, graphql'')])"

definition test_subprotocol_list_to_header_value_empty :: test where
  "test_subprotocol_list_to_header_value_empty =
     all_of [to_header_value subprotocol_list_new = []]"

definition test_subprotocol_list_parse_response_success :: "(nat \<Rightarrow> bool) \<Rightarrow> test" where
  "test_subprotocol_list_parse_response_success ua =
     bind_outcome (offering ua [lit ''chat-v2'', lit ''mqtt'']) (\<lambda>l.
     all_of [parse_response l (Some (lit ''chat-v2'')) = Ok (Some (lit ''chat-v2''))])"

definition test_subprotocol_list_parse_response_none :: "(nat \<Rightarrow> bool) \<Rightarrow> test" where
  "test_subprotocol_list_parse_response_none ua =
     bind_outcome (offering ua [lit ''chat-v2'']) (\<lambda>l.
     all_of [parse_response l None = Ok None])"

definition test_subprotocol_list_parse_response_invalid :: "(nat \<Rightarrow> bool) \<Rightarrow> test" where
  "test_subprotocol_list_parse_response_invalid ua =
     bind_outcome (offering ua [lit ''chat-v2'']) (\<lambda>l.
     all_of [is_err (parse_response l (Some (lit ''graphql'')))])"

definition test_subprotocol_list_validate_valid :: "(nat \<Rightarrow> bool) \<Rightarrow> test" where
  "test_subprotocol_list_validate_valid ua =
     all_of [is_ok (validate_protocol ua (lit ''chat'')), is_ok (validate_protocol ua (lit ''chat-v2'')),
      is_ok (validate_protocol ua (lit ''chat_v2'')), is_ok (validate_protocol ua (lit ''MQTT'')),
      is_ok (validate_protocol ua (lit ''graphql-ws''))]"

definition test_subprotocol_list_validate_empty :: "(nat \<Rightarrow> bool) \<Rightarrow> test" where
  "test_subprotocol_list_validate_empty ua =
     all_of [is_err (validate_protocol ua [])]"

definition test_subprotocol_list_validate_invalid_chars :: "(nat \<Rightarrow> bool) \<Rightarrow> test" where
  "test_subprotocol_list_validate_invalid_chars ua =
     all_of [is_err (validate_protocol ua (lit ''chat.v2'')), is_err (validate_protocol ua (lit ''chat/v2'')),
      is_err (validate_protocol ua (lit ''chat v2'')), is_err (validate_protocol ua (lit ''chat@v2''))]"

definition test_subprotocol_list_display :: "(nat \<Rightarrow> bool) \<Rightarrow> test" where
  "test_subprotocol_list_display ua =
     bind_outcome (offering ua [lit ''chat-v2'', lit ''mqtt'']) (\<lambda>l.
     all_of [list_display l = (lit ''chat-v2, mqtt'')])"

definition test_subprotocol_list_case_sensitive :: "(nat \<Rightarrow> bool) \<Rightarrow> test" where
  "test_subprotocol_list_case_sensitive ua =
     bind_outcome (offering ua [lit ''MQTT'']) (\<lambda>l.
     all_of [list_contains l (lit ''MQTT''), \<not> list_contains l (lit ''mqtt''), \<not> list_contains l (lit ''Mqtt'')])"

lemma subprotocol_list_tests_1:
  "passes test_subprotocol_list_new"
  "passes (test_subprotocol_list_with_protocol ua)"
  "passes (test_subprotocol_list_from_slice ua)"
  "passes (test_subprotocol_list_contains ua)"
  "passes (test_subprotocol_list_to_header_value ua)"
  "passes test_subprotocol_list_to_header_value_empty"
  "passes (test_subprotocol_list_parse_response_success ua)"
  "passes (test_subprotocol_list_parse_response_none ua)"
  by (simp_all add: test_subprotocol_list_new_def test_subprotocol_list_with_protocol_def
    test_subprotocol_list_from_slice_def test_subprotocol_list_contains_def
    test_subprotocol_list_to_header_value_def test_subprotocol_list_to_header_value_empty_def
    test_subprotocol_list_parse_response_success_def test_subprotocol_list_parse_response_none_def
    subprotocol_eval)

lemma subprotocol_list_tests_2:
  "passes (test_subprotocol_list_parse_response_invalid ua)"
  "passes (test_subprotocol_list_validate_valid ua)"
  "passes (test_subprotocol_list_validate_empty ua)"
  "passes (test_subprotocol_list_validate_invalid_chars ua)"
  "passes (test_subprotocol_list_display ua)"
  "passes (test_subprotocol_list_case_sensitive ua)"
  by (simp_all add: test_subprotocol_list_parse_response_invalid_def
    test_subprotocol_list_validate_valid_def test_subprotocol_list_validate_empty_def
    test_subprotocol_list_validate_invalid_chars_def test_subprotocol_list_display_def
    test_subprotocol_list_case_sensitive_def subprotocol_eval)

section \<open>The negotiator of the server\<close>

definition test_negotiator_new :: test where
  "test_negotiator_new =
     all_of [negotiator_is_empty negotiator_new, negotiator_len negotiator_new = 0]"

definition test_negotiator_from_slice :: "(nat \<Rightarrow> bool) \<Rightarrow> test" where
  "test_negotiator_from_slice ua =
     bind_outcome (unwrap (negotiator_from_slice ua [lit ''mqtt'', lit ''chat-v2''])) (\<lambda>n.
     all_of [negotiator_len n = 2, negotiator_protocols n = [lit ''mqtt'', lit ''chat-v2'']])"

definition test_negotiator_with_protocol :: "(nat \<Rightarrow> bool) \<Rightarrow> test" where
  "test_negotiator_with_protocol ua =
     bind_outcome (serving ua [lit ''mqtt'', lit ''chat-v2'']) (\<lambda>n.
     all_of [negotiator_len n = 2])"

definition test_negotiator_supports :: "(nat \<Rightarrow> bool) \<Rightarrow> test" where
  "test_negotiator_supports ua =
     bind_outcome (serving ua [lit ''mqtt'']) (\<lambda>n.
     all_of [supports n (lit ''mqtt''), \<not> supports n (lit ''graphql'')])"

definition test_negotiate_first_match :: "(nat \<Rightarrow> bool) \<Rightarrow> test" where
  "test_negotiate_first_match ua =
     bind_outcome (serving ua [lit ''mqtt'', lit ''chat-v2'', lit ''chat-v1'']) (\<lambda>n.
     bind_outcome (offering ua [lit ''chat-v2'', lit ''graphql'', lit ''mqtt'']) (\<lambda>l.
     all_of [negotiate n l = Some (lit ''chat-v2'')]))"

definition test_negotiate_second_match :: "(nat \<Rightarrow> bool) \<Rightarrow> test" where
  "test_negotiate_second_match ua =
     bind_outcome (serving ua [lit ''mqtt'', lit ''chat-v1'']) (\<lambda>n.
     bind_outcome (offering ua [lit ''graphql'', lit ''mqtt'', lit ''chat-v1'']) (\<lambda>l.
     all_of [negotiate n l = Some (lit ''mqtt'')]))"

definition test_negotiate_no_match :: "(nat \<Rightarrow> bool) \<Rightarrow> test" where
  "test_negotiate_no_match ua =
     bind_outcome (serving ua [lit ''mqtt'']) (\<lambda>n.
     bind_outcome (offering ua [lit ''graphql'', lit ''chat-v2'']) (\<lambda>l.
     all_of [negotiate n l = None]))"

definition test_negotiate_client_empty :: "(nat \<Rightarrow> bool) \<Rightarrow> test" where
  "test_negotiate_client_empty ua =
     bind_outcome (serving ua [lit ''mqtt'']) (\<lambda>n.
     all_of [negotiate n subprotocol_list_new = None])"

definition test_negotiate_server_empty :: "(nat \<Rightarrow> bool) \<Rightarrow> test" where
  "test_negotiate_server_empty ua =
     bind_outcome (offering ua [lit ''mqtt'']) (\<lambda>l.
     all_of [negotiate negotiator_new l = None])"

definition test_negotiate_wildcard :: "(nat \<Rightarrow> bool) \<Rightarrow> test" where
  "test_negotiate_wildcard ua =
     bind_outcome (offering ua [lit ''any-protocol'', lit ''another-protocol'']) (\<lambda>l.
     all_of [negotiate (with_wildcard True negotiator_new) l = Some (lit ''any-protocol'')])"

definition test_negotiate_wildcard_disabled :: "(nat \<Rightarrow> bool) \<Rightarrow> test" where
  "test_negotiate_wildcard_disabled ua =
     bind_outcome (offering ua [lit ''any-protocol'']) (\<lambda>l.
     all_of [negotiate (with_wildcard False negotiator_new) l = None])"

definition test_should_reject_true :: "(nat \<Rightarrow> bool) \<Rightarrow> test" where
  "test_should_reject_true ua =
     bind_outcome (serving ua [lit ''mqtt'']) (\<lambda>n.
     bind_outcome (offering ua [lit ''graphql'']) (\<lambda>l.
     all_of [should_reject n l]))"

definition test_should_reject_false_match :: "(nat \<Rightarrow> bool) \<Rightarrow> test" where
  "test_should_reject_false_match ua =
     bind_outcome (serving ua [lit ''mqtt'']) (\<lambda>n.
     bind_outcome (offering ua [lit ''mqtt'']) (\<lambda>l.
     all_of [\<not> should_reject n l]))"

definition test_should_reject_false_empty :: "(nat \<Rightarrow> bool) \<Rightarrow> test" where
  "test_should_reject_false_empty ua =
     bind_outcome (serving ua [lit ''mqtt'']) (\<lambda>n.
     all_of [\<not> should_reject n subprotocol_list_new])"

lemma negotiator_tests_1:
  "passes test_negotiator_new"
  "passes (test_negotiator_from_slice ua)"
  "passes (test_negotiator_with_protocol ua)"
  "passes (test_negotiator_supports ua)"
  "passes (test_negotiate_first_match ua)"
  "passes (test_negotiate_second_match ua)"
  "passes (test_negotiate_no_match ua)"
  "passes (test_negotiate_client_empty ua)"
  by (simp_all add: test_negotiator_new_def test_negotiator_from_slice_def
    test_negotiator_with_protocol_def test_negotiator_supports_def test_negotiate_first_match_def
    test_negotiate_second_match_def test_negotiate_no_match_def test_negotiate_client_empty_def
    subprotocol_eval)

lemma negotiator_tests_2:
  "passes (test_negotiate_server_empty ua)"
  "passes (test_negotiate_wildcard ua)"
  "passes (test_negotiate_wildcard_disabled ua)"
  "passes (test_should_reject_true ua)"
  "passes (test_should_reject_false_match ua)"
  "passes (test_should_reject_false_empty ua)"
  by (simp_all add: test_negotiate_server_empty_def test_negotiate_wildcard_def
    test_negotiate_wildcard_disabled_def test_should_reject_true_def
    test_should_reject_false_match_def test_should_reject_false_empty_def subprotocol_eval)

section \<open>The header\<close>

definition test_parse_header :: "(nat \<Rightarrow> bool) \<Rightarrow> test" where
  "test_parse_header ua =
     (let l = parse_header ua (lit ''chat-v2, mqtt, graphql'') in
     all_of [list_len l = 3, list_protocols l = [lit ''chat-v2'', lit ''mqtt'', lit ''graphql'']])"

definition test_parse_header_with_spaces :: "(nat \<Rightarrow> bool) \<Rightarrow> test" where
  "test_parse_header_with_spaces ua =
     (let l = parse_header ua (lit ''chat-v2 ,  mqtt  ,   graphql'') in
     all_of [list_len l = 3, list_protocols l = [lit ''chat-v2'', lit ''mqtt'', lit ''graphql'']])"

definition test_parse_header_empty :: "(nat \<Rightarrow> bool) \<Rightarrow> test" where
  "test_parse_header_empty ua =
     all_of [list_is_empty (parse_header ua [])]"

definition test_parse_header_invalid_protocols :: "(nat \<Rightarrow> bool) \<Rightarrow> test" where
  "test_parse_header_invalid_protocols ua =
     (let l = parse_header ua (lit ''valid-v1, invalid.v2, valid-v3'') in
     all_of [list_len l = 2, list_protocols l = [lit ''valid-v1'', lit ''valid-v3'']])"

lemma parse_header_tests:
  "passes (test_parse_header ua)"
  "passes (test_parse_header_with_spaces ua)"
  "passes (test_parse_header_empty ua)"
  "passes (test_parse_header_invalid_protocols ua)"
  by (simp_all add: test_parse_header_def test_parse_header_with_spaces_def
    test_parse_header_empty_def test_parse_header_invalid_protocols_def subprotocol_eval)

section \<open>Whole negotiations\<close>

definition test_full_negotiation_flow :: "(nat \<Rightarrow> bool) \<Rightarrow> test" where
  "test_full_negotiation_flow ua =
     bind_outcome (serving ua [lit ''mqtt'', lit ''chat-v2'', lit ''chat-v1'']) (\<lambda>server.
     bind_outcome (offering ua [lit ''chat-v2'', lit ''graphql'', lit ''mqtt'']) (\<lambda>client.
     let selected = negotiate server client in
     bind_outcome (unwrap (parse_response client selected)) (\<lambda>validated.
     all_of [selected = Some (lit ''chat-v2''), to_header_value client = (lit ''chat-v2, graphql, mqtt''),
       validated = Some (lit ''chat-v2'')])))"

definition test_no_subprotocol_negotiation :: test where
  "test_no_subprotocol_negotiation =
     (let selected = negotiate negotiator_new subprotocol_list_new in
     bind_outcome (unwrap (parse_response subprotocol_list_new None)) (\<lambda>validated.
     all_of [selected = None, validated = None]))"

definition test_priority_order_matters :: "(nat \<Rightarrow> bool) \<Rightarrow> test" where
  "test_priority_order_matters ua =
     bind_outcome (serving ua [lit ''chat-v1'', lit ''chat-v2'', lit ''chat-v3'']) (\<lambda>server.
     bind_outcome (offering ua [lit ''chat-v3'', lit ''chat-v2'', lit ''chat-v1'']) (\<lambda>client1.
     bind_outcome (offering ua [lit ''chat-v1'', lit ''chat-v2'', lit ''chat-v3'']) (\<lambda>client2.
     all_of [negotiate server client1 = Some (lit ''chat-v3''), negotiate server client2 = Some (lit ''chat-v1'')])))"

definition test_duplicate_protocols :: "(nat \<Rightarrow> bool) \<Rightarrow> test" where
  "test_duplicate_protocols ua =
     bind_outcome (offering ua [lit ''chat-v2'', lit ''mqtt'', lit ''chat-v2'']) (\<lambda>client.
     all_of [list_len client = 3, to_header_value client = (lit ''chat-v2, mqtt, chat-v2'')])"

definition test_common_protocols :: "(nat \<Rightarrow> bool) \<Rightarrow> test" where
  "test_common_protocols ua =
     bind_outcome (offering ua [lit ''mqtt'']) (\<lambda>mqtt.
     bind_outcome (offering ua [lit ''graphql'', lit ''graphql-transport-ws'']) (\<lambda>graphql.
     bind_outcome (offering ua [lit ''chat-v1'', lit ''chat-v2'']) (\<lambda>chat.
     all_of [list_contains mqtt (lit ''mqtt''), list_contains graphql (lit ''graphql''), list_contains chat (lit ''chat-v2'')])))"

lemma negotiation_tests:
  "passes (test_full_negotiation_flow ua)"
  "passes test_no_subprotocol_negotiation"
  "passes (test_priority_order_matters ua)"
  "passes (test_duplicate_protocols ua)"
  "passes (test_common_protocols ua)"
  by (simp_all add: test_full_negotiation_flow_def test_no_subprotocol_negotiation_def
    test_priority_order_matters_def test_duplicate_protocols_def test_common_protocols_def
    subprotocol_eval)

end
