(* ===== verification/Tests_Headers.thy ===== *)
theory Tests_Headers
  imports Headers UnitTest
begin

text \<open>The unit tests of \<^verbatim>\<open>src/src/headers.rs\<close>, run on the model, for every table of Unicode: the
  tests use ASCII only. The tests of the conversions are in \<open>Tests_Http\<close>.\<close>

lemmas header_eval =
  unit_test_eval header_name_new_def header_name_char_def is_alphanumeric_def ascii_alnum_def is_ascii_control_def
  header_value_new_def trim_def is_whitespace_def utf8_encode_def utf8_char_def try_then_def
  header_name_from_def header_value_from_def

section \<open>Names and values\<close>

definition test_header_name_valid :: "(nat \<Rightarrow> bool) \<Rightarrow> test" where
  "test_header_name_valid ua =
     all_of [is_ok (header_name_new ua (lit ''Authorization'')), is_ok (header_name_new ua (lit ''X-Custom-Header'')),
      is_ok (header_name_new ua (lit ''Content-Type'')), is_ok (header_name_new ua (lit ''accept-encoding''))]"

definition test_header_name_invalid :: "(nat \<Rightarrow> bool) \<Rightarrow> test" where
  "test_header_name_invalid ua =
     all_of [is_err (header_name_new ua []), is_err (header_name_new ua (lit ''Invalid:Name'')),
      is_err (header_name_new ua (lit ''Invalid Name'')), is_err (header_name_new ua ((lit ''Invalid'') @ [10] @ (lit ''Name'')))]"

definition test_header_name_from_str :: "(nat \<Rightarrow> bool) \<Rightarrow> test" where
  "test_header_name_from_str ua =
     bind_outcome (header_name_from ua (lit ''Authorization'')) (\<lambda>name.
     all_of [name = (lit ''Authorization'')])"

definition test_header_value_valid :: test where
  "test_header_value_valid =
     all_of [is_ok (header_value_new (lit ''Bearer token123'')), is_ok (header_value_new (lit ''application/json'')),
      is_ok (header_value_new (lit ''text/plain; charset=utf-8''))]"

definition test_header_value_whitespace_trimmed :: test where
  "test_header_value_whitespace_trimmed =
     bind_outcome (unwrap (header_value_new (lit ''  trimmed  ''))) (\<lambda>value.
     all_of [value = (lit ''trimmed'')])"

definition test_header_value_invalid :: test where
  "test_header_value_invalid =
     all_of [is_err (header_value_new ((lit ''invalid'') @ [0] @ (lit ''value''))),
      is_err (header_value_new ((lit ''invalid'') @ [10] @ (lit ''value''))), is_err (header_value_new ((lit ''invalid'') @ [13] @ (lit ''value'')))]"

definition test_header_value_from_str :: test where
  "test_header_value_from_str =
     bind_outcome (header_value_from (lit ''Bearer token123'')) (\<lambda>value.
     all_of [value = (lit ''Bearer token123'')])"

definition test_special_header_names :: "(nat \<Rightarrow> bool) \<Rightarrow> test" where
  "test_special_header_names ua =
     all_of [is_ok (header_name_new ua (lit ''X-Custom!Header'')), is_ok (header_name_new ua (lit ''X-Test-123''))]"

definition test_header_value_with_spaces :: test where
  "test_header_value_with_spaces =
     bind_outcome (unwrap (header_value_new (lit ''Bearer token123 with spaces''))) (\<lambda>value.
     all_of [value = (lit ''Bearer token123 with spaces'')])"

definition test_header_value_with_special_chars :: test where
  "test_header_value_with_special_chars =
     all_of [is_ok (header_value_new (lit ''text/plain; charset=utf-8'')), is_ok (header_value_new (lit ''application/json, text/html'')),
      is_ok (header_value_new (lit ''Bearer token123+abc''))]"

lemma header_name_value_tests_1:
  "passes (test_header_name_valid ua)"
  "passes (test_header_name_invalid ua)"
  "passes (test_header_name_from_str ua)"
  "passes test_header_value_valid"
  "passes test_header_value_whitespace_trimmed"
  "passes test_header_value_invalid"
  "passes test_header_value_from_str"
  "passes (test_special_header_names ua)"
  by (simp_all add: test_header_name_valid_def test_header_name_invalid_def
    test_header_name_from_str_def test_header_value_valid_def
    test_header_value_whitespace_trimmed_def test_header_value_invalid_def
    test_header_value_from_str_def test_special_header_names_def header_eval)

lemma header_name_value_tests_2:
  "passes test_header_value_with_spaces"
  "passes test_header_value_with_special_chars"
  by (simp_all add: test_header_value_with_spaces_def test_header_value_with_special_chars_def
    header_eval)

section \<open>The map\<close>

text \<open>\<^verbatim>\<open>insert\<close> and \<^verbatim>\<open>append\<close> followed by \<^verbatim>\<open>unwrap\<close>.\<close>

definition unwrapped :: "header_map \<times> unit result \<Rightarrow> header_map outcome" where
  "unwrapped mr = bind_outcome (unwrap (snd mr)) (\<lambda>_. Ret (fst mr))"

definition inserting :: "unicode \<Rightarrow> rstr \<Rightarrow> rstr \<Rightarrow> header_map \<Rightarrow> header_map outcome" where
  "inserting u k v m = unwrapped (insert_header u k v m)"

definition appending :: "unicode \<Rightarrow> rstr \<Rightarrow> rstr \<Rightarrow> header_map \<Rightarrow> header_map outcome" where
  "appending u k v m = unwrapped (append_header u k v m)"

lemmas header_map_eval =
  header_eval unwrapped_def inserting_def appending_def header_map_new_def insert_header_def append_header_def entry_append_def
  get_header_def get_all_def first_def remove_header_def contains_header_def header_map_is_empty_def header_map_len_def
  clear_headers_def iter_headers_def iter_all_def extend_headers_def from_iter_str_def to_lowercase_def ascii_lower_def
  hm_get_def hm_insert_def hm_remove_def hm_len_def hm_empty_def

definition test_header_map_new :: test where
  "test_header_map_new =
     all_of [header_map_is_empty header_map_new, header_map_len header_map_new = 0]"

definition test_header_map_insert :: "unicode \<Rightarrow> test" where
  "test_header_map_insert u =
     bind_outcome (inserting u (lit ''Authorization'') (lit ''Bearer token123'') header_map_new) (\<lambda>hm.
     all_of [get_header u (lit ''Authorization'') hm = Some (lit ''Bearer token123''),
       get_header u (lit ''authorization'') hm = Some (lit ''Bearer token123''), header_map_len hm = 1])"

definition test_header_map_append :: "unicode \<Rightarrow> test" where
  "test_header_map_append u =
     bind_outcome (inserting u (lit ''Set-Cookie'') (lit ''cookie1=value1'') header_map_new) (\<lambda>hm.
     bind_outcome (appending u (lit ''Set-Cookie'') (lit ''cookie2=value2'') hm) (\<lambda>hm.
     all_of [get_all u (lit ''Set-Cookie'') hm = [lit ''cookie1=value1'', lit ''cookie2=value2'']]))"

definition test_header_map_replace :: "unicode \<Rightarrow> test" where
  "test_header_map_replace u =
     bind_outcome (inserting u (lit ''Authorization'') (lit ''Bearer token1'') header_map_new) (\<lambda>hm.
     bind_outcome (inserting u (lit ''Authorization'') (lit ''Bearer token2'') hm) (\<lambda>hm.
     all_of [get_header u (lit ''Authorization'') hm = Some (lit ''Bearer token2''), length (get_all u (lit ''Authorization'') hm) = 1]))"

definition test_header_map_get_missing :: "unicode \<Rightarrow> test" where
  "test_header_map_get_missing u =
     all_of [get_header u (lit ''Missing'') header_map_new = None, length (get_all u (lit ''Missing'') header_map_new) = 0]"

definition test_header_map_remove :: "unicode \<Rightarrow> test" where
  "test_header_map_remove u =
     bind_outcome (inserting u (lit ''Authorization'') (lit ''Bearer token123'') header_map_new) (\<lambda>hm.
     case remove_header u (lit ''Authorization'') hm of (hm, value) =>
     all_of [value = Some (lit ''Bearer token123''), \<not> contains_header u (lit ''Authorization'') hm])"

definition test_header_map_contains :: "unicode \<Rightarrow> test" where
  "test_header_map_contains u =
     bind_outcome (inserting u (lit ''Authorization'') (lit ''Bearer token123'') header_map_new) (\<lambda>hm.
     all_of [contains_header u (lit ''Authorization'') hm, contains_header u (lit ''authorization'') hm,
       \<not> contains_header u (lit ''Missing'') hm])"

definition test_header_map_clear :: "unicode \<Rightarrow> test" where
  "test_header_map_clear u =
     bind_outcome (inserting u (lit ''Authorization'') (lit ''Bearer token123'') header_map_new) (\<lambda>hm.
     bind_outcome (inserting u (lit ''User-Agent'') (lit ''Test'') hm) (\<lambda>hm.
     all_of [header_map_is_empty (clear_headers hm), header_map_len (clear_headers hm) = 0]))"

definition test_header_map_iter :: "unicode \<Rightarrow> test" where
  "test_header_map_iter u =
     bind_outcome (inserting u (lit ''Authorization'') (lit ''Bearer token123'') header_map_new) (\<lambda>hm.
     bind_outcome (inserting u (lit ''User-Agent'') (lit ''Test'') hm) (\<lambda>hm.
     all_of [length (iter_headers hm) = 2]))"

definition test_header_map_iter_all :: "unicode \<Rightarrow> test" where
  "test_header_map_iter_all u =
     bind_outcome (inserting u (lit ''Set-Cookie'') (lit ''cookie1=value1'') header_map_new) (\<lambda>hm.
     bind_outcome (appending u (lit ''Set-Cookie'') (lit ''cookie2=value2'') hm) (\<lambda>hm.
     all_of [length (iter_all hm) = 1, length (snd (iter_all hm ! 0)) = 2]))"

definition test_header_map_extend :: "unicode \<Rightarrow> test" where
  "test_header_map_extend u =
     bind_outcome (inserting u (lit ''Authorization'') (lit ''Bearer token1'') header_map_new) (\<lambda>hm1.
     bind_outcome (inserting u (lit ''User-Agent'') (lit ''Test'') header_map_new) (\<lambda>hm2.
     let hm1 = extend_headers hm2 hm1 in
     all_of [header_map_len hm1 = 2, contains_header u (lit ''Authorization'') hm1, contains_header u (lit ''User-Agent'') hm1]))"

definition test_header_map_from_iter :: "unicode \<Rightarrow> test" where
  "test_header_map_from_iter u =
     (let hm = from_iter_str u [(lit ''Authorization'', lit ''Bearer token123''), (lit ''User-Agent'', lit ''Test'')] in
     all_of [header_map_len hm = 2, get_header u (lit ''Authorization'') hm = Some (lit ''Bearer token123''),
       get_header u (lit ''User-Agent'') hm = Some (lit ''Test'')])"

definition test_empty_header_value :: "unicode \<Rightarrow> test" where
  "test_empty_header_value u =
     (case insert_header u (lit ''X-Empty'') [] header_map_new of (hm, r) =>
     all_of [is_ok r, get_header u (lit ''X-Empty'') hm = Some []])"

definition test_case_insensitive :: "unicode \<Rightarrow> test" where
  "test_case_insensitive u =
     bind_outcome (inserting u (lit ''Authorization'') (lit ''Bearer token123'') header_map_new) (\<lambda>hm.
     all_of [get_header u (lit ''authorization'') hm = Some (lit ''Bearer token123''),
       get_header u (lit ''AUTHORIZATION'') hm = Some (lit ''Bearer token123''),
       get_header u (lit ''AuThOrIzAtIoN'') hm = Some (lit ''Bearer token123'')])"

definition test_http_header_map_invalid_value :: "unicode \<Rightarrow> test" where
  "test_http_header_map_invalid_value u =
     (case insert_header u (lit ''X-Invalid'') ((lit ''invalid'') @ [0] @ (lit ''value'')) header_map_new of (hm, result) =>
     case insert_header u (lit ''X-Valid'') (lit ''valid-value'') hm of (hm, valid_result) =>
     all_of [is_err result, is_ok valid_result])"

lemmas header_accessor_eval =
  header_map_eval get_authorization_def set_authorization_def get_user_agent_def set_user_agent_def get_origin_def
  set_origin_def get_cookie_def set_cookie_def get_all_cookies_def get_host_def set_host_def get_api_key_def
  set_api_key_def

lemma header_map_tests_1:
  "passes test_header_map_new"
  "passes (test_header_map_insert u)"
  "passes (test_header_map_append u)"
  "passes (test_header_map_replace u)"
  "passes (test_header_map_get_missing u)"
  "passes (test_header_map_remove u)"
  "passes (test_header_map_contains u)"
  "passes (test_header_map_clear u)"
  by (simp_all add: test_header_map_new_def test_header_map_insert_def test_header_map_append_def
    test_header_map_replace_def test_header_map_get_missing_def test_header_map_remove_def
    test_header_map_contains_def test_header_map_clear_def header_map_eval)

lemma header_map_tests_2:
  "passes (test_header_map_iter u)"
  "passes (test_header_map_iter_all u)"
  "passes (test_header_map_extend u)"
  "passes (test_header_map_from_iter u)"
  "passes (test_empty_header_value u)"
  "passes (test_case_insensitive u)"
  "passes (test_http_header_map_invalid_value u)"
  by (simp_all add: test_header_map_iter_def test_header_map_iter_all_def
    test_header_map_extend_def test_header_map_from_iter_def test_empty_header_value_def
    test_case_insensitive_def test_http_header_map_invalid_value_def header_map_eval)

section \<open>Accessors\<close>

definition test_authorization_accessor :: "unicode \<Rightarrow> test" where
  "test_authorization_accessor u =
     bind_outcome (all_of [get_authorization u header_map_new = None]) (\<lambda>_.
     bind_outcome (unwrapped (set_authorization u (lit ''Bearer token123'') header_map_new)) (\<lambda>hm.
     all_of [get_authorization u hm = Some (lit ''Bearer token123'')]))"

definition test_user_agent_accessor :: "unicode \<Rightarrow> test" where
  "test_user_agent_accessor u =
     bind_outcome (all_of [get_user_agent u header_map_new = None]) (\<lambda>_.
     bind_outcome (unwrapped (set_user_agent u (lit ''MyClient/1.0'') header_map_new)) (\<lambda>hm.
     all_of [get_user_agent u hm = Some (lit ''MyClient/1.0'')]))"

definition test_origin_accessor :: "unicode \<Rightarrow> test" where
  "test_origin_accessor u =
     bind_outcome (all_of [get_origin u header_map_new = None]) (\<lambda>_.
     bind_outcome (unwrapped (set_origin u (lit ''https://example.com'') header_map_new)) (\<lambda>hm.
     all_of [get_origin u hm = Some (lit ''https://example.com'')]))"

definition test_cookie_accessor :: "unicode \<Rightarrow> test" where
  "test_cookie_accessor u =
     bind_outcome (all_of [get_cookie u header_map_new = None]) (\<lambda>_.
     bind_outcome (unwrapped (set_cookie u (lit ''session=abc123'') header_map_new)) (\<lambda>hm.
     all_of [get_cookie u hm = Some (lit ''session=abc123'')]))"

definition test_host_accessor :: "unicode \<Rightarrow> test" where
  "test_host_accessor u =
     bind_outcome (all_of [get_host u header_map_new = None]) (\<lambda>_.
     bind_outcome (unwrapped (set_host u (lit ''example.com'') header_map_new)) (\<lambda>hm.
     all_of [get_host u hm = Some (lit ''example.com'')]))"

definition test_api_key_accessor :: "unicode \<Rightarrow> test" where
  "test_api_key_accessor u =
     bind_outcome (all_of [get_api_key u header_map_new = None]) (\<lambda>_.
     bind_outcome (unwrapped (set_api_key u (lit ''secret-key-123'') header_map_new)) (\<lambda>hm.
     all_of [get_api_key u hm = Some (lit ''secret-key-123'')]))"

definition test_multiple_cookies :: "unicode \<Rightarrow> test" where
  "test_multiple_cookies u =
     bind_outcome (unwrapped (set_cookie u (lit ''session=abc123'') header_map_new)) (\<lambda>hm.
     bind_outcome (appending u (lit ''Cookie'') (lit ''user=john'') hm) (\<lambda>hm.
     all_of [length (get_all_cookies u hm) = 2]))"

lemma header_accessor_tests:
  "passes (test_authorization_accessor u)"
  "passes (test_user_agent_accessor u)"
  "passes (test_origin_accessor u)"
  "passes (test_cookie_accessor u)"
  "passes (test_host_accessor u)"
  "passes (test_api_key_accessor u)"
  "passes (test_multiple_cookies u)"
  by (simp_all add: test_authorization_accessor_def test_user_agent_accessor_def
    test_origin_accessor_def test_cookie_accessor_def test_host_accessor_def
    test_api_key_accessor_def test_multiple_cookies_def header_accessor_eval)

end
