(* ===== verification/Tests_RateLimit.thy ===== *)
theory Tests_RateLimit
  imports RateLimit UnitTest
begin

text \<open>The unit tests of \<^verbatim>\<open>src/src/ratelimit.rs\<close>, run on the model in double arithmetic. A test that
  does not sleep runs at one instant \<open>now\<close>, without spurious failures of compare-and-swap; the test
  of refilling starts at the instant 0. The tests that spawn threads or wait
  are in \<open>Tests_Waiting\<close>.\<close>

definition clock_at :: "u64 \<Rightarrow> acquire_clock" where
  "clock_at now = \<lparr>spurious = 0, read1 = now, read2 = now\<rparr>"

definition limiter :: "u64 \<Rightarrow> rate_limit_config \<Rightarrow> rate_limiter" where
  "limiter now c = rate_limiter_new (\<lambda>_. now) c"

text \<open>The assertion that so many acquisitions succeed, and the loop that acquires until one fails.\<close>

definition acquiring :: "nat \<Rightarrow> u64 \<Rightarrow> rate_limit_type \<Rightarrow> (rate_limiter, unit) op" where
  "acquiring n now t = repeat_op n (asserting (try_acquire (clock_at now) t 1) is_ok)"

primrec draining :: "nat \<Rightarrow> u64 \<Rightarrow> rate_limit_type \<Rightarrow> (rate_limiter, unit) op" where
  "draining 0 now t = op_return ()"
| "draining (Suc n) now t =
     op_then (try_acquire (clock_at now) t 1) (\<lambda>r. if is_err r then op_return () else draining n now t)"

text \<open>A bucket that was refilled at this instant grants what it holds.\<close>

definition holds :: "nat \<Rightarrow> u64 \<Rightarrow> rate_limit_type \<Rightarrow> rate_limiter \<Rightarrow> bool" where
  "holds n now t l \<longleftrightarrow>
     (case hm_get (buckets l) t of None \<Rightarrow> False | Some b \<Rightarrow> last_refill b = now \<and> n \<le> unat (tokens b))"

definition taken :: "nat \<Rightarrow> rate_limit_type \<Rightarrow> rate_limiter \<Rightarrow> rate_limiter" where
  "taken n t l =
     (let b = the (hm_get (buckets l) t) in set_bucket t (b\<lparr>tokens := tokens b - of_nat n\<rparr>) l)"

lemma refill_at_once: "last_refill b = now \<Longrightarrow> refill now b = b"
  by (simp add: refill_def sat_sub_def)

lemma acquire_one:
  assumes "holds (Suc n) now t l"
  shows "try_acquire (clock_at now) t 1 l = (taken (Suc 0) t l, Ret (Ok ()))" "holds n now t (taken (Suc 0) t l)"
    "taken n t (taken (Suc 0) t l) = taken (Suc n) t l"
proof -
  from assms obtain b where b: "hm_get (buckets l) t = Some b" "last_refill b = now" "Suc n \<le> unat (tokens b)"
    by (auto simp: holds_def split: option.splits)
  then have "1 \<le> tokens b" and "tokens b \<noteq> 0" by (auto simp: word_le_nat_alt)
  with b show "try_acquire (clock_at now) t 1 l = (taken (Suc 0) t l, Ret (Ok ()))"
    by (simp add: try_acquire_def try_consume_eq clock_at_def refill_at_once taken_def not_less)
  from b \<open>1 \<le> tokens b\<close> show "holds n now t (taken (Suc 0) t l)"
    by (simp add: holds_def taken_def set_bucket_def hm.lookup_insert unat_sub)
  from b show "taken n t (taken (Suc 0) t l) = taken (Suc n) t l"
    by (simp add: taken_def set_bucket_def hm_get_def hm_insert_def update_conv' Let_def algebra_simps)
qed

lemma taken_none: "holds 0 now t l \<Longrightarrow> taken 0 t l = l"
  by (auto simp: holds_def taken_def set_bucket_def hm_insert_same split: option.splits)

lemma acquiring_granted: "holds n now t l \<Longrightarrow> acquiring n now t l = (taken n t l, Ret ())"
  unfolding acquiring_def
  by (induction n arbitrary: l)
    (simp_all add: taken_none op_return_def op_then_def asserting_def acquire_one is_ok_def)

lemma draining_granted: "holds n now t l \<Longrightarrow> draining n now t l = (taken n t l, Ret ())"
  by (induction n arbitrary: l)
    (simp_all add: taken_none op_return_def op_then_def acquire_one is_err_def is_ok_def)

lemma double_waits:
  "fround 1 = Fin 1" "fround 2 = Fin 2" "fround 5 = Fin 5" "fround (1 / 2) = Fin (1 / 2)"
  "fround (1 / 10) = Fin (3602879701896397 / 36028797018963968)"
  "fround (3 / 10) = Fin (5404319552844595 / 18014398509481984)"
  "fround (1 / 50) = Fin (5764607523034235 / 288230376151711744)"
  "fround (144115188075855875 / 72057594037927936) = Fin 2" "fround 1000000000 = Fin 1000000000"
  using fround_normal [of 0 1] fround_normal [of 1 2] fround_normal [of 2 5] fround_normal [of "- 1" "1 / 2"]
    fround_normal [of "- 4" "1 / 10"] fround_normal [of "- 2" "3 / 10"] fround_normal [of "- 6" "1 / 50"]
    fround_normal [of 1 "144115188075855875 / 72057594037927936"] fround_normal [of 29 1000000000]
  by (simp_all add: round_even_eval power_int_minus)

lemma double_amounts:
  "f64_of_u64 3 = Fin 3" "f64_of_u64 10 = Fin 10" "f64_of_u64 50 = Fin 50" "f64_of_u64 100 = Fin 100"
  "f64_of_u64 500 = Fin 500" "f64_of_u64 1000 = Fin 1000" "f64_of_u64 1024 = Fin 1024" "f64_of_u64 2048 = Fin 2048"
  "f64_of_u64 20000000 = Fin 20000000"
  using f64_of_int_exact [of 3] f64_of_int_exact [of 10] f64_of_int_exact [of 50] f64_of_int_exact [of 100]
    f64_of_int_exact [of 500] f64_of_int_exact [of 1000] f64_of_int_exact [of 1024] f64_of_int_exact [of 2048]
    f64_of_int_exact [of 20000000]
  by (simp_all add: f64_of_u64_def)

lemmas rate_config_eval =
  unit_test_eval rate_limit_config_default_def rate_limit_config_new_def rate_limit_config_disabled_def
  with_messages_per_second_def with_bytes_per_second_def with_operations_per_second_def with_burst_size_def Let_def

lemmas limiter_eval =
  rate_config_eval limiter_def rate_limiter_new_def rate_limit_types_all_def token_bucket_new_def bucket_capacity_def
  get_limit_def hm_get_def hm_insert_def hm_empty_def max_def word_le_nat_alt clock_at_def try_acquire_def try_consume_eq
  refill_at_once set_bucket_def limiter_status_def available_def time_until_full_def duration_from_secs_f64_def
  double_waits double_amounts reset_limiter_def reset_bucket_def reset_type_def limiter_is_enabled_def
  limiter_config_def rate_limiter_default_config_def rate_limiter_disabled_def rate_limiter_default_def
  acquiring_granted draining_granted holds_def taken_def word_less_nat_alt unat_minus_one_eq

section \<open>Configuration\<close>

definition test_rate_limit_config_default :: test where
  "test_rate_limit_config_default =
     (let config = rate_limit_config_default in
     all_of [messages_per_second config = 100, bytes_per_second config = 1024 * 1024,
       operations_per_second config = 1000, burst_size config = 100])"

definition test_rate_limit_config_builder :: test where
  "test_rate_limit_config_builder =
     (let config = with_burst_size 50 (with_operations_per_second 2000
       (with_bytes_per_second (2048 * 1024) (with_messages_per_second 200 rate_limit_config_new))) in
     all_of [messages_per_second config = 200, bytes_per_second config = 2048 * 1024,
       operations_per_second config = 2000, burst_size config = 50])"

definition test_rate_limit_config_disabled :: test where
  "test_rate_limit_config_disabled =
     (let config = rate_limit_config_disabled in
     all_of [messages_per_second config = - 1, bytes_per_second config = - 1, operations_per_second config = - 1,
       burst_size config = - 1])"

definition test_rate_limit_type_all :: test where
  "test_rate_limit_type_all =
     (let types = rate_limit_types_all in
     all_of [length types = 3, RL_Message \<in> set types, RL_Byte \<in> set types, RL_Operation \<in> set types])"

lemma rate_limit_type_test: "passes test_rate_limit_type_all"
  by (simp add: test_rate_limit_type_all_def rate_limit_types_all_def rate_config_eval)

lemma rate_limit_config_tests:
  "passes test_rate_limit_config_default"
  "passes test_rate_limit_config_builder"
  "passes test_rate_limit_config_disabled"
  by (simp_all add: test_rate_limit_config_default_def test_rate_limit_config_builder_def
    test_rate_limit_config_disabled_def rate_config_eval)

section \<open>Acquiring\<close>

definition ten :: rate_limit_config where
  "ten = with_burst_size 10 (with_messages_per_second 10 rate_limit_config_new)"

definition test_rate_limiter_try_acquire_within_limit :: "u64 \<Rightarrow> test" where
  "test_rate_limiter_try_acquire_within_limit now =
     run_test (limiter now ten) (steps [
     acquiring 10 now RL_Message,
     asserting (try_acquire (clock_at now) RL_Message 1) is_err])"

definition test_rate_limiter_try_acquire_amount :: "u64 \<Rightarrow> test" where
  "test_rate_limiter_try_acquire_amount now =
     run_test (limiter now ten) (steps [
     asserting (try_acquire (clock_at now) RL_Message 5) is_ok,
     asserting (try_acquire (clock_at now) RL_Message 5) is_ok,
     asserting (try_acquire (clock_at now) RL_Message 1) is_err])"

definition test_rate_limiter_zero_amount :: "u64 \<Rightarrow> test" where
  "test_rate_limiter_zero_amount now =
     run_test (rate_limiter_default_config (\<lambda>_. now)) (steps [
     asserting (try_acquire (clock_at now) RL_Message 0) is_ok,
     asserting (try_acquire (clock_at now) RL_Byte 0) is_ok,
     asserting (try_acquire (clock_at now) RL_Operation 0) is_ok])"

definition test_rate_limiter_status :: "u64 \<Rightarrow> test" where
  "test_rate_limiter_status now =
     run_test (limiter now ten) (steps [
     asserting (limiter_status now now RL_Message)
       (\<lambda>status. rs_remaining status = 10 \<and> rs_capacity status = 10 \<and> rs_limit status = 10),
     asserting (try_acquire (clock_at now) RL_Message 3) is_ok,
     asserting (limiter_status now now RL_Message) (\<lambda>status. rs_remaining status = 7)])"

definition test_rate_limiter_reset :: "u64 \<Rightarrow> test" where
  "test_rate_limiter_reset now =
     run_test (limiter now ten) (steps [
     acquiring 10 now RL_Message,
     asserting (try_acquire (clock_at now) RL_Message 1) is_err,
     op_update (reset_limiter (\<lambda>_. now)),
     asserting (try_acquire (clock_at now) RL_Message 1) is_ok])"

definition test_rate_limiter_reset_type :: "u64 \<Rightarrow> test" where
  "test_rate_limiter_reset_type now =
     run_test (rate_limiter_default_config (\<lambda>_. now)) (steps [
     draining 100 now RL_Message,
     op_update (reset_type now RL_Message),
     asserting (try_acquire (clock_at now) RL_Message 1) is_ok])"

definition test_rate_limiter_disabled :: "u64 \<Rightarrow> test" where
  "test_rate_limiter_disabled now =
     run_test (rate_limiter_disabled (\<lambda>_. now)) (steps [
     acquiring 10000 now RL_Message,
     assert_that (\<lambda>l. \<not> limiter_is_enabled l)])"

definition test_rate_limiter_multiple_types :: "u64 \<Rightarrow> test" where
  "test_rate_limiter_multiple_types now =
     run_test (limiter now (with_burst_size 10 (with_operations_per_second 100
       (with_bytes_per_second 1024 (with_messages_per_second 10 rate_limit_config_new))))) (steps [
     asserting (try_acquire (clock_at now) RL_Message 10) is_ok,
     asserting (try_acquire (clock_at now) RL_Byte 10) is_ok,
     asserting (try_acquire (clock_at now) RL_Operation 10) is_ok,
     asserting (try_acquire (clock_at now) RL_Message 1) is_err,
     asserting (try_acquire (clock_at now) RL_Operation 1) is_err,
     asserting (try_acquire (clock_at now) RL_Byte 1) is_ok])"

definition test_rate_limiter_burst_size_smaller_than_limit :: "u64 \<Rightarrow> test" where
  "test_rate_limiter_burst_size_smaller_than_limit now =
     run_test
     (limiter now (with_burst_size 10 (with_messages_per_second 100 rate_limit_config_new))) (
     asserting (limiter_status now now RL_Message) (\<lambda>status. rs_capacity status = 10 \<and> rs_limit status = 100))"

definition test_rate_limiter_burst_size_larger_than_limit :: "u64 \<Rightarrow> test" where
  "test_rate_limiter_burst_size_larger_than_limit now =
     run_test
     (limiter now (with_burst_size 100 (with_messages_per_second 10 rate_limit_config_new))) (
     asserting (limiter_status now now RL_Message) (\<lambda>status. rs_capacity status = 100 \<and> rs_limit status = 10))"

definition test_rate_limiter_is_enabled :: "u64 \<Rightarrow> test" where
  "test_rate_limiter_is_enabled now =
     all_of [limiter_is_enabled (rate_limiter_default_config (\<lambda>_. now)),
      \<not> limiter_is_enabled (rate_limiter_disabled (\<lambda>_. now))]"

definition test_rate_limiter_config :: "u64 \<Rightarrow> test" where
  "test_rate_limiter_config now =
     (let l = limiter now (with_messages_per_second 50 rate_limit_config_new) in
     all_of [messages_per_second (limiter_config l) = 50])"

definition test_rate_limit_status_clone :: "u64 \<Rightarrow> test" where
  "test_rate_limit_status_clone now =
     run_test (limiter now ten) (
     asserting (limiter_status now now RL_Message) (\<lambda>status1. let status2 = status1 in
       rs_remaining status1 = rs_remaining status2 \<and> rs_limit status1 = rs_limit status2 \<and>
       rs_capacity status1 = rs_capacity status2))"

definition test_rate_limiter_default_trait :: "u64 \<Rightarrow> test" where
  "test_rate_limiter_default_trait now =
     all_of [messages_per_second (limiter_config (rate_limiter_default (\<lambda>_. now))) =
      messages_per_second (limiter_config (rate_limiter_default_config (\<lambda>_. now)))]"

definition test_byte_rate_limiting :: "u64 \<Rightarrow> test" where
  "test_byte_rate_limiting now =
     run_test (limiter now (with_burst_size 2048 (with_bytes_per_second 1024 rate_limit_config_new))) (steps [
     asserting (try_acquire (clock_at now) RL_Byte 2048) is_ok,
     asserting (try_acquire (clock_at now) RL_Byte 1) is_err,
     asserting (limiter_status now now RL_Byte) (\<lambda>status. rs_remaining status = 0 \<and> rs_capacity status = 2048)])"

definition test_operation_rate_limiting :: "u64 \<Rightarrow> test" where
  "test_operation_rate_limiting now =
     run_test
     (limiter now (with_burst_size 500 (with_operations_per_second 1000 rate_limit_config_new))) (steps [
     acquiring 500 now RL_Operation,
     asserting (try_acquire (clock_at now) RL_Operation 1) is_err])"

definition test_rate_limit_error_display :: "(bytes \<Rightarrow> rstr) \<Rightarrow> (duration \<Rightarrow> rstr) \<Rightarrow> test" where
  "test_rate_limit_error_display um dd =
     all_of
     [str_contains (error_display um dd (RateLimitExceeded RL_Message (secs 5))) (lit ''Rate limit'')]"

lemma rate_limit_error_test: "passes (test_rate_limit_error_display um dd)"
  by (simp add: test_rate_limit_error_display_def error_display_def unit_test_eval)

lemmas global_eval =
  global_limiter_default_config_def global_limiter_new_def global_connection_count_def add_connection_def add_begin_def
  add_undo_def remove_connection_def global_try_acquire_def global_status_def global_is_enabled_def

lemma rate_limiter_tests_1:
  "passes (test_rate_limiter_try_acquire_within_limit now)"
  "passes (test_rate_limiter_try_acquire_amount now)"
  "passes (test_rate_limiter_zero_amount now)"
  "passes (test_rate_limiter_status now)"
  by (simp_all add: test_rate_limiter_try_acquire_within_limit_def
    test_rate_limiter_try_acquire_amount_def test_rate_limiter_zero_amount_def
    test_rate_limiter_status_def limiter_eval ten_def)

lemma rate_limiter_tests_2:
  "passes (test_rate_limiter_reset now)"
  "passes (test_rate_limiter_reset_type now)"
  "passes (test_rate_limiter_disabled now)"
  "passes (test_rate_limiter_multiple_types now)"
  by (simp_all add: test_rate_limiter_reset_def test_rate_limiter_reset_type_def
    test_rate_limiter_disabled_def test_rate_limiter_multiple_types_def limiter_eval ten_def)

lemma rate_limiter_tests_3:
  "passes (test_rate_limiter_burst_size_smaller_than_limit now)"
  "passes (test_rate_limiter_burst_size_larger_than_limit now)"
  "passes (test_rate_limiter_is_enabled now)"
  "passes (test_rate_limiter_config now)"
  by (simp_all add: test_rate_limiter_burst_size_smaller_than_limit_def
    test_rate_limiter_burst_size_larger_than_limit_def test_rate_limiter_is_enabled_def
    test_rate_limiter_config_def limiter_eval ten_def)

lemma rate_limiter_tests_4:
  "passes (test_rate_limit_status_clone now)"
  "passes (test_rate_limiter_default_trait now)"
  "passes (test_byte_rate_limiting now)"
  "passes (test_operation_rate_limiting now)"
  by (simp_all add: test_rate_limit_status_clone_def test_rate_limiter_default_trait_def
    test_byte_rate_limiting_def test_operation_rate_limiting_def limiter_eval ten_def)

section \<open>The global limiter\<close>

definition test_global_rate_limiter_connection_count :: "bool \<Rightarrow> u64 \<Rightarrow> test" where
  "test_global_rate_limiter_connection_count ck now =
     run_test (global_limiter_default_config (\<lambda>_. now) 10) (steps [
     assert_that (\<lambda>g. global_connection_count g = 0),
     asserting (add_connection ck) is_ok,
     assert_that (\<lambda>g. global_connection_count g = 1),
     asserting (add_connection ck) is_ok,
     assert_that (\<lambda>g. global_connection_count g = 2),
     op_update remove_connection,
     assert_that (\<lambda>g. global_connection_count g = 1)])"

definition test_global_rate_limiter_connection_limit :: "bool \<Rightarrow> u64 \<Rightarrow> test" where
  "test_global_rate_limiter_connection_limit ck now =
     run_test (global_limiter_default_config (\<lambda>_. now) 2) (steps [
     asserting (add_connection ck) is_ok,
     asserting (add_connection ck) is_ok,
     asserting (add_connection ck) is_err,
     asserting (add_connection ck) (\<lambda>r. r = Inl (ConnectionLimitExceeded 3 2))])"

definition test_global_rate_limiter_delegates_to_limiter :: "u64 \<Rightarrow> test" where
  "test_global_rate_limiter_delegates_to_limiter now =
     run_test (global_limiter_new (\<lambda>_. now) ten 100) (steps [
     repeat_op 10 (asserting (global_try_acquire (clock_at now) RL_Message 1) is_ok),
     asserting (global_try_acquire (clock_at now) RL_Message 1) is_err])"

definition test_global_rate_limiter_status :: "u64 \<Rightarrow> test" where
  "test_global_rate_limiter_status now =
     run_test (global_limiter_default_config (\<lambda>_. now) 100) (
     asserting (global_status now now RL_Message) (\<lambda>status. 0 < rs_remaining status))"

definition test_global_rate_limiter_is_enabled :: "u64 \<Rightarrow> test" where
  "test_global_rate_limiter_is_enabled now =
     all_of [global_is_enabled (global_limiter_default_config (\<lambda>_. now) 100)]"

lemma global_limiter_tests_1:
  "passes (test_global_rate_limiter_connection_count ck now)"
  "passes (test_global_rate_limiter_connection_limit ck now)"
  "passes (test_global_rate_limiter_delegates_to_limiter now)"
  "passes (test_global_rate_limiter_status now)"
  by (simp_all add: test_global_rate_limiter_connection_count_def
    test_global_rate_limiter_connection_limit_def
    test_global_rate_limiter_delegates_to_limiter_def test_global_rate_limiter_status_def
    limiter_eval global_eval ten_def)

lemma global_limiter_tests_2:
  "passes (test_global_rate_limiter_is_enabled now)"
  by (simp_all add: test_global_rate_limiter_is_enabled_def limiter_eval global_eval ten_def)

section \<open>The bucket\<close>

definition test_token_bucket_refill :: test where
  "test_token_bucket_refill =
     run_test (token_bucket_new 0 10 100) (steps [
     call_with (try_consume 0 0 10) (\<lambda>consumed. consumed),
     call_with (available 0) (\<lambda>available. available = 0),
     call_with (try_consume 0 0 1) (\<lambda>consumed. \<not> consumed),
     call_with (available 20000000) (\<lambda>available. 0 < available)])"

definition test_token_bucket_time_until_full :: "u64 \<Rightarrow> test" where
  "test_token_bucket_time_until_full now =
     run_test (token_bucket_new now 100 10) (steps [
     call_with (try_consume 0 now 50) (\<lambda>consumed. consumed),
     asserting (time_until_full now) (\<lambda>d. 4 \<le> d div secs 1 \<and> d div secs 1 \<le> 6)])"

definition test_token_bucket_reset :: "u64 \<Rightarrow> test" where
  "test_token_bucket_reset now =
     run_test (token_bucket_new now 10 100) (steps [
     call_with (try_consume 0 now 10) (\<lambda>consumed. consumed),
     call_with (available now) (\<lambda>available. available = 0),
     op_update (reset_bucket now),
     call_with (available now) (\<lambda>available. available = 10)])"

lemma time_until_full_test: "passes (test_token_bucket_time_until_full now)"
  by (simp add: test_token_bucket_time_until_full_def limiter_eval round_even_def)

lemma token_bucket_tests:
  "passes test_token_bucket_refill"
  "passes (test_token_bucket_reset now)"
  by (simp_all add: test_token_bucket_refill_def test_token_bucket_reset_def
    limiter_eval refill_def tokens_to_add_def nanos_per_second_def sat_sub_def sat_add_def f64_to_u64_def min_def)

end
