(* ===== verification/Tests_Config.thy ===== *)
theory Tests_Config
  imports Config Tests_Headers
begin

text \<open>The unit tests of \<^verbatim>\<open>src/src/config.rs\<close>, run on the model, for every table of Unicode.\<close>

lemmas config_eval =
  unit_test_eval client_config_new_def server_config_new_def client_with_max_message_size_def
  client_with_auto_reconnect_def server_with_max_connections_def server_with_buffer_size_def
  reconnect_config_default_def heartbeat_config_default_def DEFAULT_PING_INTERVAL_def DEFAULT_PING_TIMEOUT_def
  backpressure_config_default_def backpressure_config_new_def with_backpressure_threshold_def threshold_ok_def
  client_with_compression_config_def server_with_compression_config_def compression_config_new_def
  compression_config_default_def compression_config_disabled_def with_level_def MAX_COMPRESSION_LEVEL_def Let_def
  fround_normal [of 0 "3 / 2"] round_even_eval

section \<open>Defaults and builders\<close>

definition test_client_config_builder :: test where
  "test_client_config_builder =
     (let config = client_with_auto_reconnect False (client_with_max_message_size 2048
       (client_config_new (lit ''ws://localhost:8080''))) in
     all_of [cl_url config = (lit ''ws://localhost:8080''), cl_max_message_size config = 2048, \<not> cl_auto_reconnect config])"

definition test_server_config_builder :: test where
  "test_server_config_builder =
     (let config = server_with_buffer_size 2000 (server_with_max_connections 5000
       (server_config_new (lit ''0.0.0.0:8080''))) in
     all_of [sv_bind_address config = (lit ''0.0.0.0:8080''), sv_max_connections config = 5000, sv_buffer_size config = 2000])"

definition test_reconnect_config_defaults :: test where
  "test_reconnect_config_defaults =
     (let config = reconnect_config_default in
     all_of [rc_enabled config, rc_max_attempts config = 0, rc_backoff_multiplier config = f64_lit (15/10)])"

definition test_heartbeat_config_defaults :: test where
  "test_heartbeat_config_defaults =
     (let config = heartbeat_config_default in
     all_of [hc_enabled config, hc_ping_interval config div secs 1 = 30, hc_ping_timeout config div secs 1 = 10])"

definition test_backpressure_config_defaults :: test where
  "test_backpressure_config_defaults =
     (let config = backpressure_config_default in
     all_of [bc_enabled config, bc_backpressure_threshold config = f64_lit (8/10),
       bc_recovery_threshold config = f64_lit (6/10)])"

definition test_backpressure_threshold_validation :: test where
  "test_backpressure_threshold_validation =
     all_of
      [panics (with_backpressure_threshold (f64_lit (15/10)) backpressure_config_new)]"

definition test_client_config_with_compression :: test where
  "test_client_config_with_compression =
     bind_outcome (with_level 9 compression_config_new) (\<lambda>compression.
     let config = client_with_compression_config compression (client_config_new (lit ''ws://localhost:8080'')) in
     all_of [cl_url config = (lit ''ws://localhost:8080''), cc_level (cl_compression_config config) = 9])"

definition test_server_config_with_compression :: test where
  "test_server_config_with_compression =
     (let config = server_with_compression_config compression_config_disabled
       (server_config_new (lit ''0.0.0.0:8080'')) in
     all_of [sv_bind_address config = (lit ''0.0.0.0:8080''), \<not> cc_enabled (sv_compression_config config)])"

lemmas config_subprotocol_eval =
  config_eval client_with_subprotocols_def server_with_subprotocols_def subprotocol_list_from_slice_def
  subprotocol_list_new_def with_protocol_def validate_protocol_def try_then_def protocol_char_def is_alphanumeric_def
  ascii_alnum_def list_len_def list_contains_def list_is_empty_def

lemma config_builder_tests_1:
  "passes test_client_config_builder"
  "passes test_server_config_builder"
  "passes test_reconnect_config_defaults"
  "passes test_heartbeat_config_defaults"
  by (simp_all add: test_client_config_builder_def test_server_config_builder_def
    test_reconnect_config_defaults_def test_heartbeat_config_defaults_def config_eval)

lemma config_builder_tests_2:
  "passes test_backpressure_config_defaults"
  "passes test_backpressure_threshold_validation"
  "passes test_client_config_with_compression"
  "passes test_server_config_with_compression"
  by (simp_all add: test_backpressure_config_defaults_def
    test_backpressure_threshold_validation_def test_client_config_with_compression_def
    test_server_config_with_compression_def config_eval)

section \<open>Sub-protocols\<close>

definition test_client_config_with_subprotocols :: "unicode \<Rightarrow> test" where
  "test_client_config_with_subprotocols u =
     (let config = client_with_subprotocols u [lit ''chat-v2'', lit ''mqtt'', lit ''graphql'']
       (client_config_new (lit ''ws://localhost:8080'')) in
     all_of [cl_url config = (lit ''ws://localhost:8080''), list_len (cl_subprotocols config) = 3,
       list_contains (cl_subprotocols config) (lit ''chat-v2''), list_contains (cl_subprotocols config) (lit ''mqtt''),
       list_contains (cl_subprotocols config) (lit ''graphql'')])"

definition test_client_config_empty_subprotocols :: test where
  "test_client_config_empty_subprotocols =
     (let config = client_config_new (lit ''ws://localhost:8080'') in
     all_of [cl_url config = (lit ''ws://localhost:8080''), list_is_empty (cl_subprotocols config)])"

definition test_server_config_with_subprotocols :: test where
  "test_server_config_with_subprotocols =
     (let config = server_with_subprotocols [lit ''mqtt'', lit ''chat-v2'', lit ''chat-v1'']
       (server_config_new (lit ''0.0.0.0:8080'')) in
     all_of [sv_bind_address config = (lit ''0.0.0.0:8080''), length (sv_subprotocols config) = 3,
       sv_subprotocols config ! 0 = (lit ''mqtt''), sv_subprotocols config ! 1 = (lit ''chat-v2''),
       sv_subprotocols config ! 2 = (lit ''chat-v1'')])"

definition test_server_config_empty_subprotocols :: test where
  "test_server_config_empty_subprotocols =
     (let config = server_config_new (lit ''0.0.0.0:8080'') in
     all_of [sv_bind_address config = (lit ''0.0.0.0:8080''), sv_subprotocols config = []])"

lemmas config_header_eval =
  header_accessor_eval client_config_new_def server_config_new_def client_with_header_def client_with_headers_def
  client_with_authorization_def client_with_user_agent_def client_with_origin_def client_with_cookie_def
  client_with_api_key_def server_with_header_def server_with_headers_def server_with_required_header_def Let_def

lemma config_subprotocol_tests:
  "passes (test_client_config_with_subprotocols u)"
  "passes test_client_config_empty_subprotocols"
  "passes test_server_config_with_subprotocols"
  "passes test_server_config_empty_subprotocols"
  by (simp_all add: test_client_config_with_subprotocols_def
    test_client_config_empty_subprotocols_def test_server_config_with_subprotocols_def
    test_server_config_empty_subprotocols_def config_subprotocol_eval)

section \<open>Headers\<close>

definition test_client_config_with_header :: "unicode \<Rightarrow> test" where
  "test_client_config_with_header u =
     (let config = client_with_header u (lit ''X-API-Key'') (lit ''secret-key'')
       (client_with_header u (lit ''Authorization'') (lit ''Bearer token123'') (client_config_new (lit ''ws://localhost:8080''))) in
     all_of [get_header u (lit ''Authorization'') (cl_headers config) = Some (lit ''Bearer token123''),
       get_header u (lit ''X-API-Key'') (cl_headers config) = Some (lit ''secret-key'')])"

definition test_client_config_with_headers :: "unicode \<Rightarrow> test" where
  "test_client_config_with_headers u =
     bind_outcome (inserting u (lit ''Authorization'') (lit ''Bearer token123'') header_map_new) (\<lambda>headers.
     bind_outcome (inserting u (lit ''User-Agent'') (lit ''TestClient'') headers) (\<lambda>headers.
     let config = client_with_headers headers (client_config_new (lit ''ws://localhost:8080'')) in
     all_of [get_header u (lit ''Authorization'') (cl_headers config) = Some (lit ''Bearer token123''),
       get_header u (lit ''User-Agent'') (cl_headers config) = Some (lit ''TestClient'')]))"

definition test_client_config_with_authorization :: "unicode \<Rightarrow> test" where
  "test_client_config_with_authorization u =
     (let config = client_with_authorization u (lit ''Bearer token123'') (client_config_new (lit ''ws://localhost:8080'')) in
     all_of [get_authorization u (cl_headers config) = Some (lit ''Bearer token123'')])"

definition test_client_config_with_user_agent :: "unicode \<Rightarrow> test" where
  "test_client_config_with_user_agent u =
     (let config = client_with_user_agent u (lit ''MyClient/1.0'') (client_config_new (lit ''ws://localhost:8080'')) in
     all_of [get_user_agent u (cl_headers config) = Some (lit ''MyClient/1.0'')])"

definition test_client_config_with_origin :: "unicode \<Rightarrow> test" where
  "test_client_config_with_origin u =
     (let config = client_with_origin u (lit ''https://example.com'') (client_config_new (lit ''ws://localhost:8080'')) in
     all_of [get_origin u (cl_headers config) = Some (lit ''https://example.com'')])"

definition test_client_config_with_cookie :: "unicode \<Rightarrow> test" where
  "test_client_config_with_cookie u =
     (let config = client_with_cookie u (lit ''session=abc123'') (client_config_new (lit ''ws://localhost:8080'')) in
     all_of [get_cookie u (cl_headers config) = Some (lit ''session=abc123'')])"

definition test_client_config_with_api_key :: "unicode \<Rightarrow> test" where
  "test_client_config_with_api_key u =
     (let config = client_with_api_key u (lit ''secret-key-123'') (client_config_new (lit ''ws://localhost:8080'')) in
     all_of [get_api_key u (cl_headers config) = Some (lit ''secret-key-123'')])"

definition test_server_config_with_header :: "unicode \<Rightarrow> test" where
  "test_server_config_with_header u =
     (let config = server_with_header u (lit ''X-Custom'') (lit ''value'')
       (server_with_header u (lit ''X-Server'') (lit ''MyServer/1.0'') (server_config_new (lit ''0.0.0.0:8080''))) in
     all_of [get_header u (lit ''X-Server'') (sv_headers config) = Some (lit ''MyServer/1.0''),
       get_header u (lit ''X-Custom'') (sv_headers config) = Some (lit ''value'')])"

definition test_server_config_with_headers :: "unicode \<Rightarrow> test" where
  "test_server_config_with_headers u =
     bind_outcome (inserting u (lit ''X-Server'') (lit ''MyServer/1.0'') header_map_new) (\<lambda>headers.
     bind_outcome (inserting u (lit ''X-Custom'') (lit ''value'') headers) (\<lambda>headers.
     let config = server_with_headers headers (server_config_new (lit ''0.0.0.0:8080'')) in
     all_of [get_header u (lit ''X-Server'') (sv_headers config) = Some (lit ''MyServer/1.0''),
       get_header u (lit ''X-Custom'') (sv_headers config) = Some (lit ''value'')]))"

definition test_server_config_with_required_header :: test where
  "test_server_config_with_required_header =
     (let config = server_with_required_header (lit ''Authorization'')
       (server_with_required_header (lit ''X-API-Key'') (server_config_new (lit ''0.0.0.0:8080''))) in
     all_of [length (sv_required_headers config) = 2, (lit ''X-API-Key'') \<in> set (sv_required_headers config),
       (lit ''Authorization'') \<in> set (sv_required_headers config)])"

definition test_client_config_multiple_headers :: "unicode \<Rightarrow> test" where
  "test_client_config_multiple_headers u =
     (let config = client_with_api_key u (lit ''secret-key'') (client_with_origin u (lit ''https://example.com'')
       (client_with_user_agent u (lit ''MyClient/1.0'') (client_with_authorization u (lit ''Bearer token123'')
         (client_config_new (lit ''ws://localhost:8080''))))) in
     all_of [get_authorization u (cl_headers config) = Some (lit ''Bearer token123''),
       get_user_agent u (cl_headers config) = Some (lit ''MyClient/1.0''),
       get_origin u (cl_headers config) = Some (lit ''https://example.com''),
       get_api_key u (cl_headers config) = Some (lit ''secret-key'')])"

lemma config_header_tests_1:
  "passes (test_client_config_with_header u)"
  "passes (test_client_config_with_headers u)"
  "passes (test_client_config_with_authorization u)"
  "passes (test_client_config_with_user_agent u)"
  by (simp_all add: test_client_config_with_header_def test_client_config_with_headers_def
    test_client_config_with_authorization_def test_client_config_with_user_agent_def
    config_header_eval)

lemma config_header_tests_2:
  "passes (test_client_config_with_origin u)"
  "passes (test_client_config_with_cookie u)"
  "passes (test_client_config_with_api_key u)"
  "passes (test_server_config_with_header u)"
  by (simp_all add: test_client_config_with_origin_def test_client_config_with_cookie_def
    test_client_config_with_api_key_def test_server_config_with_header_def config_header_eval)

lemma config_header_tests_3:
  "passes (test_server_config_with_headers u)"
  "passes test_server_config_with_required_header"
  "passes (test_client_config_multiple_headers u)"
  by (simp_all add: test_server_config_with_headers_def
    test_server_config_with_required_header_def test_client_config_multiple_headers_def
    config_header_eval)

end
