(* ===== verification/Tests_Backpressure.thy ===== *)
theory Tests_Backpressure
  imports Backpressure UnitTest
begin

text \<open>The unit tests of \<^verbatim>\<open>src/src/backpressure.rs\<close>, run on the model in double arithmetic.\<close>

lemma double_fractions:
  "fround (4 / 5) = Fin (3602879701896397 / 4503599627370496)"
  "fround (3 / 5) = Fin (5404319552844595 / 9007199254740992)"
  "fround (360287970189639700 / 4503599627370496) = Fin 80"
  "fround (90071992547409925 / 1125899906842624) = Fin 80"
  "fround (1 / 2) = Fin (1 / 2)" "fround (3 / 4) = Fin (3 / 4)" "fround 0 = Fin 0"
  using fround_normal [of "- 1" "4 / 5"] fround_normal [of "- 1" "3 / 5"]
    fround_normal [of 6 "360287970189639700 / 4503599627370496"]
    fround_normal [of 6 "90071992547409925 / 1125899906842624"]
    fround_normal [of "- 1" "1 / 2"] fround_normal [of "- 1" "3 / 4"]
  by (simp_all add: round_even_eval power_int_minus fround_def fl_def)

lemma double_sizes:
  "f64_of_u64 0 = Fin 0" "f64_of_u64 100 = Fin 100" "f64_of_u64 500 = Fin 500" "f64_of_u64 750 = Fin 750"
  "f64_of_u64 1000 = Fin 1000"
  using f64_of_int_exact [of 0] f64_of_int_exact [of 100] f64_of_int_exact [of 500] f64_of_int_exact [of 750]
    f64_of_int_exact [of 1000]
  by (simp_all add: f64_of_u64_def)

lemmas backpressure_eval =
  unit_test_eval backpressure_config_new_def backpressure_config_disabled_def backpressure_config_default_def
  with_max_buffer_size_def with_backpressure_threshold_def with_recovery_threshold_def threshold_ok_def
  backpressure_new_def is_backpressure_active_def can_send_def activation_size_def record_send_def record_recv_def
  utilization_def is_full_def double_fractions double_sizes f64_to_u64_def sat_sub_def

section \<open>Backpressure\<close>

definition test_backpressure_disabled :: test where
  "test_backpressure_disabled =
     (let controller = backpressure_new backpressure_config_disabled in
     all_of [\<not> is_backpressure_active controller, can_send controller])"

definition test_backpressure_activation :: "bool \<Rightarrow> test" where
  "test_backpressure_activation ck =
     bind_outcome
     (with_backpressure_threshold (f64_lit (8/10)) (with_max_buffer_size 100 backpressure_config_new)) (\<lambda>config.
     run_test (backpressure_new config) (steps [
      assert_that (\<lambda>b. \<not> is_backpressure_active b),
      record_send ck 81,
      assert_that is_backpressure_active,
      assert_that (\<lambda>b. \<not> can_send b)]))"

definition test_backpressure_recovery :: "bool \<Rightarrow> test" where
  "test_backpressure_recovery ck =
     bind_outcome
     (bind_outcome (with_backpressure_threshold (f64_lit (8/10)) (with_max_buffer_size 100 backpressure_config_new))
       (with_recovery_threshold (f64_lit (6/10)))) (\<lambda>config.
     run_test (backpressure_new config) (steps [
      record_send ck 81,
      assert_that is_backpressure_active,
      op_update (record_recv 21),
      assert_that (\<lambda>b. \<not> is_backpressure_active b)]))"

definition test_buffer_full :: "bool \<Rightarrow> test" where
  "test_buffer_full ck =
     run_test (backpressure_new (with_max_buffer_size 100 backpressure_config_new)) (steps [
     assert_that (\<lambda>b. \<not> is_full b),
     record_send ck 100,
     assert_that is_full])"

definition test_utilization :: "bool \<Rightarrow> test" where
  "test_utilization ck =
     run_test (backpressure_new (with_max_buffer_size 1000 backpressure_config_new)) (steps [
     assert_that (\<lambda>b. utilization b = f64_lit 0),
     record_send ck 500,
     assert_that (\<lambda>b. utilization b = f64_lit (5/10)),
     record_send ck 250,
     assert_that (\<lambda>b. utilization b = f64_lit (75/100))])"

lemma backpressure_tests:
  "passes test_backpressure_disabled"
  "passes (test_backpressure_activation ck)"
  "passes (test_backpressure_recovery ck)"
  "passes (test_buffer_full ck)"
  "passes (test_utilization ck)"
  by (simp_all add: test_backpressure_disabled_def test_backpressure_activation_def
    test_backpressure_recovery_def test_buffer_full_def test_utilization_def backpressure_eval)

end
