(* ===== verification/Tests_Heartbeat.thy ===== *)
theory Tests_Heartbeat
  imports Heartbeat UnitTest
begin

text \<open>The unit tests of \<^verbatim>\<open>src/src/heartbeat.rs\<close>, run on the model, at any instant \<open>t\<close> and with or
  without overflow checks.\<close>

lemmas heartbeat_eval =
  unit_test_eval heartbeat_config_new_def heartbeat_config_disabled_def heartbeat_config_default_def
  heartbeat_new_def hb_is_enabled_def ping_payload_def ping_commit_def ping_def expected_ping_def handle_pong_def
  is_alive_def hb_reset_def handle_ping_def time_since_last_pong_def read_ping_count_def read_pong_count_def
  read_missed_pings_def message_ping_def message_pong_def message_payload_def as_bytes_def is_ping_def is_pong_def
  elapsed_def Let_def to_be_def from_be_def DEFAULT_PING_TIMEOUT_def

section \<open>Heartbeat\<close>

definition test_heartbeat_disabled :: "instant \<Rightarrow> test" where
  "test_heartbeat_disabled t =
     (let manager = heartbeat_new heartbeat_config_disabled in
     all_of [\<not> hb_is_enabled manager, is_alive t manager])"

definition test_heartbeat_ping :: "bool \<Rightarrow> instant \<Rightarrow> test" where
  "test_heartbeat_ping ck t =
     run_test (heartbeat_new heartbeat_config_new) (steps [
     asserting (ping ck t) is_ping,
     assert_that (\<lambda>h. read_ping_count h = 1)])"

definition test_heartbeat_handle_pong :: "bool \<Rightarrow> instant \<Rightarrow> test" where
  "test_heartbeat_handle_pong ck t =
     run_test (heartbeat_new heartbeat_config_new) (
     op_then (ping ck t) (\<lambda>ping. steps [
       unwrapping (handle_pong ck t (message_payload ping)),
       assert_that (\<lambda>h. read_pong_count h = 1),
       assert_that (is_alive t)]))"

definition test_heartbeat_missed_pings :: "bool \<Rightarrow> instant \<Rightarrow> test" where
  "test_heartbeat_missed_pings ck t =
     (let wrong_payload = [255, 255, 255, 255, 255, 255, 255, 255] in
     run_test (heartbeat_new heartbeat_config_new) (steps [
     ignored (ping ck t),
     unwrapping (handle_pong ck t wrong_payload),
     assert_that (\<lambda>h. read_missed_pings h = 1),
     unwrapping (handle_pong ck t wrong_payload),
     assert_that (\<lambda>h. read_missed_pings h = 2),
     unwrapping (handle_pong ck t wrong_payload),
     assert_that (\<lambda>h. read_missed_pings h = 3),
     asserting (handle_pong ck t wrong_payload) (\<lambda>result. result = Inl Timeout)]))"

definition test_heartbeat_is_alive :: "bool \<Rightarrow> instant \<Rightarrow> test" where
  "test_heartbeat_is_alive ck t =
     run_test (heartbeat_new heartbeat_config_new) (steps [
     assert_that (is_alive t),
     op_then (ping ck t) (\<lambda>ping. steps [
       assert_that (is_alive t),
       unwrapping (handle_pong ck t (message_payload ping)),
       assert_that (is_alive t),
       assert_that (\<lambda>h. read_pong_count h = 1)])])"

definition test_heartbeat_handle_server_ping :: test where
  "test_heartbeat_handle_server_ping =
     (let ping_payload = (ascii ''server ping''); pong = handle_ping ping_payload in
     all_of [is_pong pong, as_bytes pong = ping_payload])"

definition test_heartbeat_reset :: "bool \<Rightarrow> instant \<Rightarrow> test" where
  "test_heartbeat_reset ck t =
     run_test (heartbeat_new heartbeat_config_new) (steps [
     ignored (ping ck t),
     ignored (ping ck t),
     assert_that (\<lambda>h. read_ping_count h = 2),
     op_update hb_reset,
     assert_that (\<lambda>h. read_ping_count h = 2),
     assert_that (\<lambda>h. time_since_last_pong t h = None)])"

lemma heartbeat_tests:
  "passes (test_heartbeat_disabled t)"
  "passes (test_heartbeat_ping ck t)"
  "passes (test_heartbeat_handle_pong ck t)"
  "passes (test_heartbeat_missed_pings ck t)"
  "passes (test_heartbeat_is_alive ck t)"
  "passes test_heartbeat_handle_server_ping"
  "passes (test_heartbeat_reset ck t)"
  by (simp_all add: test_heartbeat_disabled_def test_heartbeat_ping_def
    test_heartbeat_handle_pong_def test_heartbeat_missed_pings_def test_heartbeat_is_alive_def
    test_heartbeat_handle_server_ping_def test_heartbeat_reset_def heartbeat_eval)

end
