(* ===== verification/Tests_Reconnect.thy ===== *)
theory Tests_Reconnect
  imports Reconnect UnitTest
begin

text \<open>The unit tests of \<^verbatim>\<open>src/src/reconnect.rs\<close>, run on the model, at any instant \<open>t\<close> and with or
  without overflow checks.\<close>

text \<open>The doubles of the tests are integers, whose product is exact.\<close>

lemma double_integers:
  "fround 2 = Fin 2" "fround 10 = Fin 10" "fround 100 = Fin 100" "fround 200 = Fin 200"
  "fround 400 = Fin 400" "fround 800 = Fin 800" "fround 1000 = Fin 1000" "fround 2000 = Fin 2000"
  "fround 10000 = Fin 10000"
  using fround_normal [of 1 2] fround_normal [of 3 10] fround_normal [of 6 100] fround_normal [of 7 200]
    fround_normal [of 8 400] fround_normal [of 9 800] fround_normal [of 9 1000] fround_normal [of 10 2000]
    fround_normal [of 13 10000]
  by (simp_all add: round_even_eval power_int_minus)

lemmas reconnect_eval =
  unit_test_eval reconnect_config_new_def reconnect_config_default_def reconnect_config_disabled_def
  with_max_attempts_def with_initial_delay_def with_max_delay_def with_backoff_multiplier_def reconnect_new_def
  rs_is_enabled_def should_reconnect_def next_delay_def millis_f64_def backoff_def record_attempt_def rs_reset_def
  read_attempts_def f64_of_int_def double_integers f64_min_def f64_to_u64_def Let_def as_millis_def word_le_nat_alt

section \<open>Reconnection\<close>

definition test_reconnect_state_initial :: test where
  "test_reconnect_state_initial =
     (let state = reconnect_new reconnect_config_new in
     all_of [rs_is_enabled state, read_attempts state = 0, next_delay state = millis 100])"

definition test_reconnect_state_disabled :: test where
  "test_reconnect_state_disabled =
     (let state = reconnect_new reconnect_config_disabled in
     all_of [\<not> rs_is_enabled state, \<not> should_reconnect state])"

definition test_reconnect_state_max_attempts :: "bool \<Rightarrow> instant \<Rightarrow> test" where
  "test_reconnect_state_max_attempts ck t =
     run_test (reconnect_new (with_max_attempts 3 reconnect_config_new)) (steps [
     assert_that should_reconnect,
     record_attempt ck t,
     assert_that should_reconnect,
     record_attempt ck t,
     assert_that should_reconnect,
     record_attempt ck t,
     assert_that (\<lambda>s. \<not> should_reconnect s)])"

definition test_reconnect_state_exponential_backoff :: "bool \<Rightarrow> instant \<Rightarrow> test" where
  "test_reconnect_state_exponential_backoff ck t =
     (let config = with_backoff_multiplier (f64_lit 2) (with_max_delay (secs 10)
       (with_initial_delay (millis 100) reconnect_config_new)) in
     run_test (reconnect_new config) (steps [
     assert_that (\<lambda>s. next_delay s = millis 100),
     record_attempt ck t,
     assert_that (\<lambda>s. next_delay s = millis 200),
     record_attempt ck t,
     assert_that (\<lambda>s. next_delay s = millis 400),
     record_attempt ck t,
     assert_that (\<lambda>s. next_delay s = millis 800)]))"

definition test_reconnect_state_max_delay :: "bool \<Rightarrow> instant \<Rightarrow> test" where
  "test_reconnect_state_max_delay ck t =
     (let config = with_backoff_multiplier (f64_lit 10) (with_max_delay (secs 2)
       (with_initial_delay (secs 1) reconnect_config_new)) in
     run_test (reconnect_new config) (steps [
     assert_that (\<lambda>s. next_delay s = secs 1),
     record_attempt ck t,
     assert_that (\<lambda>s. next_delay s = secs 2)]))"

definition test_reconnect_state_reset :: "bool \<Rightarrow> instant \<Rightarrow> test" where
  "test_reconnect_state_reset ck t =
     run_test (reconnect_new reconnect_config_new) (steps [
     record_attempt ck t,
     record_attempt ck t,
     assert_that (\<lambda>s. read_attempts s = 2),
     op_update rs_reset,
     assert_that (\<lambda>s. read_attempts s = 0),
     assert_that (\<lambda>s. next_delay s = millis 100)])"

lemma reconnect_tests:
  "passes test_reconnect_state_initial"
  "passes test_reconnect_state_disabled"
  "passes (test_reconnect_state_max_attempts ck t)"
  "passes (test_reconnect_state_exponential_backoff ck t)"
  "passes (test_reconnect_state_max_delay ck t)"
  "passes (test_reconnect_state_reset ck t)"
  by (simp_all add: test_reconnect_state_initial_def test_reconnect_state_disabled_def
    test_reconnect_state_max_attempts_def test_reconnect_state_exponential_backoff_def
    test_reconnect_state_max_delay_def test_reconnect_state_reset_def reconnect_eval)

end
