(* ===== verification/Tests_Metrics.thy ===== *)
theory Tests_Metrics
  imports Metrics UnitTest
begin

text \<open>The unit tests of \<^verbatim>\<open>src/src/metrics.rs\<close>, run on the model, at any instant \<open>t\<close> and with or
  without overflow checks.\<close>

lemmas metrics_eval =
  unit_test_eval metrics_new_def record_connection_def record_disconnection_def record_message_sent_def
  record_message_received_def record_latency_def touch_def message_stats_def byte_stats_def latency_percentiles_def
  is_idle_def snapshot_def metrics_reset_def read_active_connections_def read_total_connections_def
  sat_sub_def elapsed_def hm_get_def hm_insert_def hm_empty_def Let_def

section \<open>Counters\<close>

definition test_metrics_connection_tracking :: "bool \<Rightarrow> instant \<Rightarrow> test" where
  "test_metrics_connection_tracking ck t =
     run_test metrics_new (steps [
     record_connection ck t,
     assert_that (\<lambda>m. read_active_connections m = 1),
     assert_that (\<lambda>m. read_total_connections m = 1),
     record_disconnection ck t,
     assert_that (\<lambda>m. read_active_connections m = 0),
     assert_that (\<lambda>m. read_total_connections m = 1)])"

definition test_metrics_message_tracking :: "bool \<Rightarrow> instant \<Rightarrow> test" where
  "test_metrics_message_tracking ck t =
     run_test metrics_new (steps [
     record_message_sent ck t 100,
     record_message_received ck t 50,
     assert_that (\<lambda>m. message_stats m = (1, 1)),
     assert_that (\<lambda>m. byte_stats m = (100, 50))])"

definition test_metrics_latency :: test where
  "test_metrics_latency =
     run_test metrics_new (steps [
     op_update (record_latency 100000),
     op_update (record_latency 200000),
     op_update (record_latency 300000),
     assert_that (\<lambda>m. p50 (latency_percentiles m) = 200),
     assert_that (\<lambda>m. 200 \<le> p95 (latency_percentiles m)),
     assert_that (\<lambda>m. p99 (latency_percentiles m) \<le> 300)])"

definition test_metrics_idle_detection :: "bool \<Rightarrow> instant \<Rightarrow> test" where
  "test_metrics_idle_detection ck t =
     run_test metrics_new (steps [
     assert_that (\<lambda>m. \<not> is_idle t (secs 1) m),
     record_message_sent ck (t + secs 10) 100,
     assert_that (\<lambda>m. \<not> is_idle (t + secs 10) (secs 1) m),
     op_update (\<lambda>m. m\<lparr>last_activity := Some t\<rparr>),
     assert_that (\<lambda>m. is_idle (t + secs 10) (secs 5) m),
     assert_that (\<lambda>m. \<not> is_idle (t + secs 10) (secs 15) m)])"

definition test_metrics_snapshot :: "bool \<Rightarrow> instant \<Rightarrow> test" where
  "test_metrics_snapshot ck t =
     run_test metrics_new (steps [
     record_connection ck t,
     record_message_sent ck t 100,
     assert_that (\<lambda>m. hm_get (snapshot m) (lit ''active_connections'') = Some 1),
     assert_that (\<lambda>m. hm_get (snapshot m) (lit ''messages_sent'') = Some 1)])"

definition test_metrics_reset :: "bool \<Rightarrow> instant \<Rightarrow> test" where
  "test_metrics_reset ck t =
     run_test metrics_new (steps [
     record_connection ck t,
     record_message_sent ck t 100,
     op_update metrics_reset,
     assert_that (\<lambda>m. read_active_connections m = 0),
     assert_that (\<lambda>m. read_total_connections m = 0)])"

lemma double_latencies:
  "f64_of_u64 1500 = Fin 1500" "f64_of_u64 150000 = Fin 150000" "f64_of_u64 1500000 = Fin 1500000"
  "fround 1000 = Fin 1000" "fround 1000000 = Fin 1000000" "fround (3 / 2) = Fin (3 / 2)" "fround 150 = Fin 150"
  using f64_of_int_exact [of 1500] f64_of_int_exact [of 150000] f64_of_int_exact [of 1500000]
    fround_normal [of 9 1000] fround_normal [of 19 1000000] fround_normal [of 0 "3 / 2"] fround_normal [of 7 150]
  by (simp_all add: f64_of_u64_def round_even_eval power_int_minus)

lemma show_nat_small:
  "n < 10 \<Longrightarrow> show_nat n = [48 + n]" "\<not> n < 10 \<Longrightarrow> show_nat n = show_nat (n div 10) @ [48 + n mod 10]"
  by (subst show_nat.simps; simp)+

lemma metrics_tests:
  "passes (test_metrics_connection_tracking ck t)"
  "passes (test_metrics_message_tracking ck t)"
  "passes test_metrics_latency"
  "passes (test_metrics_idle_detection ck t)"
  "passes (test_metrics_snapshot ck t)"
  "passes (test_metrics_reset ck t)"
  by (simp_all add: test_metrics_connection_tracking_def test_metrics_message_tracking_def
    test_metrics_latency_def test_metrics_idle_detection_def test_metrics_snapshot_def
    test_metrics_reset_def metrics_eval)

section \<open>Formatting\<close>

definition test_latency_formatting :: test where
  "test_latency_formatting =
     (let percentiles = \<lparr>p50 = 100, p95 = 1500, p99 = 150000, p999 = 1500000\<rparr> in
     all_of [format_percentile percentiles (lit ''p50'') = (lit ''100'') @ [0xB5] @ (lit ''s''),
       format_percentile percentiles (lit ''p95'') = (lit ''1.50ms''),
       format_percentile percentiles (lit ''p99'') = (lit ''150.00ms''),
       format_percentile percentiles (lit ''p999'') = (lit ''1.50s'')])"

lemma latency_formatting_test:
  "passes test_latency_formatting"
  by (simp_all add: test_latency_formatting_def
    unit_test_eval format_percentile_def Let_def show_fixed2_def double_latencies round_even_eval show_nat_small)

end
