(* ===== verification/Tests_Compression.thy ===== *)
theory Tests_Compression
  imports Compression UnitTest
begin

text \<open>The unit tests of \<^verbatim>\<open>src/src/compression.rs\<close> that do not depend on how well \<^verbatim>\<open>zlib\<close> compresses,
  run on the model.\<close>

lemmas compression_eval =
  unit_test_eval compression_config_new_def compression_config_default_def compression_config_disabled_def
  DEFAULT_COMPRESSION_LEVEL_def DEFAULT_COMPRESSION_THRESHOLD_def MAX_COMPRESSION_LEVEL_def with_level_def
  with_threshold_def window_bits_ok_def with_server_max_window_bits_def with_client_max_window_bits_def
  compressor_new_def compressor_with_level_def compress_def should_compress_def Let_def

section \<open>Configuration\<close>

definition test_compression_config_default :: test where
  "test_compression_config_default =
     (let config = compression_config_default in
     all_of [cc_enabled config, cc_level config = DEFAULT_COMPRESSION_LEVEL,
       cc_threshold config = DEFAULT_COMPRESSION_THRESHOLD, cc_server_max_window_bits config = 15,
       cc_client_max_window_bits config = 15])"

definition test_compression_config_builder :: test where
  "test_compression_config_builder =
     bind_outcome (with_level 9 compression_config_new) (\<lambda>config.
     bind_outcome (with_server_max_window_bits 14 (with_threshold 2048 config)) (\<lambda>config.
     all_of [cc_level config = 9, cc_threshold config = 2048, cc_server_max_window_bits config = 14]))"

definition test_compression_config_disabled :: test where
  "test_compression_config_disabled =
     all_of [\<not> cc_enabled compression_config_disabled]"

definition test_compression_config_level_validation :: test where
  "test_compression_config_level_validation =
     all_of [panics (with_level 10 compression_config_new)]"

definition test_compression_config_window_bits_validation :: test where
  "test_compression_config_window_bits_validation =
     all_of [panics (with_server_max_window_bits 16 compression_config_new)]"

lemma compression_config_tests:
  "passes test_compression_config_default"
  "passes test_compression_config_builder"
  "passes test_compression_config_disabled"
  "passes test_compression_config_level_validation"
  "passes test_compression_config_window_bits_validation"
  by (simp_all add: test_compression_config_default_def test_compression_config_builder_def
    test_compression_config_disabled_def test_compression_config_level_validation_def
    test_compression_config_window_bits_validation_def compression_eval)

section \<open>Compressor\<close>

definition test_compressor_creation :: test where
  "test_compressor_creation =
     bind_outcome (bind_outcome (compressor_with_level 6) unwrap) (\<lambda>compressor.
     all_of [cc_level (cm_config compressor) = 6, cc_enabled (cm_config compressor)])"

definition test_compressor_disabled :: test where
  "test_compressor_disabled =
     all_of [is_err (compressor_new compression_config_disabled)]"

definition test_small_message_not_compressed :: "bool \<Rightarrow> zlib \<Rightarrow> test" where
  "test_small_message_not_compressed ck z =
     bind_outcome (bind_outcome (compressor_with_level 6) unwrap) (\<lambda>compressor.
     let data = (ascii ''Hello, World!'') in
     run_test compressor (op_then (unwrapping (compress ck z data)) (\<lambda>compressed. assert_that (\<lambda>_. compressed = data))))"

definition test_should_compress :: test where
  "test_should_compress =
     (let config = with_threshold 100 compression_config_new in
     all_of [\<not> should_compress config (ascii ''Hello''), should_compress config (replicate 200 65),
       \<not> should_compress compression_config_disabled (replicate 200 65)])"

lemma show_nat_14: "show_nat 14 = [49, 52]"
  by (simp add: show_nat.simps)

lemmas offer_eval =
  compression_eval compression_offer_def show_nat_14 parse_compression_response_def parse_window_bits_def parse_u8_def
  is_digit_def to_lowercase_def ascii_lower_def digits_value_def

lemma compressor_tests:
  "passes test_compressor_creation"
  "passes test_compressor_disabled"
  "passes (test_small_message_not_compressed ck z)"
  "passes test_should_compress"
  by (simp_all add: test_compressor_creation_def test_compressor_disabled_def
    test_small_message_not_compressed_def test_should_compress_def compression_eval)

section \<open>The header\<close>

definition test_compression_offer :: test where
  "test_compression_offer =
     bind_outcome (with_server_max_window_bits 14 compression_config_new) (\<lambda>config.
     bind_outcome (with_client_max_window_bits 14 config) (\<lambda>config.
     let offer = compression_offer config in
     all_of [str_contains offer (lit ''permessage-deflate''), str_contains offer (lit ''server_max_window_bits=14''),
       str_contains offer (lit ''client_max_window_bits=14'')]))"

definition test_parse_compression_response :: "(rstr \<Rightarrow> rstr) \<Rightarrow> test" where
  "test_parse_compression_response ul =
     (let header = lit (''permessage-deflate; server_max_window_bits=14; '' @
       ''client_max_window_bits=14; server_no_context_takeover'') in
     bind_outcome (unwrap (parse_compression_response ul header)) (\<lambda>config.
     all_of [cc_enabled config, cc_server_max_window_bits config = 14, cc_client_max_window_bits config = 14,
       cc_server_no_context_takeover config]))"

definition test_parse_compression_response_disabled :: "(rstr \<Rightarrow> rstr) \<Rightarrow> test" where
  "test_parse_compression_response_disabled ul =
     bind_outcome (unwrap (parse_compression_response ul (lit ''gzip''))) (\<lambda>config.
     all_of [\<not> cc_enabled config])"

lemma compression_header_tests:
  "passes test_compression_offer"
  "passes (test_parse_compression_response ul)"
  "passes (test_parse_compression_response_disabled ul)"
  by (simp_all add: test_compression_offer_def test_parse_compression_response_def
    test_parse_compression_response_disabled_def offer_eval)

end
