(* ===== verification/Tests_Pool.thy ===== *)
theory Tests_Pool
  imports Pool UnitTest
begin

text \<open>The unit tests of \<^verbatim>\<open>src/src/pool.rs\<close> that call the crate, run on the model. The pool of a test
  has no connection, whatever a connection is.\<close>

lemmas pool_eval =
  unit_test_eval pool_config_default_def pool_config_new_def pool_with_min_connections_def
  pool_with_max_connections_def pool_with_idle_timeout_def validate_def conn_pool_new_def conn_pool_with_defaults_def
  stats_def server_stats_def try_then_def hm_values_def hm_get_def hm_empty_def hm_len_def Let_def
  get_with_config_def get_phase1_def

section \<open>Configuration\<close>

definition test_pool_config_default :: test where
  "test_pool_config_default =
     (let config = pool_config_default in
     all_of [po_min_connections config = 1, po_max_connections config = 10, po_idle_timeout config = secs 300])"

definition test_pool_config_builder :: test where
  "test_pool_config_builder =
     bind_outcome (pool_with_min_connections 2 pool_config_new) (\<lambda>config.
     bind_outcome (pool_with_max_connections 20 config) (\<lambda>config.
     let config = pool_with_idle_timeout (secs 120) config in
     all_of [po_min_connections config = 2, po_max_connections config = 20, po_idle_timeout config = secs 120]))"

definition test_pool_config_validation :: test where
  "test_pool_config_validation =
     all_of [is_ok (validate pool_config_default),
      is_err (validate (pool_config_default\<lparr>po_min_connections := 0\<rparr>)),
      is_err (validate (pool_config_default\<lparr>po_max_connections := 0\<rparr>)),
      is_err (validate (pool_config_default\<lparr>po_min_connections := 10, po_max_connections := 5\<rparr>))]"

lemma pool_config_tests:
  "passes test_pool_config_default"
  "passes test_pool_config_builder"
  "passes test_pool_config_validation"
  by (simp_all add: test_pool_config_default_def test_pool_config_builder_def
    test_pool_config_validation_def pool_eval)

section \<open>The empty pool\<close>

definition create_test_pool :: "'c conn_pool outcome" where
  "create_test_pool =
     unwrap (conn_pool_new
     \<lparr>po_min_connections = 1, po_max_connections = 5, po_idle_timeout = secs 60,
       po_health_check_interval = secs 10, po_acquire_timeout = secs 1, po_enable_health_check = True\<rparr>)"

section \<open>Its answers\<close>

definition test_pool_with_defaults :: test where
  "test_pool_with_defaults =
     all_of [is_ok (conn_pool_with_defaults :: unit conn_pool result)]"

definition test_pool_stats_empty :: test where
  "test_pool_stats_empty =
     bind_outcome (create_test_pool :: unit conn_pool outcome) (\<lambda>pool.
     let stats = stats pool in
     all_of [ps_server_count stats = 0, ps_total_connections stats = 0, ps_available_connections stats = 0,
       ps_in_use_connections stats = 0])"

definition test_cleanup_stats :: test where
  "test_cleanup_stats =
     (let stats = \<lparr>cs_connections_removed = 5, cs_servers_cleaned = 2\<rparr> in
     all_of [cs_connections_removed stats = 5, cs_servers_cleaned stats = 2])"

definition test_server_stats_nonexistent :: test where
  "test_server_stats_nonexistent =
     bind_outcome (create_test_pool :: unit conn_pool outcome) (\<lambda>pool.
     all_of [server_stats (lit ''ws://nonexistent'') pool = None])"

lemma empty_pool_tests:
  "passes test_pool_with_defaults"
  "passes test_pool_stats_empty"
  "passes test_cleanup_stats"
  "passes test_server_stats_nonexistent"
  by (simp_all add: test_pool_with_defaults_def test_pool_stats_empty_def test_cleanup_stats_def
    test_server_stats_nonexistent_def pool_eval create_test_pool_def)

end
