(* ===== verification/Tests_Client.thy ===== *)
theory Tests_Client
  imports Client UnitTest
begin

text \<open>The unit tests of \<^verbatim>\<open>src/src/client.rs\<close>, run on the model.\<close>

lemmas client_eval =
  unit_test_eval client_config_new_def client_with_max_message_size_def client_with_auto_reconnect_def Let_def
  Client.is_connected_def

section \<open>Client\<close>

definition test_client_config_builder_2 :: test where
  "test_client_config_builder_2 =
     (let config = client_with_auto_reconnect False (client_with_max_message_size 2048
       (client_config_new (lit ''ws://localhost:8080''))) in
     all_of [cl_url config = (lit ''ws://localhost:8080''), cl_max_message_size config = 2048, \<not> cl_auto_reconnect config])"

definition test_client_not_connected :: test where
  "test_client_not_connected =
     (let config = client_config_new (lit ''ws://localhost:8080'');
       client = (client_fresh config)\<lparr>wc_connected := False, wc_shutdown := False, wc_tx := False\<rparr> in
     all_of [\<not> Client.is_connected client])"

lemma client_tests:
  "passes test_client_config_builder_2"
  "passes test_client_not_connected"
  by (simp_all add: test_client_config_builder_2_def test_client_not_connected_def client_eval)

end
