(* ===== verification/Tests_Server.thy ===== *)
theory Tests_Server
  imports Accepting UnitTest
begin

text \<open>The unit tests of \<^verbatim>\<open>src/src/server.rs\<close>, run on the model, at any instant \<open>t\<close> and with or
  without overflow checks.\<close>

lemmas server_eval =
  unit_test_eval server_new_def server_bind_def server_config_new_def server_with_max_connections_def
  server_with_buffer_size_def server_with_max_message_size_def Server.connection_count_def server_is_running_def
  hm_len_def hm_empty_def hm_values_def Let_def broadcast_text_def broadcast_def metrics_new_def
  read_active_connections_def heartbeat_new_def hb_is_enabled_def backpressure_new_def can_send_def
  is_backpressure_active_def

section \<open>Server\<close>

definition test_server_creation :: test where
  "test_server_creation =
     (let config = server_with_buffer_size 500
        (server_with_max_connections 100 (server_config_new (lit ''127.0.0.1:0'')));
       server = server_new config in
     all_of [Server.connection_count server = 0, \<not> server_is_running server])"

definition test_server_bind :: test where
  "test_server_bind =
     (let server = server_bind (lit ''127.0.0.1:0'') in
     all_of [Server.connection_count server = 0, \<not> server_is_running server])"

definition test_server_config :: test where
  "test_server_config =
     (let config = server_with_buffer_size 2000 (server_with_max_message_size 2048
        (server_with_max_connections 5000 (server_config_new (lit ''0.0.0.0:8080'')))) in
     all_of [sv_bind_address config = (lit ''0.0.0.0:8080''), sv_max_connections config = 5000,
       sv_max_message_size config = 2048, sv_buffer_size config = 2000])"

definition test_connected_client_id :: "uuid \<Rightarrow> test" where
  "test_connected_client_id uuid =
     (let client = \<lparr>cn_id = uuid, cn_remote_addr = (lit ''127.0.0.1:12345'')\<rparr> in
     all_of [cn_remote_addr client = (lit ''127.0.0.1:12345'')])"

definition test_broadcast_empty :: "bool \<Rightarrow> instant \<Rightarrow> test" where
  "test_broadcast_empty ck t =
     run_test (server_bind (lit ''127.0.0.1:0'')) (
     asserting (broadcast_text ck t (lit ''test'')) (\<lambda>result. result = Some 0))"

definition test_server_metrics :: test where
  "test_server_metrics =
     (let server = server_bind (lit ''127.0.0.1:0'') in
     all_of [read_active_connections (sv_metrics server) = 0, hb_is_enabled (sv_heartbeat server),
       can_send (sv_backpressure server)])"

lemma server_tests:
  "passes test_server_creation"
  "passes test_server_bind"
  "passes test_server_config"
  "passes (test_connected_client_id uuid)"
  "passes (test_broadcast_empty ck t)"
  "passes test_server_metrics"
  by (simp_all add: test_server_creation_def test_server_bind_def test_server_config_def
    test_connected_client_id_def test_broadcast_empty_def test_server_metrics_def server_eval)

end
