(* ===== verification/Tests_Zlib.thy ===== *)
theory Tests_Zlib
  imports Tests_Compression
begin

text \<open>
  The unit tests of \<^verbatim>\<open>src/src/compression.rs\<close> that compress, for every \<^verbatim>\<open>zlib\<close> that inflates what it
  deflated. What a test expects of the rate of compression is the hypothesis \<open>deflates\<close> of its lemma.
\<close>

section \<open>A compressor and a decompressor\<close>

record zlib_pair =
  zp_compressor :: compressor
  zp_decompressor :: decompressor

definition compressing :: "bool \<Rightarrow> zlib \<Rightarrow> bytes \<Rightarrow> (zlib_pair, bytes) op" where
  "compressing ck z b = unwrapping (op_on zp_compressor zp_compressor_update (compress ck z b))"

definition decompressing :: "bool \<Rightarrow> zlib \<Rightarrow> bytes \<Rightarrow> (zlib_pair, bytes) op" where
  "decompressing ck z b = unwrapping (op_on zp_decompressor zp_decompressor_update (decompress ck z b))"

definition with_pair :: "u8 \<Rightarrow> (zlib_pair, unit) op \<Rightarrow> test" where
  "with_pair level t =
     bind_outcome (bind_outcome (compressor_with_level level) unwrap) (\<lambda>compressor.
     run_test \<lparr>zp_compressor = compressor, zp_decompressor = decompressor_new\<rparr> t)"

definition bytes_of :: "rstr \<Rightarrow> nat \<Rightarrow> bytes" where
  "bytes_of s n = concat (replicate n (utf8_encode s))"

text \<open>Compress, decompress, compare, and a bound on the length of what was compressed.\<close>

definition there_and_back :: "bool \<Rightarrow> zlib \<Rightarrow> bytes \<Rightarrow> (nat \<Rightarrow> bool) \<Rightarrow> (zlib_pair, unit) op" where
  "there_and_back ck z data small =
     op_then (compressing ck z data) (\<lambda>compressed.
     op_then (decompressing ck z compressed) (\<lambda>decompressed.
     assert_that (\<lambda>_. decompressed = data \<and> small (length compressed))))"

section \<open>Round trips\<close>

definition test_compress_decompress :: "bool \<Rightarrow> zlib \<Rightarrow> test" where
  "test_compress_decompress ck z =
     (let data_bytes = bytes_of (lit ''Hello, World! '') 100 in
      with_pair 6 (there_and_back ck z data_bytes (\<lambda>n. n < length data_bytes)))"

definition test_compress_repeated_data :: "bool \<Rightarrow> zlib \<Rightarrow> test" where
  "test_compress_repeated_data ck z =
     (let data_bytes = bytes_of (lit ''A'') 10000 in
      with_pair 6 (there_and_back ck z data_bytes (\<lambda>n. n < length data_bytes div 10)))"

text \<open>\<^verbatim>\<open>(0..255).cycle().take(10000)\<close>.\<close>

definition test_binary_data_compression :: "bool \<Rightarrow> zlib \<Rightarrow> test" where
  "test_binary_data_compression ck z =
     (let data = map (\<lambda>i. of_nat (i mod 255)) [0..<10000] in
      with_pair 6 (there_and_back ck z data (\<lambda>n. n < length data)))"

definition test_high_compression_level :: "bool \<Rightarrow> zlib \<Rightarrow> test" where
  "test_high_compression_level ck z =
     (let data_bytes = bytes_of (lit ''Repeated pattern '') 1000 in
      with_pair 9 (there_and_back ck z data_bytes (\<lambda>n. n < length data_bytes div 5)))"

definition test_fast_compression_level :: "bool \<Rightarrow> zlib \<Rightarrow> test" where
  "test_fast_compression_level ck z =
     (let data_bytes = bytes_of (lit ''Test data '') 1000 in
      with_pair 1 (there_and_back ck z data_bytes (\<lambda>n. n < length data_bytes)))"

text \<open>The text of the last test, with a symbol of four bytes and three scripts of three bytes a character.\<close>

definition unicode_text :: rstr where
  "unicode_text =
     [0x1F525] @ (lit '' Unicode test: '') @ [0x3053, 0x3093, 0x306B, 0x3061, 0x306F, 32, 0x4E16, 0x754C, 32,
       0xC548, 0xB155, 0xD558, 0xC138, 0xC694, 32]"

definition test_unicode_text_compression :: "bool \<Rightarrow> zlib \<Rightarrow> test" where
  "test_unicode_text_compression ck z =
     (let text_bytes = bytes_of unicode_text 100 in
      with_pair 6 (there_and_back ck z text_bytes (\<lambda>n. n < length text_bytes)))"

definition test_empty_data :: "bool \<Rightarrow> zlib \<Rightarrow> test" where
  "test_empty_data ck z = with_pair 6 (there_and_back ck z [] (\<lambda>n. True))"

section \<open>Statistics\<close>

definition f64_lt :: "f64 \<Rightarrow> f64 \<Rightarrow> bool" where
  "f64_lt x y = (f64_le x y \<and> \<not> f64_le y x)"

definition test_compressor_stats :: "bool \<Rightarrow> zlib \<Rightarrow> test" where
  "test_compressor_stats ck z =
     (let data_bytes = bytes_of (lit ''Hello, World! '') 100 in
      with_pair 6 (op_then (compressing ck z data_bytes) (\<lambda>_.
        assert_that (\<lambda>s. compressor_total_input (zp_compressor s) = of_nat (length data_bytes) \<and>
          0 < compressor_total_output (zp_compressor s) \<and>
          f64_lt (compression_ratio (zp_compressor s)) (f64_lit 1)))))"

definition test_decompressor_stats :: "bool \<Rightarrow> zlib \<Rightarrow> test" where
  "test_decompressor_stats ck z =
     (let data_bytes = bytes_of (lit ''Test '') 100 in
      with_pair 6 (op_then (compressing ck z data_bytes) (\<lambda>compressed.
        op_then (if length compressed < length data_bytes then decompressing ck z compressed
                 else op_return compressed) (\<lambda>decompressed.
        assert_that (\<lambda>s. decompressed = data_bytes \<and> (length compressed < length data_bytes \<longrightarrow>
          decompressor_total_input (zp_decompressor s) = of_nat (length compressed) \<and>
          decompressor_total_output (zp_decompressor s) = of_nat (length data_bytes) \<and>
          f64_lt (f64_lit 1) (decompression_ratio (zp_decompressor s))))))))"

definition reset_compressor :: "(zlib_pair, unit) op" where
  "reset_compressor = op_update (zp_compressor_update compressor_reset)"

definition test_compressor_reset :: "bool \<Rightarrow> zlib \<Rightarrow> test" where
  "test_compressor_reset ck z =
     (let data = bytes_of (lit ''Test '') 100 in
      with_pair 6 (op_then (compressing ck z data) (\<lambda>_ s.
        let initial_input = compressor_total_input (zp_compressor s) in
        op_then reset_compressor (\<lambda>_.
        op_then (assert_that (\<lambda>s. compressor_total_input (zp_compressor s) = 0 \<and>
          compressor_total_output (zp_compressor s) = 0)) (\<lambda>_.
        op_then (compressing ck z data) (\<lambda>_.
        assert_that (\<lambda>s. compressor_total_input (zp_compressor s) = initial_input)))) s)))"

definition test_decompressor_reset :: "bool \<Rightarrow> zlib \<Rightarrow> test" where
  "test_decompressor_reset ck z =
     (let data = bytes_of (lit ''Test '') 100 in
      with_pair 6 (op_then (compressing ck z data) (\<lambda>compressed.
        if length compressed < length data
        then op_then (decompressing ck z compressed) (\<lambda>_ s.
          let initial_input = decompressor_total_input (zp_decompressor s);
              initial_output = decompressor_total_output (zp_decompressor s)
          in op_then (op_update (zp_decompressor_update decompressor_reset)) (\<lambda>_.
             op_then (assert_that (\<lambda>s. decompressor_total_input (zp_decompressor s) = 0 \<and>
               decompressor_total_output (zp_decompressor s) = 0)) (\<lambda>_.
             op_then (decompressing ck z compressed) (\<lambda>_.
             assert_that (\<lambda>s. decompressor_total_input (zp_decompressor s) = initial_input \<and>
               decompressor_total_output (zp_decompressor s) = initial_output)))) s)
        else op_return ())))"

definition test_no_compression_level :: "bool \<Rightarrow> zlib \<Rightarrow> test" where
  "test_no_compression_level ck z =
     (let data_bytes = bytes_of (lit ''Test data '') 100 in
      with_pair 0 (op_then (compressing ck z data_bytes) (\<lambda>compressed.
        assert_that (\<lambda>_. length data_bytes \<le> length compressed \<or> length compressed < length data_bytes))))"

text \<open>A fresh decompressor for each message.\<close>

fun each_message :: "bool \<Rightarrow> zlib \<Rightarrow> bytes list \<Rightarrow> (zlib_pair, unit) op" where
  "each_message ck z [] = op_return ()"
| "each_message ck z (msg # msgs) =
     op_then (compressing ck z msg) (\<lambda>compressed.
     op_then (if length compressed < length msg
              then op_then (op_update (zp_decompressor_update (\<lambda>_. decompressor_new))) (\<lambda>_.
                op_then (decompressing ck z compressed) (\<lambda>decompressed. assert_that (\<lambda>_. decompressed = msg)))
              else assert_that (\<lambda>_. compressed = msg)) (\<lambda>_.
     each_message ck z msgs))"

definition test_compress_decompress_multiple_messages :: "bool \<Rightarrow> zlib \<Rightarrow> test" where
  "test_compress_decompress_multiple_messages ck z =
     (let messages = [bytes_of (lit ''Message 1 '') 100, bytes_of (lit ''Message 2 '') 200, bytes_of (lit ''Message 3 '') 150] in
      with_pair 6 (op_then (each_message ck z messages) (\<lambda>_.
        assert_that (\<lambda>s. 0 < compressor_total_input (zp_compressor s)))))"

section \<open>They pass\<close>

text \<open>An encoder that takes the data and answers fewer than \<open>k\<close> bytes, at least one.\<close>

definition deflates :: "zlib \<Rightarrow> u8 \<Rightarrow> bytes \<Rightarrow> nat \<Rightarrow> bool" where
  "deflates z l b k = (z_write z l b = None \<and> (\<exists>out. z_finish z l b = Inr out \<and> out \<noteq> [] \<and> length out < k))"

definition started :: "u8 \<Rightarrow> zlib_pair \<Rightarrow> bool" where
  "started l s = (s = \<lparr>zp_compressor = \<lparr>cm_config = compression_config_default\<lparr>cc_level := l\<rparr>, cm_total_in = 0, cm_total_out = 0\<rparr>,
     zp_decompressor = decompressor_new\<rparr>)"

lemma with_pair_eq:
  assumes "l \<le> 9"
  shows "with_pair l t = snd (t \<lparr>zp_compressor = \<lparr>cm_config = compression_config_default\<lparr>cc_level := l\<rparr>,
      cm_total_in = 0, cm_total_out = 0\<rparr>, zp_decompressor = decompressor_new\<rparr>)"
  using assms
  by (simp add: with_pair_def compressor_with_level_def with_level_def MAX_COMPRESSION_LEVEL_def compressor_new_def
      unwrap_def run_test_def compression_config_default_def)

lemma below_threshold:
  assumes "length b < cc_threshold (cm_config (zp_compressor s))"
  shows "compressing ck z b s = (s, Ret b)"
  using assms by (cases s) (simp add: compressing_def unwrapping_def op_then_def op_on_def compress_def unwrap_def)

lemma deflated:
  assumes "zlib_ok z" and "deflates z l b k" and "k \<le> length b" and "length b < 2 ^ 32" and "1024 \<le> length b"
    and "cm_config (zp_compressor s) = compression_config_default\<lparr>cc_level := l\<rparr>"
    and "unat (cm_total_in (zp_compressor s)) < 2 ^ 32" and "unat (cm_total_out (zp_compressor s)) < 2 ^ 32"
  shows "\<exists>out. compressing ck z b s =
      (s\<lparr>zp_compressor := (zp_compressor s)
          \<lparr>cm_total_in := cm_total_in (zp_compressor s) + of_nat (length b),
           cm_total_out := cm_total_out (zp_compressor s) + of_nat (length out)\<rparr>\<rparr>, Ret out) \<and>
    out \<noteq> [] \<and> length out < k \<and> z_read z out = Inr b"
proof -
  obtain out where out: "z_write z l b = None" "z_finish z l b = Inr out" "out \<noteq> []" "length out < k"
    using assms(2) by (auto simp: deflates_def)
  have len: "unat (of_nat (length b) :: u64) = length b" "unat (of_nat (length out) :: u64) = length out"
    using assms(3,4) out(4) by (simp_all add: unat_of_nat)
  have "z_read z out = Inr b" using assms(1) out(2) by (auto simp: zlib_ok_def)
  moreover have "compress ck z b (zp_compressor s) = ((zp_compressor s)
      \<lparr>cm_total_in := cm_total_in (zp_compressor s) + of_nat (length b),
       cm_total_out := cm_total_out (zp_compressor s) + of_nat (length out)\<rparr>, Ret (Ok out))"
    using assms(3-8) out len
    by (simp add: compress_def op_then_def op_return_def op_add_fits compression_config_default_def
        DEFAULT_COMPRESSION_THRESHOLD_def)
  ultimately show ?thesis
    using out by (intro exI [of _ out]) (simp add: compressing_def unwrapping_def op_then_def op_on_def unwrap_def)
qed

lemma inflated:
  assumes "z_read z out = Inr b" and "length b < 2 ^ 32" and "length out < 2 ^ 32"
    and "zp_decompressor s = decompressor_new"
  shows "decompressing ck z out s =
    (s\<lparr>zp_decompressor := \<lparr>dm_total_in = of_nat (length out), dm_total_out = of_nat (length b)\<rparr>\<rparr>, Ret b)"
  using assms
  by (simp add: decompressing_def unwrapping_def op_then_def op_on_def decompress_def decompressor_new_def op_add_def
      add_ck_def op_return_def unwrap_def unat_of_nat)

text \<open>A round trip passes with any bound that the deflated data keeps.\<close>

lemma trip_passes:
  assumes "zlib_ok z" and "deflates z l b k" and "k \<le> length b" and "length b < 2 ^ 32" and "1024 \<le> length b"
    and "l \<le> 9" and "\<not> (\<exists>n < k. \<not> small n)"
  shows "passes (with_pair l (there_and_back ck z b small))"
proof -
  let ?s = "\<lparr>zp_compressor = \<lparr>cm_config = compression_config_default\<lparr>cc_level := l\<rparr>, cm_total_in = 0, cm_total_out = 0\<rparr>,
      zp_decompressor = decompressor_new\<rparr>"
  obtain out where out: "compressing ck z b ?s =
      (?s\<lparr>zp_compressor := (zp_compressor ?s)\<lparr>cm_total_in := of_nat (length b), cm_total_out := of_nat (length out)\<rparr>\<rparr>, Ret out)"
      "length out < k" "z_read z out = Inr b"
    using deflated [OF assms(1-5), of ?s ck] by auto
  have "length out < 2 ^ 32" using out(2) assms(3,4) by simp
  with out assms(4,6,7) show ?thesis
    by (auto simp: with_pair_eq there_and_back_def op_then_def inflated assert_that_def passes_def)
qed

lemma test_data_lengths:
  "length (bytes_of (lit ''Hello, World! '') 100) = 1400" "length (bytes_of (lit ''A'') 10000) = 10000"
  "length (bytes_of (lit ''Repeated pattern '') 1000) = 17000" "length (bytes_of (lit ''Test data '') 1000) = 10000"
  "length (bytes_of unicode_text 100) = 5800" "length (bytes_of (lit ''Test '') 100) = 500"
  "length (bytes_of (lit ''Test data '') 100) = 1000" "length (bytes_of (lit ''Message 1 '') 100) = 1000"
  "length (bytes_of (lit ''Message 2 '') 200) = 2000" "length (bytes_of (lit ''Message 3 '') 150) = 1500"
  by (simp_all add: bytes_of_def length_concat sum_list_replicate utf8_encode_def utf8_char_def lit_def unicode_text_def)

lemma trip_tests:
  assumes "zlib_ok z"
  shows "deflates z 6 (bytes_of (lit ''Hello, World! '') 100) 1400 \<Longrightarrow> passes (test_compress_decompress ck z)"
    and "deflates z 6 (bytes_of (lit ''A'') 10000) 1000 \<Longrightarrow> passes (test_compress_repeated_data ck z)"
    and "deflates z 6 (map (\<lambda>i. of_nat (i mod 255)) [0..<10000]) 10000 \<Longrightarrow> passes (test_binary_data_compression ck z)"
    and "deflates z 9 (bytes_of (lit ''Repeated pattern '') 1000) 3400 \<Longrightarrow> passes (test_high_compression_level ck z)"
    and "deflates z 1 (bytes_of (lit ''Test data '') 1000) 10000 \<Longrightarrow> passes (test_fast_compression_level ck z)"
    and "deflates z 6 (bytes_of unicode_text 100) 5800 \<Longrightarrow> passes (test_unicode_text_compression ck z)"
  using assms
  by (simp_all add: test_compress_decompress_def test_compress_repeated_data_def test_binary_data_compression_def
      test_high_compression_level_def test_fast_compression_level_def test_unicode_text_compression_def
      trip_passes test_data_lengths)

text \<open>The empty message stays below the threshold and is decompressed although nothing compressed it.\<close>

lemma empty_data_test: "z_read z [] = Inr [] \<Longrightarrow> passes (test_empty_data ck z)"
  by (simp add: test_empty_data_def with_pair_eq there_and_back_def op_then_def below_threshold
      compression_config_default_def DEFAULT_COMPRESSION_THRESHOLD_def inflated assert_that_def passes_def)

text \<open>Messages of 500 and 1000 bytes are below the threshold: these tests pass for every \<^verbatim>\<open>zlib\<close>, a
  wrong one included, and the two resets reset counters that are zero.\<close>

lemma untouched_tests:
  "passes (test_decompressor_stats ck z)" "passes (test_compressor_reset ck z)"
  "passes (test_decompressor_reset ck z)" "passes (test_no_compression_level ck z)"
  by (simp_all add: test_decompressor_stats_def test_compressor_reset_def test_decompressor_reset_def
      test_no_compression_level_def with_pair_eq op_then_def below_threshold test_data_lengths Let_def
      compression_config_default_def DEFAULT_COMPRESSION_THRESHOLD_def assert_that_def passes_def op_return_def
      reset_compressor_def op_update_def compressor_reset_def compressor_total_input_def compressor_total_output_def)

text \<open>The ratio of fewer to 1400 bytes stays below one after rounding.\<close>

lemma ratio_below_one:
  assumes "n < 1400"
  shows "f64_lt (f64_div (f64_of_u64 (of_nat n)) (f64_of_u64 1400)) (f64_lit 1)"
proof -
  have "uint (of_nat n :: u64) = int n" using assms by (simp add: unsigned_of_nat take_bit_nat_eq_self)
  then have n: "f64_of_u64 (of_nat n) = Fin (of_nat n)" "f64_of_u64 1400 = Fin 1400"
    using f64_of_int_exact [of "int n"] f64_of_int_exact [of 1400] assms by (simp_all add: f64_of_u64_def)
  have one: "f64_lit 1 = Fin 1"
    using f64_of_int_exact [of 1] by (simp add: f64_of_int_def)
  have le: "(of_nat n :: rat) / 1400 \<le> 1399 / 1400" using assms by (simp add: of_nat_le_iff [of n 1399, simplified])
  have "fround (of_nat n / 1400) = Fin (fl (of_nat n / 1400))"
    using fround_finite [of "of_nat n / 1400" 0] le by simp
  moreover have "fl (of_nat n / 1400) \<le> fl (1399 / 1400)" using le by (rule fl_mono)
  moreover have "fl (1399 / 1400) < 1"
    using fl_normal [of "- 1" "1399 / 1400"] by (simp add: round_even_eval Let_def power_int_minus)
  ultimately show ?thesis by (simp add: n one f64_lt_def)
qed

lemma compressor_stats_test:
  assumes "zlib_ok z" and "deflates z 6 (bytes_of (lit ''Hello, World! '') 100) 1400"
  shows "passes (test_compressor_stats ck z)"
proof -
  let ?s = "\<lparr>zp_compressor = \<lparr>cm_config = compression_config_default\<lparr>cc_level := 6\<rparr>, cm_total_in = 0, cm_total_out = 0\<rparr>,
      zp_decompressor = decompressor_new\<rparr>"
  obtain out where out: "compressing ck z (bytes_of (lit ''Hello, World! '') 100) ?s =
      (?s\<lparr>zp_compressor := (zp_compressor ?s)\<lparr>cm_total_in := 1400, cm_total_out := of_nat (length out)\<rparr>\<rparr>, Ret out)"
      "out \<noteq> []" "length out < 1400"
    using deflated [OF assms, of ?s ck] by (auto simp: test_data_lengths)
  have "0 < (of_nat (length out) :: u64)"
    using out(2,3) by (simp add: word_less_nat_alt unat_of_nat)
  then show ?thesis
    using out(1) ratio_below_one [OF out(3)]
    by (simp add: test_compressor_stats_def with_pair_eq op_then_def test_data_lengths assert_that_def passes_def
        compressor_total_input_def compressor_total_output_def compression_ratio_def)
qed

text \<open>One message after the other.\<close>

lemma message_steps:
  assumes "zlib_ok z" and "length msg < 2 ^ 32"
    and "length msg < 1024 \<or> deflates z 6 msg (length msg)"
    and "cm_config (zp_compressor s) = compression_config_default\<lparr>cc_level := 6\<rparr>"
    and "unat (cm_total_in (zp_compressor s)) < 2 ^ 32" and "unat (cm_total_out (zp_compressor s)) < 2 ^ 32"
  shows "\<exists>s1 n. each_message ck z (msg # msgs) s = each_message ck z msgs s1 \<and>
    cm_config (zp_compressor s1) = cm_config (zp_compressor s) \<and> n \<le> length msg \<and>
    cm_total_in (zp_compressor s1) =
      cm_total_in (zp_compressor s) + (if length msg < 1024 then 0 else of_nat (length msg)) \<and>
    cm_total_out (zp_compressor s1) = cm_total_out (zp_compressor s) + of_nat n"
proof (cases "length msg < 1024")
  case True
  then have "compressing ck z msg s = (s, Ret msg)"
    by (intro below_threshold) (simp add: assms(4) compression_config_default_def DEFAULT_COMPRESSION_THRESHOLD_def)
  then show ?thesis
    using True by (intro exI [of _ s] exI [of _ 0]) (simp add: op_then_def assert_that_def)
next
  case False
  then obtain out where out: "compressing ck z msg s =
      (s\<lparr>zp_compressor := (zp_compressor s)
          \<lparr>cm_total_in := cm_total_in (zp_compressor s) + of_nat (length msg),
           cm_total_out := cm_total_out (zp_compressor s) + of_nat (length out)\<rparr>\<rparr>, Ret out)"
      "length out < length msg" "z_read z out = Inr msg"
    using deflated [OF assms(1) _ le_refl assms(2) _ assms(4-6), of ck] assms(3) by auto
  then have "length out < 2 ^ 32" using assms(2) by simp
  let ?s1 = "s\<lparr>zp_compressor := (zp_compressor s)
          \<lparr>cm_total_in := cm_total_in (zp_compressor s) + of_nat (length msg),
           cm_total_out := cm_total_out (zp_compressor s) + of_nat (length out)\<rparr>,
          zp_decompressor := \<lparr>dm_total_in = of_nat (length out), dm_total_out = of_nat (length msg)\<rparr>\<rparr>"
  have "each_message ck z (msg # msgs) s = each_message ck z msgs ?s1"
    using out assms(2) \<open>length out < 2 ^ 32\<close>
    by (simp add: op_then_def op_update_def inflated assert_that_def)
  then show ?thesis using False out(2) by (intro exI [of _ ?s1] exI [of _ "length out"]) simp
qed

lemma multiple_messages_test:
  assumes "zlib_ok z" and "deflates z 6 (bytes_of (lit ''Message 2 '') 200) 2000" and "deflates z 6 (bytes_of (lit ''Message 3 '') 150) 1500"
  shows "passes (test_compress_decompress_multiple_messages ck z)"
proof -
  let ?s = "\<lparr>zp_compressor = \<lparr>cm_config = compression_config_default\<lparr>cc_level := 6\<rparr>, cm_total_in = 0, cm_total_out = 0\<rparr>,
      zp_decompressor = decompressor_new\<rparr>"
  let ?m1 = "bytes_of (lit ''Message 1 '') 100" and ?m2 = "bytes_of (lit ''Message 2 '') 200" and ?m3 = "bytes_of (lit ''Message 3 '') 150"
  obtain s1 n1 where s1: "each_message ck z [?m1, ?m2, ?m3] ?s = each_message ck z [?m2, ?m3] s1"
      "cm_config (zp_compressor s1) = compression_config_default\<lparr>cc_level := 6\<rparr>" "n1 \<le> 1000"
      "cm_total_in (zp_compressor s1) = 0" "cm_total_out (zp_compressor s1) = of_nat n1"
    using message_steps [OF assms(1), of ?m1 ?s ck "[?m2, ?m3]"] by (auto simp: test_data_lengths simp del: each_message.simps)
  have "unat (of_nat n1 :: u64) = n1" using s1(3) by (simp add: unat_of_nat)
  then obtain s2 n2 where s2: "each_message ck z [?m2, ?m3] s1 = each_message ck z [?m3] s2"
      "cm_config (zp_compressor s2) = compression_config_default\<lparr>cc_level := 6\<rparr>" "n2 \<le> 2000"
      "cm_total_in (zp_compressor s2) = 2000" "cm_total_out (zp_compressor s2) = of_nat n1 + of_nat n2"
    using message_steps [OF assms(1), of ?m2 s1 ck "[?m3]"] s1(2-5) assms(2)
    by (auto simp: test_data_lengths simp del: each_message.simps)
  have "unat (of_nat n1 + of_nat n2 :: u64) < 2 ^ 32"
    using s1(3) s2(3) by (simp add: unat_word_ariths unat_of_nat)
  then obtain s3 n3 where "each_message ck z [?m3] s2 = each_message ck z [] s3" "cm_total_in (zp_compressor s3) = 3500"
    using message_steps [OF assms(1), of ?m3 s2 ck "[]"] s2(2-5) assms(3)
    by (auto simp: test_data_lengths simp del: each_message.simps)
  with s1(1) s2(1) show ?thesis
    by (simp add: test_compress_decompress_multiple_messages_def with_pair_eq op_then_def op_return_def assert_that_def
        passes_def compressor_total_input_def del: each_message.simps(2))
qed

text \<open>The hypotheses can hold together: an encoder that numbers the messages of a list.\<close>

definition indexed_zlib :: "bytes list \<Rightarrow> zlib" where
  "indexed_zlib ds =
     \<lparr>z_write = (\<lambda>l b. None),
      z_finish = (\<lambda>l b. if b \<in> set ds then Inr [of_nat (length (takeWhile (\<lambda>d. d \<noteq> b) ds))] else Inr (0 # 0 # b)),
      z_read = (\<lambda>b. case b of
          [] \<Rightarrow> Inr []
        | [i] \<Rightarrow> (if unat i < length ds then Inr (ds ! unat i) else Inr [])
        | x # y # r \<Rightarrow> Inr r)\<rparr>"

lemma indexed_zlib_deflates:
  assumes "length ds < 256"
  shows "zlib_ok (indexed_zlib ds)" and "b \<in> set ds \<Longrightarrow> 1 < k \<Longrightarrow> deflates (indexed_zlib ds) l b k"
proof -
  have "ds ! (length (takeWhile (\<lambda>d. d \<noteq> b) ds) mod 256) = b" and "length (takeWhile (\<lambda>d. d \<noteq> b) ds) mod 256 < length ds"
    if "b \<in> set ds" for b
  proof -
    have less: "length (takeWhile (\<lambda>d. d \<noteq> b) ds) < length ds"
      using that by (metis (mono_tags) length_takeWhile_le linorder_neqE_nat not_less takeWhile_eq_all_conv
          take_all takeWhile_eq_take)
    then show "length (takeWhile (\<lambda>d. d \<noteq> b) ds) mod 256 < length ds" using assms by simp
    show "ds ! (length (takeWhile (\<lambda>d. d \<noteq> b) ds) mod 256) = b"
      using nth_length_takeWhile [OF less] less assms by simp
  qed
  then show "zlib_ok (indexed_zlib ds)"
    using assms by (auto simp: zlib_ok_def indexed_zlib_def unat_of_nat)
  show "b \<in> set ds \<Longrightarrow> 1 < k \<Longrightarrow> deflates (indexed_zlib ds) l b k"
    by (simp add: deflates_def indexed_zlib_def)
qed

end
