(* ===== verification/Tests_Http.thy ===== *)
theory Tests_Http
  imports Tests_Headers
begin

text \<open>
  The unit tests of \<^verbatim>\<open>src/src/headers.rs\<close> on the conversions to and from \<^verbatim>\<open>http::HeaderMap\<close>, for every
  library that behaves as \<^verbatim>\<open>http\<close> is documented to.
\<close>

section \<open>The other map\<close>

definition http_put ::
  "('n, 'v, 'h) http_api \<Rightarrow> ('n \<Rightarrow> 'v \<Rightarrow> 'h \<Rightarrow> 'h) \<Rightarrow> rstr \<Rightarrow> rstr \<Rightarrow> 'h \<Rightarrow> 'h outcome" where
  "http_put A put k v h =
     (case http_name A k of
        Inl e \<Rightarrow> Panic
      | Inr n \<Rightarrow> (case http_value A v of Inl e \<Rightarrow> Panic | Inr w \<Rightarrow> Ret (put n w h)))"

text \<open>\<^verbatim>\<open>map[name]\<close>, which panics when there is no value, and the values of a name.\<close>

definition http_all :: "('n, 'v, 'h) http_api \<Rightarrow> rstr \<Rightarrow> 'h \<Rightarrow> rstr option list" where
  "http_all A k h = http_vals A (map ascii_lower k) h"

definition http_index :: "('n, 'v, 'h) http_api \<Rightarrow> rstr \<Rightarrow> 'h \<Rightarrow> rstr option outcome" where
  "http_index A k h = (case http_all A k h of [] \<Rightarrow> Panic | v # vs \<Rightarrow> Ret v)"

section \<open>The tests\<close>

definition test_from_http_header_map :: "('n, 'v, 'h) http_api \<Rightarrow> ('n \<Rightarrow> 'v \<Rightarrow> 'h \<Rightarrow> 'h) \<Rightarrow> unicode \<Rightarrow> test" where
  "test_from_http_header_map A ins u =
     bind_outcome (http_put A ins (lit ''Authorization'') (lit ''Bearer token123'') (http_new A)) (\<lambda>h.
     bind_outcome (http_put A ins (lit ''User-Agent'') (lit ''TestClient/1.0'') h) (\<lambda>h.
     bind_outcome (http_put A (http_append A) (lit ''Set-Cookie'') (lit ''cookie1=value1'') h) (\<lambda>h.
     bind_outcome (http_put A (http_append A) (lit ''Set-Cookie'') (lit ''cookie2=value2'') h) (\<lambda>h.
     let map = from_http_header_map A u h in
     all_of [get_header u (lit ''Authorization'') map = Some (lit ''Bearer token123''),
       get_header u (lit ''User-Agent'') map = Some (lit ''TestClient/1.0'')]))))"

definition test_to_http_header_map :: "('n, 'v, 'h) http_api \<Rightarrow> unicode \<Rightarrow> test" where
  "test_to_http_header_map A u =
     bind_outcome (inserting u (lit ''Authorization'') (lit ''Bearer token123'') header_map_new) (\<lambda>m.
     bind_outcome (inserting u (lit ''User-Agent'') (lit ''TestClient/1.0'') m) (\<lambda>m.
     bind_outcome (appending u (lit ''Set-Cookie'') (lit ''cookie1=value1'') m) (\<lambda>m.
     bind_outcome (appending u (lit ''Set-Cookie'') (lit ''cookie2=value2'') m) (\<lambda>m.
     bind_outcome (unwrap (to_http_header_map A m)) (\<lambda>http_map.
     bind_outcome (http_index A (lit ''Authorization'') http_map) (\<lambda>a.
     bind_outcome (http_index A (lit ''User-Agent'') http_map) (\<lambda>b.
     all_of [a = Some (lit ''Bearer token123''), b = Some (lit ''TestClient/1.0''),
       length (http_all A (lit ''Set-Cookie'') http_map) = 2])))))))"

definition test_http_header_map_roundtrip :: "('n, 'v, 'h) http_api \<Rightarrow> unicode \<Rightarrow> test" where
  "test_http_header_map_roundtrip A u =
     bind_outcome (inserting u (lit ''Authorization'') (lit ''Bearer token123'') header_map_new) (\<lambda>m.
     bind_outcome (inserting u (lit ''X-Custom'') (lit ''custom-value'') m) (\<lambda>m.
     bind_outcome (unwrap (to_http_header_map A m)) (\<lambda>http_map.
     let map2 = from_http_header_map A u http_map in
     all_of [get_header u (lit ''Authorization'') map2 = Some (lit ''Bearer token123''),
       get_header u (lit ''X-Custom'') map2 = Some (lit ''custom-value'')])))"

definition test_http_header_map_from_owned :: "('n, 'v, 'h) http_api \<Rightarrow> ('n \<Rightarrow> 'v \<Rightarrow> 'h \<Rightarrow> 'h) \<Rightarrow> unicode \<Rightarrow> test" where
  "test_http_header_map_from_owned A ins u =
     bind_outcome (http_put A ins (lit ''Authorization'') (lit ''Bearer token123'') (http_new A)) (\<lambda>h.
     all_of [get_header u (lit ''Authorization'') (from_http_owned A u h) = Some (lit ''Bearer token123'')])"

definition test_http_header_map_try_from_owned :: "('n, 'v, 'h) http_api \<Rightarrow> unicode \<Rightarrow> test" where
  "test_http_header_map_try_from_owned A u =
     bind_outcome (inserting u (lit ''Authorization'') (lit ''Bearer token123'') header_map_new) (\<lambda>m.
     bind_outcome (all_of [is_ok (to_http_owned A m)]) (\<lambda>_.
     bind_outcome (unwrap (to_http_owned A m)) (\<lambda>http_map.
     bind_outcome (http_index A (lit ''Authorization'') http_map) (\<lambda>a.
     all_of [a = Some (lit ''Bearer token123'')]))))"

definition test_http_header_map_invalid_value :: "unicode \<Rightarrow> test" where
  "test_http_header_map_invalid_value u =
     (case insert_header u (lit ''X-Invalid'') ((lit ''invalid'') @ [0] @ (lit ''value'')) header_map_new of (m, r) \<Rightarrow>
        bind_outcome (all_of [is_err r]) (\<lambda>_.
        all_of [is_ok (snd (insert_header u (lit ''X-Valid'') (lit ''valid-value'') m))]))"

section \<open>They pass\<close>

text \<open>Beside what the conversions rely on: a name is read in any case and kept in lower case, and \<^verbatim>\<open>insert\<close>
  replaces the values of its name.\<close>

definition http_full_ok :: "('n, 'v, 'h) http_api \<Rightarrow> ('n \<Rightarrow> 'v \<Rightarrow> 'h \<Rightarrow> 'h) \<Rightarrow> bool" where
  "http_full_ok A ins = (http_api_ok A \<and>
     (\<forall>s. ascii_name (map ascii_lower s) \<longrightarrow> (\<exists>n. http_name A s = Inr n \<and> http_name_str A n = map ascii_lower s)) \<and>
     (\<forall>n v h k. http_vals A k (ins n v h) =
        (if http_name_str A n = k then [http_value_str A v] else http_vals A k h)))"

lemma list_http_full: "\<exists>A :: (rstr, rstr, (rstr \<times> rstr) list) http_api. \<exists>ins. http_full_ok A ins"
proof -
  let ?A = "list_http\<lparr>http_name := (\<lambda>s. Inr (map ascii_lower s))\<rparr>"
  have "filter (\<lambda>x. fst x = k \<and> fst x \<noteq> n) h = filter (\<lambda>x. fst x = k) h" if "n \<noteq> k"
    for n k and h :: "(rstr \<times> rstr) list"
    using that by (intro filter_cong) auto
  then have "http_full_ok ?A (\<lambda>n v h. filter (\<lambda>p. fst p \<noteq> n) h @ [(n, v)])"
    by (auto simp: http_full_ok_def http_api_ok_def list_http_def http_vals_def ascii_name_def list_all_iff filter_filter
        conj_commute intro!: map_idI)
  then show ?thesis by blast
qed

lemma put_vals:
  assumes "http_full_ok A ins" and "ascii_name (map ascii_lower k)" and "printable v"
  shows "\<exists>h1. http_put A ins k v h = Ret h1 \<and>
      (\<forall>k'. http_vals A k' h1 = (if k' = map ascii_lower k then [Some v] else http_vals A k' h))"
    and "\<exists>h1. http_put A (http_append A) k v h = Ret h1 \<and>
      (\<forall>k'. http_vals A k' h1 = http_vals A k' h @ (if k' = map ascii_lower k then [Some v] else []))"
proof -
  obtain n where n: "http_name A k = Inr n" "http_name_str A n = map ascii_lower k"
    using assms(1,2) unfolding http_full_ok_def by blast
  obtain w where w: "http_value A v = Inr w" "http_value_str A w = Some v"
    using assms(1,3) unfolding http_full_ok_def http_api_ok_def by blast
  note nw = n w
  from nw show "\<exists>h1. http_put A ins k v h = Ret h1 \<and>
      (\<forall>k'. http_vals A k' h1 = (if k' = map ascii_lower k then [Some v] else http_vals A k' h))"
    using assms(1) by (simp add: http_put_def http_full_ok_def)
  show "\<exists>h1. http_put A (http_append A) k v h = Ret h1 \<and>
      (\<forall>k'. http_vals A k' h1 = http_vals A k' h @ (if k' = map ascii_lower k then [Some v] else []))"
    using assms(1) nw by (simp add: http_put_def http_full_ok_def http_api_ok_def)
qed

lemma reads_back:
  assumes "\<forall>k. http_vals A k h = map Some (f k)"
    and "\<forall>k. f k \<noteq> [] \<longrightarrow> ascii_name k \<and> (\<forall>v \<in> set (f k). printable v \<and> trim v = v)"
  shows "stored k (from_http A u h) = f k"
proof -
  have "ascii_name (http_name_str A (fst p)) \<and> (\<exists>s. http_value_str A (snd p) = Some s \<and> printable s \<and> trim s = s)"
    if "p \<in> set (http_iter A h)" for p
  proof -
    have "http_value_str A (snd p) \<in> set (http_vals A (http_name_str A (fst p)) h)"
      using that by (auto simp: http_vals_def)
    then obtain v where v: "http_value_str A (snd p) = Some v" "v \<in> set (f (http_name_str A (fst p)))"
      using assms(1) by auto
    then have "f (http_name_str A (fst p)) \<noteq> []" by auto
    with v assms(2) show ?thesis by blast
  qed
  then have "map Some (stored k (from_http A u h)) = http_vals A k h" by (intro from_http_stored) blast
  with assms(1) show ?thesis by (simp add: inj_map_eq_map)
qed

lemma get_header_stored: "get_header u n m = first (stored (to_lowercase (snd u) n) m)"
  by (simp add: get_header_def stored_def first_def split: option.split)

lemma invalid_value_test: "passes (test_http_header_map_invalid_value u)"
  by (simp add: test_http_header_map_invalid_value_def header_map_eval)

text \<open>The names and values of the tests.\<close>

lemma test_names:
  "map ascii_lower (lit ''Authorization'') = (lit ''authorization'')" "map ascii_lower (lit ''User-Agent'') = (lit ''user-agent'')"
  "map ascii_lower (lit ''Set-Cookie'') = (lit ''set-cookie'')" "map ascii_lower (lit ''X-Custom'') = (lit ''x-custom'')"
  "ascii_name (lit ''authorization'')" "ascii_name (lit ''user-agent'')" "ascii_name (lit ''set-cookie'')" "ascii_name (lit ''x-custom'')"
  "to_lowercase ul (lit ''Authorization'') = (lit ''authorization'')" "to_lowercase ul (lit ''User-Agent'') = (lit ''user-agent'')"
  "to_lowercase ul (lit ''Set-Cookie'') = (lit ''set-cookie'')" "to_lowercase ul (lit ''X-Custom'') = (lit ''x-custom'')"
  by (simp_all add: lit_def ascii_lower_def ascii_name_def ascii_alnum_def to_lowercase_def)

lemma test_values:
  "printable (lit ''Bearer token123'') \<and> trim (lit ''Bearer token123'') = (lit ''Bearer token123'')"
  "printable (lit ''TestClient/1.0'') \<and> trim (lit ''TestClient/1.0'') = (lit ''TestClient/1.0'')"
  "printable (lit ''cookie1=value1'') \<and> trim (lit ''cookie1=value1'') = (lit ''cookie1=value1'')"
  "printable (lit ''cookie2=value2'') \<and> trim (lit ''cookie2=value2'') = (lit ''cookie2=value2'')"
  "printable (lit ''custom-value'') \<and> trim (lit ''custom-value'') = (lit ''custom-value'')"
  by (simp_all add: lit_def printable_def trim_def is_whitespace_def)

lemma names_differ:
  "(lit ''authorization'') \<noteq> (lit ''user-agent'')" "(lit ''user-agent'') \<noteq> (lit ''authorization'')" "(lit ''authorization'') \<noteq> (lit ''set-cookie'')"
  "(lit ''set-cookie'') \<noteq> (lit ''authorization'')" "(lit ''user-agent'') \<noteq> (lit ''set-cookie'')" "(lit ''set-cookie'') \<noteq> (lit ''user-agent'')"
  "(lit ''authorization'') \<noteq> (lit ''x-custom'')" "(lit ''x-custom'') \<noteq> (lit ''authorization'')"
  by (simp_all add: lit_def)

lemma new_vals: "http_full_ok A ins \<Longrightarrow> http_vals A k (http_new A) = []"
  by (simp add: http_full_ok_def http_api_ok_def http_vals_def)

lemma from_http_tests:
  assumes "http_full_ok A ins"
  shows "passes (test_from_http_header_map A ins u)" and "passes (test_http_header_map_from_owned A ins u)"
proof -
  note put = put_vals [OF assms, of "(lit ''Authorization'')" "(lit ''Bearer token123'')", unfolded test_names]
    put_vals [OF assms, of "(lit ''User-Agent'')" "(lit ''TestClient/1.0'')", unfolded test_names]
    put_vals [OF assms, of "(lit ''Set-Cookie'')" "(lit ''cookie1=value1'')", unfolded test_names]
    put_vals [OF assms, of "(lit ''Set-Cookie'')" "(lit ''cookie2=value2'')", unfolded test_names]
  obtain h1 where h1: "http_put A ins (lit ''Authorization'') (lit ''Bearer token123'') (http_new A) = Ret h1"
      "\<forall>k. http_vals A k h1 = (if k = (lit ''authorization'') then [Some (lit ''Bearer token123'')] else [])"
    using put(1) [of "http_new A"] test_values new_vals [OF assms] by (auto simp: test_names)
  obtain h2 where h2: "http_put A ins (lit ''User-Agent'') (lit ''TestClient/1.0'') h1 = Ret h2"
      "\<forall>k. http_vals A k h2 = (if k = (lit ''user-agent'') then [Some (lit ''TestClient/1.0'')] else http_vals A k h1)"
    using put(3) [of h1] test_values by (auto simp: test_names)
  obtain h3 where h3: "http_put A (http_append A) (lit ''Set-Cookie'') (lit ''cookie1=value1'') h2 = Ret h3"
      "\<forall>k. http_vals A k h3 = http_vals A k h2 @ (if k = (lit ''set-cookie'') then [Some (lit ''cookie1=value1'')] else [])"
    using put(6) [of h2] test_values by (auto simp: test_names)
  obtain h4 where h4: "http_put A (http_append A) (lit ''Set-Cookie'') (lit ''cookie2=value2'') h3 = Ret h4"
      "\<forall>k. http_vals A k h4 = http_vals A k h3 @ (if k = (lit ''set-cookie'') then [Some (lit ''cookie2=value2'')] else [])"
    using put(8) [of h3] test_values by (auto simp: test_names)
  let ?f1 = "\<lambda>k. if k = (lit ''authorization'') then [lit ''Bearer token123''] else []"
  let ?f4 = "\<lambda>k. (if k = (lit ''user-agent'') then [lit ''TestClient/1.0''] else ?f1 k) @
      (if k = (lit ''set-cookie'') then [lit ''cookie1=value1'', lit ''cookie2=value2''] else [])"
  have one: "stored k (from_http A u h1) = ?f1 k" for k
    by (rule reads_back) (use h1(2) test_names test_values in auto)
  have all: "stored k (from_http A u h4) = ?f4 k" for k
    by (rule reads_back) (use h1(2) h2(2) h3(2) h4(2) test_names test_values in auto)
  show "passes (test_from_http_header_map A ins u)"
    by (simp add: test_from_http_header_map_def h1(1) h2(1) h3(1) h4(1) from_http_header_map_def get_header_stored
        test_names all names_differ first_def all_of_def passes_def)
  show "passes (test_http_header_map_from_owned A ins u)"
    by (simp add: test_http_header_map_from_owned_def h1(1) from_http_owned_def get_header_stored test_names one first_def
        all_of_def passes_def)
qed

text \<open>What the maps of the tests become.\<close>

lemma to_http_vals:
  assumes "http_full_ok A ins" and "list_all (\<lambda>e. ascii_name (fst e) \<and> list_all printable (snd e)) (inner m)"
    and "distinct (map fst (inner m))"
  shows "\<exists>h. to_http A m = Ok h \<and>
    (\<forall>k. http_vals A k h = (case map_of (inner m) k of None \<Rightarrow> [] | Some vs \<Rightarrow> map Some vs))"
proof -
  have "http_api_ok A" using assms(1) by (simp add: http_full_ok_def)
  from to_http_entries_run [OF this assms(2), of "http_new A"] show ?thesis
    by (auto simp: to_http_def iter_all_def new_vals [OF assms(1)] concat_entry [OF assms(3)])
qed

lemma test_maps:
  "inserting u (lit ''Authorization'') (lit ''Bearer token123'') header_map_new =
     Ret \<lparr>inner = [(lit ''authorization'', [lit ''Bearer token123''])]\<rparr>"
  "inserting u (lit ''User-Agent'') (lit ''TestClient/1.0'') \<lparr>inner = [(lit ''authorization'', [lit ''Bearer token123''])]\<rparr> =
     Ret \<lparr>inner = [(lit ''authorization'', [lit ''Bearer token123'']), (lit ''user-agent'', [lit ''TestClient/1.0''])]\<rparr>"
  "appending u (lit ''Set-Cookie'') (lit ''cookie1=value1'')
       \<lparr>inner = [(lit ''authorization'', [lit ''Bearer token123'']), (lit ''user-agent'', [lit ''TestClient/1.0''])]\<rparr> =
     Ret \<lparr>inner = [(lit ''authorization'', [lit ''Bearer token123'']), (lit ''user-agent'', [lit ''TestClient/1.0'']),
       (lit ''set-cookie'', [lit ''cookie1=value1''])]\<rparr>"
  "appending u (lit ''Set-Cookie'') (lit ''cookie2=value2'') \<lparr>inner = [(lit ''authorization'', [lit ''Bearer token123'']),
       (lit ''user-agent'', [lit ''TestClient/1.0'']), (lit ''set-cookie'', [lit ''cookie1=value1''])]\<rparr> =
     Ret \<lparr>inner = [(lit ''authorization'', [lit ''Bearer token123'']), (lit ''user-agent'', [lit ''TestClient/1.0'']),
       (lit ''set-cookie'', [lit ''cookie1=value1'', lit ''cookie2=value2''])]\<rparr>"
  "inserting u (lit ''X-Custom'') (lit ''custom-value'') \<lparr>inner = [(lit ''authorization'', [lit ''Bearer token123''])]\<rparr> =
     Ret \<lparr>inner = [(lit ''authorization'', [lit ''Bearer token123'']), (lit ''x-custom'', [lit ''custom-value''])]\<rparr>"
  by (simp_all add: header_map_eval)

lemma to_http_tests:
  assumes "http_full_ok A ins"
  shows "passes (test_to_http_header_map A u)" and "passes (test_http_header_map_roundtrip A u)"
    and "passes (test_http_header_map_try_from_owned A u)"
proof -
  have one: "\<exists>h. to_http A \<lparr>inner = [(lit ''authorization'', [lit ''Bearer token123''])]\<rparr> = Ok h \<and>
      (\<forall>k. http_vals A k h = (if k = (lit ''authorization'') then [Some (lit ''Bearer token123'')] else []))"
    using to_http_vals [OF assms, of "\<lparr>inner = [(lit ''authorization'', [lit ''Bearer token123''])]\<rparr>"] test_values
    by (auto simp: test_names)
  show "passes (test_http_header_map_try_from_owned A u)"
    using one by (auto simp: test_http_header_map_try_from_owned_def test_maps to_http_owned_def is_ok_def all_of_def
      unwrap_def http_index_def http_all_def test_names passes_def)
  obtain h where h: "to_http A \<lparr>inner = [(lit ''authorization'', [lit ''Bearer token123'']), (lit ''user-agent'', [lit ''TestClient/1.0'']),
       (lit ''set-cookie'', [lit ''cookie1=value1'', lit ''cookie2=value2''])]\<rparr> = Ok h"
      "http_vals A (lit ''authorization'') h = [Some (lit ''Bearer token123'')]" "http_vals A (lit ''user-agent'') h = [Some (lit ''TestClient/1.0'')]"
      "http_vals A (lit ''set-cookie'') h = [Some (lit ''cookie1=value1''), Some (lit ''cookie2=value2'')]"
    using to_http_vals [OF assms, of "\<lparr>inner = [(lit ''authorization'', [lit ''Bearer token123'']), (lit ''user-agent'', [lit ''TestClient/1.0'']),
       (lit ''set-cookie'', [lit ''cookie1=value1'', lit ''cookie2=value2''])]\<rparr>"] test_values
    by (auto simp: test_names names_differ)
  show "passes (test_to_http_header_map A u)"
    by (simp add: test_to_http_header_map_def test_maps to_http_header_map_def h unwrap_def http_index_def http_all_def
        test_names all_of_def passes_def)
  obtain h' where h': "to_http A \<lparr>inner = [(lit ''authorization'', [lit ''Bearer token123'']), (lit ''x-custom'', [lit ''custom-value''])]\<rparr> = Ok h'"
      "\<forall>k. http_vals A k h' = map Some (if k = (lit ''authorization'') then [lit ''Bearer token123'']
         else if k = (lit ''x-custom'') then [lit ''custom-value''] else [])"
    using to_http_vals [OF assms, of "\<lparr>inner = [(lit ''authorization'', [lit ''Bearer token123'']), (lit ''x-custom'', [lit ''custom-value''])]\<rparr>"]
      test_values
    by (auto simp: test_names names_differ)
  have "stored k (from_http A u h') = (if k = (lit ''authorization'') then [lit ''Bearer token123'']
      else if k = (lit ''x-custom'') then [lit ''custom-value''] else [])" for k
    by (rule reads_back [OF h'(2)]) (use test_names test_values in auto)
  then show "passes (test_http_header_map_roundtrip A u)"
    by (simp add: test_http_header_map_roundtrip_def test_maps to_http_header_map_def h'(1) unwrap_def
        from_http_header_map_def get_header_stored test_names names_differ first_def all_of_def passes_def)
qed

end
