(* ===== verification/Tests_Waiting.thy ===== *)
theory Tests_Waiting
  imports Tests_RateLimit Tests_Messages
begin

text \<open>
  The unit tests of \<^verbatim>\<open>src/src/ratelimit.rs\<close> that spawn threads or wait, over the readings of the clock,
  and the one of \<^verbatim>\<open>src/src/message.rs\<close> on JSON, for any pair of functions that are inverse on its value.
\<close>

section \<open>Threads\<close>

text \<open>The limiter is under one lock, so that ten threads of ten calls are a hundred calls in some order, and
  all the calls are the same.\<close>

definition test_concurrent_acquire :: "(nat \<Rightarrow> acquire_clock) \<Rightarrow> u64 \<Rightarrow> u64 \<Rightarrow> u64 \<Rightarrow> test" where
  "test_concurrent_acquire q created t1 t2 =
     run_test (limiter created (with_burst_size 100 (with_messages_per_second 1000 rate_limit_config_new)))
       (op_then (steps (map (\<lambda>i. ignored (try_acquire (q i) RL_Message 1)) [0..<100])) (\<lambda>_.
        asserting (limiter_status t1 t2 RL_Message) (\<lambda>status. rs_remaining status < 100)))"

lemma ignored_granted:
  "holds n now RL_Message l \<Longrightarrow> length qs = n \<Longrightarrow> (\<forall>q \<in> set qs. q = clock_at now) ==>
     steps (map (\<lambda>q. ignored (try_acquire q RL_Message 1)) qs) l = (taken n RL_Message l, Ret ())"
proof (induction qs arbitrary: n l)
  case Nil
  then show ?case by (simp add: steps_def taken_none op_return_def)
next
  case (Cons q qs)
  then obtain m where n: "n = Suc m" "length qs = m" by (cases n) auto
  have q: "q = clock_at now" using Cons.prems(3) by simp
  note one = acquire_one [OF Cons.prems(1) [unfolded n]]
  have "steps (map (\<lambda>q. ignored (try_acquire q RL_Message 1)) (q # qs)) l =
      steps (map (\<lambda>q. ignored (try_acquire q RL_Message 1)) qs) (taken (Suc 0) RL_Message l)"
    by (simp add: steps_def ignored_def op_then_def op_return_def q one(1))
  with Cons.IH [OF one(2) n(2)] Cons.prems(3) show ?case by (simp add: one(3) n(1))
qed

lemma concurrent_acquire_test: "passes (test_concurrent_acquire (\<lambda>_. clock_at now) now now now)"
proof -
  let ?l = "limiter now (with_burst_size 100 (with_messages_per_second 1000 rate_limit_config_new))"
  have held: "holds 100 now RL_Message ?l" by (simp add: limiter_eval)
  have "steps (map (\<lambda>i. ignored (try_acquire (clock_at now) RL_Message 1)) [0..<100]) ?l =
      (taken 100 RL_Message ?l, Ret ())"
    using ignored_granted [OF held, of "map (\<lambda>i. clock_at now) [0..<100]"]
    by (simp add: comp_def del: upt_rec_numeral)
  then show ?thesis
    by (simp add: test_concurrent_acquire_def run_test_def op_then_def asserting_def passes_def del: upt_rec_numeral)
      (simp add: limiter_eval)
qed

section \<open>Waiting\<close>

text \<open>\<open>qs\<close> are the readings of the iterations, \<open>waited\<close> the time the test measures.\<close>

definition test_async_acquire :: "u64 \<Rightarrow> acquire_clock list \<Rightarrow> duration \<Rightarrow> test" where
  "test_async_acquire now qs waited =
     run_test (limiter now (with_burst_size 5 (with_messages_per_second 100 rate_limit_config_new)))
       (op_then (acquiring 5 now RL_Message) (\<lambda>_.
        op_then (\<lambda>l. case acquire qs RL_Message 1 l of
            (l1, None, _) \<Rightarrow> (l1, Panic)
          | (l1, Some r, _) \<Rightarrow> (l1, bind_outcome r unwrap)) (\<lambda>_.
        assert_that (\<lambda>_. 10 < as_millis waited))))"

lemma twentieth:
  "fround (1 / 20) = Fin (3602879701896397 / 72057594037927936)"
  "fround (90071992547409925 / 18014398509481984) = Fin 5" "f64_of_u64 50000000 = Fin 50000000"
  "f64_of_u64 5 = Fin 5"
  using fround_normal [of "- 5" "1 / 20"] fround_normal [of 2 "90071992547409925 / 18014398509481984"]
    f64_of_int_exact [of 50000000] f64_of_int_exact [of 5]
  by (simp_all add: f64_of_u64_def round_even_eval power_int_minus)

text \<open>The bucket of messages after five acquisitions: it waits for 50 ms and is full then.\<close>

lemma after_five: "\<lparr>tokens = 0, last_refill = now, capacity = 5, refill_rate = 100\<rparr> = b ==>
    time_until_full now b = (b, Ret (millis 50)) \<and>
    (now \<le> now + 50000000 \<longrightarrow> tokens (refill (now + 50000000) b) = 5)"
proof -
  assume b: "\<lparr>tokens = 0, last_refill = now, capacity = 5, refill_rate = 100\<rparr> = b"
  have add: "tokens_to_add 50000000 100 = 5"
    by (simp add: tokens_to_add_def nanos_per_second_eq twentieth double_amounts f64_to_u64_def)
  have "time_until_full now b = (b, Ret (millis 50))"
    by (simp add: b [symmetric] time_until_full_def available_def refill_at_once duration_from_secs_f64_def twentieth
        double_amounts round_even_eval)
  moreover have "tokens (refill (now + 50000000) b) = 5" if "now \<le> now + 50000000"
    using that by (simp add: b [symmetric] refill_def sat_sub_def [of "now + 50000000"] add sat_add_def [of 0])
  ultimately show ?thesis by blast
qed

lemma async_acquire_test:
  assumes "now \<le> now + 50000000" and "millis 50 \<le> waited"
  shows "passes (test_async_acquire now [clock_at now, clock_at (now + 50000000)] waited)"
proof -
  let ?l = "limiter now (with_burst_size 5 (with_messages_per_second 100 rate_limit_config_new))"
  let ?b = "\<lparr>tokens = 0, last_refill = now, capacity = 5, refill_rate = 100\<rparr>"
  have five: "acquiring 5 now RL_Message ?l = (taken 5 RL_Message ?l, Ret ())"
    by (rule acquiring_granted) (simp add: limiter_eval)
  have got: "hm_get (buckets (taken 5 RL_Message ?l)) RL_Message = Some ?b"
    and again: "set_bucket RL_Message ?b (taken 5 RL_Message ?l) = taken 5 RL_Message ?l"
    by (simp_all add: limiter_eval)
  have first: "try_acquire (clock_at now) RL_Message 1 (taken 5 RL_Message ?l) =
      (taken 5 RL_Message ?l, Ret (Err (RateLimitExceeded RL_Message (millis 50))))"
    using after_five [OF refl, of now]
    by (simp add: try_acquire_def got try_consume_eq clock_at_def refill_at_once again)
  obtain l1 where second: "try_acquire (clock_at (now + 50000000)) RL_Message 1 (taken 5 RL_Message ?l) = (l1, Ret (Ok ()))"
    using after_five [OF refl, of now] assms(1)
    by (simp add: try_acquire_def got try_consume_eq clock_at_def Let_def)
  have "10 < as_millis waited" using assms(2) by (simp add: as_millis_def)
  then show ?thesis
    by (simp add: test_async_acquire_def run_test_def op_then_def five acquire_def first second unwrap_def assert_that_def
        passes_def)
qed

section \<open>JSON\<close>

text \<open>A struct with one field of 32 bits.\<close>

definition test_message_json :: "(32 word \<Rightarrow> rstr + rstr) \<Rightarrow> (bytes \<Rightarrow> rstr + 32 word) \<Rightarrow> test" where
  "test_message_json ser de =
     (let test = 42 in
      bind_outcome (unwrap (message_json ser test)) (\<lambda>msg.
      bind_outcome (all_of [is_text msg]) (\<lambda>_.
      bind_outcome (unwrap (parse_json de msg)) (\<lambda>parsed.
      all_of [parsed = test]))))"

lemma message_json_test:
  "ser 42 = Inr json \<Longrightarrow> de (utf8_encode json) = Inr 42 \<Longrightarrow> passes (test_message_json ser de)"
  by (simp add: test_message_json_def message_json_def parse_json_def message_text_def is_text_def unwrap_def all_of_def
      passes_def)

end
