(* ===== verification/Latency.thy ===== *)
theory Latency
  imports System
begin

text \<open>
  The window of latencies of \<^verbatim>\<open>src/src/metrics.rs\<close>: nothing in the client or the server ever records one.
\<close>

section \<open>No operation of the crate records a latency\<close>

lemma metrics_latencies [simp]:
  "latencies (fst (record_message_sent ck now n m)) = latencies m"
  "latencies (fst (record_message_received ck now n m)) = latencies m"
  "latencies (fst (record_connection ck now m)) = latencies m"
  "latencies (fst (record_disconnection ck now m)) = latencies m"
  "latencies (fst (record_connection_error ck m)) = latencies m"
  "latencies (fst (record_receive_error ck m)) = latencies m"
  by (simp_all add: metrics_ops op_then_fst op_add_def op_update_def split: outcome.splits)

definition client_window :: "ws_client \<Rightarrow> u64 list" where
  "client_window c = latencies (wc_metrics c)"

definition server_window :: "ws_server \<Rightarrow> u64 list" where
  "server_window s = latencies (sv_metrics s)"

named_theorems keeps_window

lemma send_enqueue_window [keeps_window]: "client_window (fst (send_enqueue ck now m c)) = client_window c"
  by (simp add: send_enqueue_def op_then_fst op_on_fst op_return_def op_update_def client_window_def split: outcome.split)

lemma client_send_window [keeps_window]: "client_window (fst (client_send ck now m c)) = client_window c"
  by (simp add: client_send_def keeps_window split: sum.split)

lemma close_after_window [keeps_window]: "client_window (fst (close_after ck now r c)) = client_window c"
  by (simp add: close_after_def op_then_fst op_on_fst op_return_def op_update_def client_window_def
      split: option.split sum.split outcome.split)

lemma run_outgoing_window [keeps_window]: "client_window (fst (run_outgoing ck failed c)) = client_window c"
  by (simp add: run_outgoing_def op_then_fst op_on_fst op_return_def client_window_def
      split: list.split sum.split option.split outcome.split)

lemma run_incoming_window [keeps_window]: "client_window (fst (run_incoming ck now item c)) = client_window c"
  by (cases item; (cases "projr item")?;
      simp add: run_incoming_def run_received_def op_then_fst op_on_fst op_return_def op_update_def client_window_def
        split: outcome.split)

lemma task_turn_window:
  "client_window (task_turn f c) = (if wc_task c = Running then client_window (fst (f c)) else client_window c)"
  by (simp add: task_turn_def client_window_def split: prod.split outcome.split)

lemma client_step_window: "client_window (client_step ck (now, e) c) = client_window c"
proof (cases e)
  case Ticks
  have "client_window (c\<lparr>wc_heartbeat := h\<rparr>) = client_window c" for h by (simp add: client_window_def)
  with Ticks show ?thesis
    by (simp add: heartbeat_tick_def op_then_fst op_on_fst op_return_def keeps_window split: outcome.split)
qed (simp_all add: client_close_def op_then_fst keeps_window task_turn_window split: outcome.split)

lemma connected_send_window [keeps_window]: "server_window (fst (connected_send m u s)) = server_window s"
  by (simp add: connected_send_def set_handler_def server_window_def split: option.split)

lemma broadcast_loop_window [keeps_window]: "server_window (fst (broadcast_loop ck now m cs n s)) = server_window s"
proof (induction cs arbitrary: n s)
  case (Cons c cs)
  have "server_window (s1\<lparr>sv_metrics := fst (record_message_sent ck now k (sv_metrics s1))\<rparr>) = server_window s1" for k s1
    by (simp add: server_window_def)
  with Cons show ?case
    using connected_send_window [of m "cn_id c" s]
    by (auto simp: op_then_fst op_on_fst split: prod.split option.split sum.split outcome.split)
qed simp

lemma shutdown_loop_window [keeps_window]: "server_window (fst (shutdown_loop cs s)) = server_window s"
proof (induction cs arbitrary: s)
  case (Cons c cs)
  then show ?case
    using connected_send_window [of shutdown_message "cn_id c" s] by (auto split: prod.split option.split)
qed simp

lemma serve_outgoing_window [keeps_window]:
  "server_window (fst (serve_outgoing ck held failed u h s)) = server_window s"
  by (simp add: serve_outgoing_def Let_def op_then_fst op_on_fst op_return_def set_handler_def server_window_def
      split: list.split sum.split option.split outcome.split)

lemma serve_incoming_window [keeps_window]: "server_window (fst (serve_incoming ck now item s)) = server_window s"
  by (cases item; (cases "projr item")?;
      simp add: serve_incoming_def serve_received_def op_then_fst op_on_fst op_return_def op_update_def server_window_def
        split: outcome.split)

lemma serve_end_window [keeps_window]: "server_window (fst (serve_end ck now u s)) = server_window s"
  by (simp add: serve_end_def op_then_fst op_on_fst op_return_def op_update_def server_window_def split: outcome.split)

lemma set_task_window [keeps_window]: "server_window (set_task u t s) = server_window s"
  by (simp add: set_task_def set_handler_def server_window_def split: option.split)

lemma client_turn_window:
  assumes "\<And>h. server_window (fst (f h s)) = server_window s"
  shows "server_window (client_turn ck now u f s) = server_window s"
proof (cases "hm_get (sv_handlers s) u")
  case (Some h)
  obtain s1 r where r: "f h s = (s1, r)" by (cases "f h s")
  obtain s2 r2 where r2: "serve_end ck now u s1 = (s2, r2)" by (cases "serve_end ck now u s1")
  have "server_window s1 = server_window s" "server_window s2 = server_window s1"
    using assms [of h] r serve_end_window [of ck now u s1] r2 by simp_all
  with Some r r2 show ?thesis
    by (auto simp: client_turn_def keeps_window split: outcome.split turn.split)
qed (simp add: client_turn_def)

lemma server_step_window: "server_window (server_step ck (now, e) s) = server_window s"
proof (cases e)
  case (Accepts a)
  then show ?thesis
    by (simp add: accept_turn_def op_then_fst op_on_fst op_return_def server_window_def split: sum.split outcome.split)
next
  case (Registers failed u addr)
  then show ?thesis
    by (simp add: handle_connection_def Let_def op_then_fst op_on_fst op_update_def op_return_def set_handler_def
        server_window_def split: option.split outcome.split)
next
  case ShutsDown
  have "server_window (s\<lparr>sv_connections := hm_empty, sv_running := False\<rparr>) = server_window s"
    by (simp add: server_window_def)
  with ShutsDown show ?thesis by (simp add: server_shutdown_def keeps_window)
qed (simp_all add: broadcast_def client_turn_window keeps_window)

lemma windows_kept:
  "client_window (fold (client_step ck) es c) = client_window c"
  "server_window (fold (server_step ck) es' s) = server_window s"
proof -
  show "client_window (fold (client_step ck) es c) = client_window c"
    by (induction es arbitrary: c) (auto simp: client_step_window)
  show "server_window (fold (server_step ck) es' s) = server_window s"
    by (induction es' arbitrary: s) (auto simp: server_step_window)
qed

text \<open>The latency percentiles of a client and of a server are zero whatever they do: from a connection
  that has just been made and from a new server, after any sequence of calls, of turns of their
  tasks and of events of the network, all four percentiles are 0.\<close>

theorem latencies_never_recorded:
  assumes "connect_with_config ck now failed cfg = Ret (Ok c)"
  shows "latency_percentiles (wc_metrics (fold (client_step ck) es c)) = \<lparr>p50 = 0, p95 = 0, p99 = 0, p999 = 0\<rparr> \<and>
    latency_percentiles (sv_metrics (fold (server_step ck) es' (server_new sv))) = \<lparr>p50 = 0, p95 = 0, p99 = 0, p999 = 0\<rparr>"
proof -
  have "client_window c = []"
    using assms
    by (auto simp: connect_with_config_def client_fresh_def metrics_new_def record_connection_def op_on_def
        op_then_def op_add_def touch_def op_update_def client_window_def
        split: option.splits if_splits prod.splits outcome.splits)
  then have "latencies (wc_metrics (fold (client_step ck) es c)) = []"
    using windows_kept(1) [of ck es c] by (simp add: client_window_def)
  moreover have "latencies (sv_metrics (fold (server_step ck) es' (server_new sv))) = []"
    using windows_kept(2) [of ck es' "server_new sv"] by (simp add: server_window_def server_new_def metrics_new_def)
  ultimately show ?thesis by (simp add: latency_percentiles_def)
qed

theorem latencies_never_recorded_witness:
  "\<exists>c. connect_with_config True 1 None (client_config_new (lit ''ws'')) = Ret (Ok c) \<and>
    latency_percentiles (wc_metrics (fold (client_step True)
      [(2, Sends (message_binary [7])), (3, Writes None), (9, Arrives (Inr (TBinary [7])))] c)) =
    \<lparr>p50 = 0, p95 = 0, p99 = 0, p999 = 0\<rparr>"
proof -
  obtain c where c: "connect_with_config True 1 None (client_config_new (lit ''ws'')) = Ret (Ok c)"
    by (simp add: connect_with_config_def channel_ok_def record_connection_def touch_def client_fresh_def
        client_config_new_def backpressure_config_default_def DEFAULT_BUFFER_SIZE_def metrics_new_def op_then_def
        op_on_def op_update_def op_add_def add_ck_def)
  with latencies_never_recorded [OF c] show ?thesis by blast
qed

end
