(* ===== verification/Console.thy ===== *)
theory Console
  imports Errors F64
begin

text \<open>
  Programs that print: the state of a program is what it works on and the lines it has printed, in
  the order of the calls of \<^verbatim>\<open>println!\<close>. The text of a call may hold line feeds (10) of its own.
\<close>

record 'w app =
  world :: 'w
  printed :: "rstr list"

definition println :: "rstr \<Rightarrow> ('w app, unit) op" where
  "println l = op_update (\<lambda>s. s\<lparr>printed := printed s @ [l]\<rparr>)"

fun print_lines :: "rstr list \<Rightarrow> ('w app, unit) op" where
  "print_lines [] = op_return ()"
| "print_lines (l # ls) = op_then (println l) (\<lambda>_. print_lines ls)"

text \<open>An operation on what the program works on, and what the others do to it while the program sleeps.\<close>

definition in_world :: "('w, 'a) op \<Rightarrow> ('w app, 'a) op" where
  "in_world f = op_on world world_update f"

definition meanwhile :: "('w \<Rightarrow> 'w) \<Rightarrow> ('w app, unit) op" where
  "meanwhile env = in_world (op_update env)"

definition read_world :: "('w \<Rightarrow> 'a) \<Rightarrow> ('w app, 'a) op" where
  "read_world f s = (s, Ret (f (world s)))"

text \<open>A part of a program that works on a value of its own.\<close>

definition with_own :: "'v \<Rightarrow> ('v app, 'a) op \<Rightarrow> ('w app, 'a) op" where
  "with_own v p s =
     (case p \<lparr>world = v, printed = printed s\<rparr> of (s1, r) \<Rightarrow> (s\<lparr>printed := printed s1\<rparr>, r))"

definition of_outcome :: "'a outcome \<Rightarrow> ('s, 'a) op" where
  "of_outcome r s = (s, r)"

text \<open>
  The operator \<^verbatim>\<open>?\<close> in a main function that returns a \<^verbatim>\<open>Result\<close>; awaiting a call that never
  answers, \<open>None\<close>, is a program that never ends.
\<close>

type_synonym 'w main = "('w app, unit result option) op"

definition try_ok :: "'a result \<Rightarrow> ('a \<Rightarrow> 'w main) \<Rightarrow> 'w main" where
  "try_ok r f = (case r of Inl e \<Rightarrow> op_return (Some (Err e)) | Inr x \<Rightarrow> f x)"

definition await_ok :: "('w app, 'a result option) op \<Rightarrow> ('a \<Rightarrow> 'w main) \<Rightarrow> 'w main" where
  "await_ok f g = op_then f (\<lambda>r. case r of None \<Rightarrow> op_return None | Some x \<Rightarrow> try_ok x g)"

definition finished :: "'w main" where
  "finished = op_return (Some (Ok ()))"

section \<open>Formatting\<close>

definition show_bool :: "bool \<Rightarrow> rstr" where
  "show_bool b = (if b then (lit ''true'') else (lit ''false''))"

text \<open>\<^verbatim>\<open>{:>n}\<close>, \<^verbatim>\<open>{}\<close> of a 64-bit integer, and \<^verbatim>\<open>{:.1}\<close> of a finite non-negative double.\<close>

definition pad_left :: "nat \<Rightarrow> rstr \<Rightarrow> rstr" where
  "pad_left n s = replicate (n - length s) 32 @ s"

definition show_u64 :: "u64 \<Rightarrow> rstr" where
  "show_u64 n = show_nat (unat n)"

definition show_fixed1 :: "f64 \<Rightarrow> rstr" where
  "show_fixed1 x =
     (case x of
        Fin r \<Rightarrow> (let n = nat (round_even (r * 10)) in show_nat (n div 10) @ [46, 48 + n mod 10])
      | NaN \<Rightarrow> (lit ''NaN'')
      | PInf \<Rightarrow> (lit ''inf'')
      | NInf \<Rightarrow> (lit ''-inf''))"

section \<open>What a program prints\<close>

lemma println_eq [simp]: "println l s = (s\<lparr>printed := printed s @ [l]\<rparr>, Ret ())"
  by (simp add: println_def op_update_def)

lemma print_lines_eq [simp]: "print_lines ls s = (s\<lparr>printed := printed s @ ls\<rparr>, Ret ())"
  by (induction ls arbitrary: s) (simp_all add: print_lines.simps op_then_def op_return_def)

declare print_lines.simps [simp del]

lemma in_world_eq: "in_world f s = (case f (world s) of (w, r) \<Rightarrow> (s\<lparr>world := w\<rparr>, r))"
  by (simp add: in_world_def op_on_def)

lemma meanwhile_eq [simp]: "meanwhile env s = (s\<lparr>world := env (world s)\<rparr>, Ret ())"
  by (simp add: meanwhile_def in_world_eq op_update_def)

lemma read_world_eq [simp]: "read_world f s = (s, Ret (f (world s)))"
  by (simp add: read_world_def)

lemma of_outcome_eq [simp]: "of_outcome r s = (s, r)"
  by (simp add: of_outcome_def)

lemma finished_eq [simp]: "finished s = (s, Ret (Some (Ok ())))"
  by (simp add: finished_def op_return_def)

lemma try_ok_simps [simp]: "try_ok (Ok x) f = f x" "try_ok (Err e) f s = (s, Ret (Some (Err e)))"
  by (simp_all add: try_ok_def op_return_def)

lemma app_update_twice [simp]:
  "printed_update f (s\<lparr>world := w\<rparr>) = (printed_update f s)\<lparr>world := w\<rparr>"
  by (cases s) simp

text \<open>A number prints as its digits.\<close>

lemma show_nat_step:
  "n < 10 \<Longrightarrow> show_nat n = [48 + n]" "\<not> n < 10 \<Longrightarrow> show_nat n = show_nat (n div 10) @ [48 + n mod 10]"
  by (subst show_nat.simps; simp)+

end
