(* ===== verification/ExFragmentation.thy ===== *)
theory ExFragmentation
  imports Fragmentation Console
begin

text \<open>
  \<^verbatim>\<open>src/examples/fragmentation.rs\<close>: the program as a function from the instant at which it runs
  to the lines it prints, section by section of the source.
\<close>

section \<open>The sections of the program\<close>

definition repeat_text :: "rstr \<Rightarrow> nat \<Rightarrow> rstr" where
  "repeat_text s n = concat (replicate n s)"

definition describe_frame :: "rstr \<Rightarrow> frame \<Rightarrow> rstr" where
  "describe_frame name f =
     name @ (lit '' frame: FIN='') @ show_bool (fin f) @ (lit '', opcode=0x'') @ show_hex2 (unat (opcode f)) @
     (lit '', payload='') @ show_nat (length (frame_payload f)) @ (lit '' bytes'')"

definition large_text :: rstr where
  "large_text = repeat_text (lit ''A'') (50 * 1024)"

definition example1 :: "fragmenter \<Rightarrow> rstr list" where
  "example1 f =
     (let message = message_text large_text; frames = split_message f message in
      [lit ''Example 1: Fragmenting a large text message'',
       (lit ''Original message size: '') @ show_nat (message_len message) @ (lit '' bytes''),
       (lit ''Number of frames: '') @ show_nat (length frames),
       describe_frame (lit ''First'') (hd frames),
       describe_frame (lit ''Last'') (last frames)])"

text \<open>The loop that feeds the frames, with its lines and the message that came out; \<open>um\<close> and \<open>dd\<close>
  render an error as the standard library does.\<close>

fun receive_frames ::
  "(bytes \<Rightarrow> rstr) \<Rightarrow> (duration \<Rightarrow> rstr) \<Rightarrow> instant \<Rightarrow> nat \<Rightarrow> frame list \<Rightarrow> reassembler \<Rightarrow>
     rstr list \<times> message option" where
  "receive_frames um dd t i [] r = ([], None)"
| "receive_frames um dd t i (frame # frames) r =
     (case ingest_frame t frame 1 r of
        (r1, Inr (Some msg)) \<Rightarrow> ([(lit ''Frame '') @ show_nat i @ (lit '': Complete message received!'')], Some msg)
      | (r1, Inr None) \<Rightarrow>
          (case receive_frames um dd t (i + 1) frames r1 of
             (lines, m) \<Rightarrow>
               (((lit ''Frame '') @ show_nat i @ (lit '': Partial message, waiting for more frames...'')) # lines, m))
      | (r1, Inl e) \<Rightarrow> ([(lit ''Frame '') @ show_nat i @ (lit '': Error: '') @ error_display um dd e], None))"

definition example2 :: "(bytes \<Rightarrow> rstr) \<Rightarrow> (duration \<Rightarrow> rstr) \<Rightarrow> instant \<Rightarrow> fragmenter \<Rightarrow> rstr list" where
  "example2 um dd t f =
     (let frames = split_message f (message_text large_text) in
      case receive_frames um dd t 0 frames (reassembler_new (secs 5)) of
        (lines, reassembled_msg) \<Rightarrow>
          [[10] @ (lit ''Example 2: Reassembling fragmented message'')] @ lines @
          (case reassembled_msg of
             None \<Rightarrow> []
           | Some msg \<Rightarrow>
               [(lit ''Reassembled message size: '') @ show_nat (message_len msg) @ (lit '' bytes''),
                (lit ''Reassembly successful: '') @ show_bool (message_len msg = str_len large_text)]))"

definition example3 :: "fragmenter \<Rightarrow> rstr list" where
  "example3 f =
     (let reassembler = reassembler_default;
          msg1 = message_text (repeat_text (lit ''Connection 1: '') 1000);
          msg2 = message_binary (replicate (20 * 1024) 1);
          msg3 = message_text (repeat_text (lit ''Connection 3: '') 500) in
      [[10] @ (lit ''Example 3: Handling multiple concurrent connections''),
       (lit ''Connection 1: '') @ show_nat (length (split_message f msg1)) @ (lit '' frames''),
       (lit ''Connection 2: '') @ show_nat (length (split_message f msg2)) @ (lit '' frames''),
       (lit ''Connection 3: '') @ show_nat (length (split_message f msg3)) @ (lit '' frames''),
       (lit ''In-progress reassemblies: '') @ show_nat (in_progress_count reassembler)])"

definition example4 :: "fragmenter \<Rightarrow> rstr list" where
  "example4 f =
     ([10] @ (lit ''Example 4: Calculating frame requirements'')) #
     map (\<lambda>sz. (lit ''Message size: '') @ pad_left 10 (show_nat sz) @ (lit '' bytes -> '') @
                pad_left 3 (show_nat (calculate_frame_count f sz)) @ (lit '' frames''))
       [1024, 16 * 1024, 100 * 1024, 1024 * 1024]"

definition example5 :: "fragmenter \<Rightarrow> rstr list" where
  "example5 f =
     (let small_msg = message_text (lit ''Hello''); large_msg = message_text (repeat_text (lit ''A'') (100 * 1024)) in
      [[10] @ (lit ''Example 5: Checking fragmentation requirements''),
       (lit ''Small message needs fragmentation: '') @ show_bool (needs_fragmentation f small_msg),
       (lit ''Large message needs fragmentation: '') @ show_bool (needs_fragmentation f large_msg)])"

text \<open>The count after the sleep does not read the clock.\<close>

definition example6 :: "instant \<Rightarrow> fragmenter \<Rightarrow> rstr list" where
  "example6 t f =
     (let frames = split_message f (message_text (repeat_text (lit ''A'') (100 * 1024))) in
      case ingest_frame t (hd frames) 1 (reassembler_new (millis 100)) of
        (reassembler, r) \<Rightarrow>
          [[10] @ (lit ''Example 6: Fragment timeout handling''),
           if r = Ok None then (lit ''First frame received, waiting for more...'') else (lit ''Unexpected result''),
           lit ''Waiting for timeout...'',
           (lit ''In-progress reassemblies after timeout: '') @ show_nat (in_progress_count reassembler)])"

definition fragmentation_main :: "(bytes \<Rightarrow> rstr) \<Rightarrow> (duration \<Rightarrow> rstr) \<Rightarrow> instant \<Rightarrow> (unit app, unit) op" where
  "fragmentation_main um dd t =
     op_then (print_lines
       [lit ''WebSocket Message Fragmentation Example'', (lit ''======================================'') @ [10]]) (\<lambda>_.
     op_then (of_outcome (fragmenter_new DEFAULT_MAX_FRAME_SIZE)) (\<lambda>f.
     print_lines (example1 f @ example2 um dd t f @ example3 f @ example4 f @ example5 f @ example6 t f @
       [[10] @ (lit ''=== Examples Complete ==='')])))"

section \<open>What it prints\<close>

text \<open>A long text of ASCII characters has as many bytes.\<close>

lemma repeat_text_length:
  assumes "list_all (\<lambda>c. c < 128) s"
  shows "length (utf8_encode (repeat_text s n)) = n * length s"
proof -
  have "list_all (\<lambda>c. c < 128) xs \<Longrightarrow> length (utf8_encode xs) = length xs" for xs
    by (induction xs) (simp_all add: utf8_encode_def utf8_char_def)
  moreover have "list_all (\<lambda>c. c < 128) (repeat_text s n)"
    using assms by (auto simp: repeat_text_def list_all_iff)
  ultimately show ?thesis by (simp add: repeat_text_def length_concat sum_list_replicate)
qed

lemma text_lengths:
  "length (utf8_encode (repeat_text (lit ''A'') n)) = n"
  "length (utf8_encode (repeat_text (lit ''Connection 1: '') n)) = n * 14"
  "length (utf8_encode (repeat_text (lit ''Connection 3: '') n)) = n * 14"
  by (subst repeat_text_length; simp add: lit_def)+

lemma chunk_sizes:
  "length d = 51200 \<Longrightarrow> chunks 16384 d = [take 16384 d, take 16384 (drop 16384 d), take 16384 (drop 32768 d), drop 49152 d]"
  "length d = 20480 \<Longrightarrow> chunks 16384 d = [take 16384 d, drop 16384 d]"
proof -
  show "length d = 51200 \<Longrightarrow> chunks 16384 d = [take 16384 d, take 16384 (drop 16384 d), take 16384 (drop 32768 d), drop 49152 d]"
    using chunks_step [of 16384 d] by (cases "d = []") (simp_all add: chunks_step)
  show "length d = 20480 \<Longrightarrow> chunks 16384 d = [take 16384 d, drop 16384 d]"
    using chunks_step [of 16384 d] by (cases "d = []") (simp_all add: chunks_step)
qed

lemma replicate_step: "replicate (numeral k) x = x # replicate (pred_numeral k) x"
  by (simp add: numeral_eq_Suc)

lemmas splitting =
  split_message_def Let_def message_text_def message_binary_def message_opcode_def first_fragment_opcode_def
  div_ceil_def frame_new_def message_len_def text_lengths large_text_def

lemmas opcodes =
  OPCODE_CONTINUATION_def OPCODE_TEXT_def OPCODE_BINARY_def OPCODE_CLOSE_def OPCODE_PING_def OPCODE_PONG_def

lemmas printing = lit_def show_nat_step show_bool_def show_hex2_def hex_digit_def

lemma large_frames:
  "split_message \<lparr>max_frame_size = 16384\<rparr> (message_text large_text) =
     (let d = utf8_encode large_text in
      [frame_new False OPCODE_TEXT (take 16384 d), frame_new False OPCODE_CONTINUATION (take 16384 (drop 16384 d)),
       frame_new False OPCODE_CONTINUATION (take 16384 (drop 32768 d)), frame_new True OPCODE_CONTINUATION (drop 49152 d)])"
  by (simp add: splitting chunk_sizes)

lemma example1_prints:
  "example1 \<lparr>max_frame_size = 16384\<rparr> =
     [lit ''Example 1: Fragmenting a large text message'',
      lit ''Original message size: 51200 bytes'',
      lit ''Number of frames: 4'',
      lit ''First frame: FIN=false, opcode=0x01, payload=16384 bytes'',
      lit ''Last frame: FIN=true, opcode=0x00, payload=2048 bytes'']"
  unfolding example1_def Let_def large_frames
  by (simp add: Let_def describe_frame_def frame_new_def opcodes message_len_def message_text_def
      large_text_def text_lengths) (simp add: printing)

lemma example2_prints:
  "example2 um dd t \<lparr>max_frame_size = 16384\<rparr> =
     [[10] @ (lit ''Example 2: Reassembling fragmented message''),
      lit ''Frame 0: Partial message, waiting for more frames...'',
      lit ''Frame 1: Partial message, waiting for more frames...'',
      lit ''Frame 2: Partial message, waiting for more frames...'',
      lit ''Frame 3: Complete message received!'',
      lit ''Reassembled message size: 51200 bytes'',
      lit ''Reassembly successful: true'']"
  unfolding example2_def Let_def large_frames
  by (simp add: Let_def frame_new_def opcodes ingest_frame_def is_control_frame_def cleanup_expired_def ingest_locked_def
      reassembler_new_def hm_empty_def hm_get_def hm_insert_def hm_remove_def partial_new_def add_fragment_def
      is_expired_def elapsed_def assemble_def message_len_def str_len_def large_text_def text_lengths)
    (simp add: printing)

lemma example3_prints:
  "example3 \<lparr>max_frame_size = 16384\<rparr> =
     [[10] @ (lit ''Example 3: Handling multiple concurrent connections''),
      lit ''Connection 1: 1 frames'', lit ''Connection 2: 2 frames'', lit ''Connection 3: 1 frames'', lit ''In-progress reassemblies: 0'']"
  by (simp add: example3_def splitting chunk_sizes reassembler_default_def reassembler_new_def in_progress_count_def
      hm_len_def hm_empty_def) (simp add: printing)

lemma example4_prints:
  "example4 \<lparr>max_frame_size = 16384\<rparr> =
     [[10] @ (lit ''Example 4: Calculating frame requirements''),
      lit ''Message size:       1024 bytes ->   1 frames'',
      lit ''Message size:      16384 bytes ->   1 frames'',
      lit ''Message size:     102400 bytes ->   7 frames'',
      lit ''Message size:    1048576 bytes ->  64 frames'']"
  by (simp add: example4_def calculate_frame_count_def div_ceil_def pad_left_def printing replicate_step)

lemma example5_prints:
  "example5 \<lparr>max_frame_size = 16384\<rparr> =
     [[10] @ (lit ''Example 5: Checking fragmentation requirements''),
      lit ''Small message needs fragmentation: false'', lit ''Large message needs fragmentation: true'']"
  by (simp add: example5_def needs_fragmentation_def message_len_def message_text_def text_lengths)
    (simp add: printing utf8_encode_def utf8_char_def)

lemma example6_prints:
  "example6 t \<lparr>max_frame_size = 16384\<rparr> =
     [[10] @ (lit ''Example 6: Fragment timeout handling''), lit ''First frame received, waiting for more...'',
      lit ''Waiting for timeout...'', lit ''In-progress reassemblies after timeout: 1'']"
proof -
  let ?m = "message_text (repeat_text (lit ''A'') (100 * 1024))" and ?f = "\<lparr>max_frame_size = 16384\<rparr>"
  have "payload ?m \<noteq> []" and len: "length (payload ?m) = 102400"
    using text_lengths(1) [of "100 * 1024"] by (auto simp: message_text_def)
  then have "hd (split_message ?f ?m) = frame_new False OPCODE_TEXT (take 16384 (payload ?m))"
    by (simp add: split_message_def Let_def chunks_step [of 16384] div_ceil_def first_fragment_opcode_def)
      (simp add: message_text_def)
  then show ?thesis
    by (simp add: example6_def Let_def ingest_frame_def is_control_frame_def cleanup_expired_def ingest_locked_def
        frame_new_def opcodes reassembler_new_def hm_empty_def hm_get_def hm_insert_def in_progress_count_def hm_len_def)
      (simp add: printing)
qed

text \<open>The whole output, whatever the clock. The last count is 1 although the message has expired: the
  count does not look at the time, and nothing has cleaned up.\<close>

theorem fragmentation_example:
  "fragmentation_main um dd t s =
     (s\<lparr>printed := printed s @
        [lit ''WebSocket Message Fragmentation Example'',
         (lit ''======================================'') @ [10],
         lit ''Example 1: Fragmenting a large text message'',
         lit ''Original message size: 51200 bytes'',
         lit ''Number of frames: 4'',
         lit ''First frame: FIN=false, opcode=0x01, payload=16384 bytes'',
         lit ''Last frame: FIN=true, opcode=0x00, payload=2048 bytes'',
         [10] @ (lit ''Example 2: Reassembling fragmented message''),
         lit ''Frame 0: Partial message, waiting for more frames...'',
         lit ''Frame 1: Partial message, waiting for more frames...'',
         lit ''Frame 2: Partial message, waiting for more frames...'',
         lit ''Frame 3: Complete message received!'',
         lit ''Reassembled message size: 51200 bytes'',
         lit ''Reassembly successful: true'',
         [10] @ (lit ''Example 3: Handling multiple concurrent connections''),
         lit ''Connection 1: 1 frames'',
         lit ''Connection 2: 2 frames'',
         lit ''Connection 3: 1 frames'',
         lit ''In-progress reassemblies: 0'',
         [10] @ (lit ''Example 4: Calculating frame requirements''),
         lit ''Message size:       1024 bytes ->   1 frames'',
         lit ''Message size:      16384 bytes ->   1 frames'',
         lit ''Message size:     102400 bytes ->   7 frames'',
         lit ''Message size:    1048576 bytes ->  64 frames'',
         [10] @ (lit ''Example 5: Checking fragmentation requirements''),
         lit ''Small message needs fragmentation: false'',
         lit ''Large message needs fragmentation: true'',
         [10] @ (lit ''Example 6: Fragment timeout handling''),
         lit ''First frame received, waiting for more...'',
         lit ''Waiting for timeout...'',
         lit ''In-progress reassemblies after timeout: 1'',
         [10] @ (lit ''=== Examples Complete ==='')]\<rparr>,
      Ret ())"
proof -
  have "fragmenter_new DEFAULT_MAX_FRAME_SIZE = Ret \<lparr>max_frame_size = 16384\<rparr>"
    by (simp add: fragmenter_new_def DEFAULT_MAX_FRAME_SIZE_def)
  then show ?thesis
    by (simp add: fragmentation_main_def op_then_def example1_prints example2_prints example3_prints example4_prints
        example5_prints example6_prints)
qed

end
