(* ===== verification/ExSubprotocol.thy ===== *)
theory ExSubprotocol
  imports Config Console
begin

text \<open>
  \<^verbatim>\<open>src/examples/subprotocol_negotiation.rs\<close>: the program, whose \<open>?\<close> can end it early.
\<close>

section \<open>The program\<close>

text \<open>The marks of the output, and \<^verbatim>\<open>{:?}\<close> of an \<^verbatim>\<open>Option<String>\<close>, for names without characters
  that \<^verbatim>\<open>Debug\<close> escapes.\<close>

definition check_mark :: nat where "check_mark = 0x2713"
definition cross_mark :: nat where "cross_mark = 0x2717"

definition in_quotes :: "rstr \<Rightarrow> rstr" where
  "in_quotes s = [34] @ s @ [34]"

definition show_option :: "rstr option \<Rightarrow> rstr" where
  "show_option x = (case x of None \<Rightarrow> (lit ''None'') | Some s \<Rightarrow> (lit ''Some('') @ in_quotes s @ (lit '')''))"

definition numbered :: "rstr list \<Rightarrow> rstr list" where
  "numbered ps = map (\<lambda>(i, p). (lit ''     '') @ show_nat (i + 1) @ (lit ''. '') @ p) (enumerate 0 ps)"

definition client_lines :: "unicode \<Rightarrow> subprotocol_list \<Rightarrow> rstr list" where
  "client_lines u client_protocols =
     (let client_config = client_with_subprotocols u [lit ''chat-v2'', lit ''chat-v1'', lit ''mqtt'']
            (client_config_new (lit ''ws://localhost:8080'')) in
      numbered (list_protocols client_protocols) @
      [[10] @ (lit ''   Sec-WebSocket-Protocol header:''),
       (lit ''   '') @ in_quotes (to_header_value client_protocols),
       [10] @ (lit ''   Client config created with '') @ show_nat (list_len (cl_subprotocols client_config)) @ (lit '' subprotocols'')])"

definition server_lines :: "subprotocol_negotiator \<Rightarrow> rstr list" where
  "server_lines server_negotiator =
     (let server_config = server_with_subprotocols [lit ''mqtt'', lit ''chat-v2'', lit ''chat-v1''] (server_config_new (lit ''0.0.0.0:8080'')) in
      numbered (negotiator_protocols server_negotiator) @
      [[10] @ (lit ''   Server config created with '') @ show_nat (length (sv_subprotocols server_config)) @ (lit '' subprotocols'')])"

definition selection_lines :: "rstr option \<Rightarrow> rstr list" where
  "selection_lines selected =
     ([10] @ (lit ''3. Negotiation:'')) #
     (case selected of
        Some protocol \<Rightarrow>
          [(lit ''   '') @ [check_mark] @ (lit '' Match found!''),
           (lit ''   Selected subprotocol: '') @ in_quotes protocol,
           (lit (''   (Server selected client'' @ [CHR 0x27] @ ''s first preference that it supports)''))]
      | None \<Rightarrow>
          [(lit ''   '') @ [cross_mark] @ (lit '' No match found''),
           lit ''   Connection will proceed without subprotocol''])"

definition validation_lines :: "rstr option \<Rightarrow> rstr list" where
  "validation_lines validated =
     (case validated of
        Some protocol \<Rightarrow>
          [(lit ''   '') @ [check_mark] @ (lit '' Server response validated''),
           (lit ''   Negotiated subprotocol: '') @ in_quotes protocol]
      | None \<Rightarrow> [(lit ''   '') @ [check_mark] @ (lit '' No subprotocol negotiated'')])"

definition no_match_lines :: "subprotocol_negotiator \<Rightarrow> subprotocol_list \<Rightarrow> rstr list" where
  "no_match_lines server_negotiator unsupported_client =
     [(lit ''   Client offers: '') @ to_header_value unsupported_client] @
     (case negotiate server_negotiator unsupported_client of
        Some _ \<Rightarrow> [lit ''   Unexpected match!'']
      | None \<Rightarrow>
          [(lit ''   '') @ [check_mark] @ (lit '' No match found (as expected)''),
           lit ''   Server should either:'',
           lit ''     - Accept connection without subprotocol'',
           lit ''     - Reject connection with HTTP 426'']) @
     (if should_reject server_negotiator unsupported_client
      then [lit ''   Server configured to reject on no match''] else [])"

definition wildcard_lines :: "subprotocol_list \<Rightarrow> rstr list" where
  "wildcard_lines unsupported_client =
     (let wildcard_server = with_wildcard True negotiator_new in
      [[10] @ (lit ''6. Alternative Scenario: Wildcard (proxy server)''),
       lit ''   Server has wildcard enabled (accepts any protocol)'',
       (lit ''   Selected: '') @ show_option (negotiate wildcard_server unsupported_client),
       lit ''   (Useful for proxy servers that forward any subprotocol)''])"

definition common_lines :: "rstr list" where
  "common_lines =
     [[10] @ (lit ''7. Common Real-World Subprotocols:''),
      lit ''   - mqtt          Message Queuing Telemetry Transport'',
      lit ''   - graphql       GraphQL over WebSocket'',
      lit ''   - graphql-transport-ws  GraphQL WebSocket transport'',
      lit ''   - chat-v1, chat-v2  Custom chat protocols'',
      lit ''   - sip           Session Initiation Protocol'',
      lit ''   - wamp          Web Application Messaging Protocol'',
      lit ''   - stomp         Simple/Streaming Text Oriented Messaging Protocol'',
      [10] @ (lit ''=== Example Complete ==='')]"

definition subprotocol_main :: "unicode \<Rightarrow> unit main" where
  "subprotocol_main u =
     op_then (print_lines
       [(lit ''=== WebSocket Subprotocol Negotiation Example ==='') @ [10],
        lit ''1. Client Configuration:'', lit ''   Client wants these subprotocols (in preference order):'']) (\<lambda>_.
     try_ok (with_protocols (fst u) [lit ''chat-v2'', lit ''chat-v1'', lit ''mqtt''] subprotocol_list_new) (\<lambda>client_protocols.
     op_then (print_lines (client_lines u client_protocols @
       [[10] @ (lit ''2. Server Configuration:''), lit ''   Server supports these subprotocols:''])) (\<lambda>_.
     try_ok (negotiator_with_protocols (fst u) [lit ''mqtt'', lit ''chat-v2'', lit ''chat-v1''] negotiator_new) (\<lambda>server_negotiator.
     let selected = negotiate server_negotiator client_protocols in
     op_then (print_lines (server_lines server_negotiator @ selection_lines selected @
       [[10] @ (lit ''4. Client validates server response:'')])) (\<lambda>_.
     try_ok (parse_response client_protocols selected) (\<lambda>validated.
     op_then (print_lines (validation_lines validated @
       [[10] @ (lit ''5. Alternative Scenario: Client offers unsupported protocols'')])) (\<lambda>_.
     try_ok (with_protocols (fst u) [lit ''graphql'', lit ''grpc''] subprotocol_list_new) (\<lambda>unsupported_client.
     op_then (print_lines (no_match_lines server_negotiator unsupported_client @
       wildcard_lines unsupported_client @ common_lines)) (\<lambda>_.
     finished)))))))))"

section \<open>What it prints\<close>

lemma program_lists:
  "with_protocols ua [lit ''chat-v2'', lit ''chat-v1'', lit ''mqtt''] subprotocol_list_new =
     Ok \<lparr>sl_protocols = [lit ''chat-v2'', lit ''chat-v1'', lit ''mqtt'']\<rparr>"
  "with_protocols ua [lit ''graphql'', lit ''grpc''] subprotocol_list_new = Ok \<lparr>sl_protocols = [lit ''graphql'', lit ''grpc'']\<rparr>"
  "negotiator_with_protocols ua [lit ''mqtt'', lit ''chat-v2'', lit ''chat-v1''] negotiator_new =
     Ok \<lparr>sn_protocols = [lit ''mqtt'', lit ''chat-v2'', lit ''chat-v1''], sn_allow_wildcard = False\<rparr>"
  by (simp_all add: with_protocol_def negotiator_with_protocol_def validate_protocol_def protocol_char_def is_alphanumeric_def
      ascii_alnum_def try_then_def subprotocol_list_new_def negotiator_new_def lit_def)

lemma show_small:
  "show_nat (Suc 0) = (lit ''1'')" "show_nat (Suc (Suc 0)) = (lit ''2'')" "show_nat (Suc (Suc (Suc 0))) = (lit ''3'')"
  by (simp_all add: show_nat_step lit_def)

lemma client_lines_eq:
  "client_lines u \<lparr>sl_protocols = [lit ''chat-v2'', lit ''chat-v1'', lit ''mqtt'']\<rparr> =
     [lit ''     1. chat-v2'', lit ''     2. chat-v1'', lit ''     3. mqtt'', [10] @ (lit ''   Sec-WebSocket-Protocol header:''),
      (lit ''   '') @ in_quotes (lit ''chat-v2, chat-v1, mqtt''), [10] @ (lit ''   Client config created with 3 subprotocols'')]"
  by (simp add: client_lines_def Let_def numbered_def list_protocols_def show_small to_header_value_def program_lists
      client_with_subprotocols_def subprotocol_list_from_slice_def list_len_def del: with_protocols.simps)
    (simp add: lit_def)

lemma server_lines_eq:
  "server_lines \<lparr>sn_protocols = [lit ''mqtt'', lit ''chat-v2'', lit ''chat-v1''], sn_allow_wildcard = False\<rparr> =
     [lit ''     1. mqtt'', lit ''     2. chat-v2'', lit ''     3. chat-v1'', [10] @ (lit ''   Server config created with 3 subprotocols'')]"
  by (simp add: server_lines_def Let_def numbered_def negotiator_protocols_def show_small server_with_subprotocols_def)
    (simp add: lit_def)

lemma program_choice:
  "negotiate \<lparr>sn_protocols = [lit ''mqtt'', lit ''chat-v2'', lit ''chat-v1''], sn_allow_wildcard = False\<rparr>
     \<lparr>sl_protocols = [lit ''chat-v2'', lit ''chat-v1'', lit ''mqtt'']\<rparr> = Some (lit ''chat-v2'')"
  "negotiate \<lparr>sn_protocols = [lit ''mqtt'', lit ''chat-v2'', lit ''chat-v1''], sn_allow_wildcard = False\<rparr>
     \<lparr>sl_protocols = [lit ''graphql'', lit ''grpc'']\<rparr> = None"
  "negotiate (with_wildcard True negotiator_new) \<lparr>sl_protocols = [lit ''graphql'', lit ''grpc'']\<rparr> = Some (lit ''graphql'')"
  "parse_response \<lparr>sl_protocols = [lit ''chat-v2'', lit ''chat-v1'', lit ''mqtt'']\<rparr> (Some (lit ''chat-v2'')) = Ok (Some (lit ''chat-v2''))"
  by (simp_all add: negotiate_def supports_def with_wildcard_def negotiator_new_def parse_response_def list_is_empty_def
      list_contains_def lit_def)

text \<open>
  The whole output: the names in the order of preference, the first choice of the client, its
  validation, the scenarios without a match and with the wildcard. The program says that the
  server is configured to reject, which nothing has configured: \<^verbatim>\<open>should_reject\<close> answers so
  whenever nothing matches.
\<close>

theorem subprotocol_example:
  "subprotocol_main u s =
     (s\<lparr>printed := printed s @
        [(lit ''=== WebSocket Subprotocol Negotiation Example ==='') @ [10],
         lit ''1. Client Configuration:'', lit ''   Client wants these subprotocols (in preference order):'',
         lit ''     1. chat-v2'', lit ''     2. chat-v1'', lit ''     3. mqtt'', [10] @ (lit ''   Sec-WebSocket-Protocol header:''),
         (lit ''   '') @ in_quotes (lit ''chat-v2, chat-v1, mqtt''), [10] @ (lit ''   Client config created with 3 subprotocols''),
         [10] @ (lit ''2. Server Configuration:''), lit ''   Server supports these subprotocols:'',
         lit ''     1. mqtt'', lit ''     2. chat-v2'', lit ''     3. chat-v1'', [10] @ (lit ''   Server config created with 3 subprotocols''),
         [10] @ (lit ''3. Negotiation:''), (lit ''   '') @ [check_mark] @ (lit '' Match found!''),
         (lit ''   Selected subprotocol: '') @ in_quotes (lit ''chat-v2''),
         (lit (''   (Server selected client'' @ [CHR 0x27] @ ''s first preference that it supports)'')),
         [10] @ (lit ''4. Client validates server response:''), (lit ''   '') @ [check_mark] @ (lit '' Server response validated''),
         (lit ''   Negotiated subprotocol: '') @ in_quotes (lit ''chat-v2''),
         [10] @ (lit ''5. Alternative Scenario: Client offers unsupported protocols''),
         lit ''   Client offers: graphql, grpc'',
         (lit ''   '') @ [check_mark] @ (lit '' No match found (as expected)''), lit ''   Server should either:'',
         lit ''     - Accept connection without subprotocol'', lit ''     - Reject connection with HTTP 426'',
         lit ''   Server configured to reject on no match'',
         [10] @ (lit ''6. Alternative Scenario: Wildcard (proxy server)''),
         lit ''   Server has wildcard enabled (accepts any protocol)'',
         (lit ''   Selected: Some('') @ in_quotes (lit ''graphql'') @ (lit '')''),
         lit ''   (Useful for proxy servers that forward any subprotocol)''] @ common_lines\<rparr>,
      Ret (Some (Ok ())))"
proof -
  have no_match: "no_match_lines \<lparr>sn_protocols = [lit ''mqtt'', lit ''chat-v2'', lit ''chat-v1''], sn_allow_wildcard = False\<rparr>
      \<lparr>sl_protocols = [lit ''graphql'', lit ''grpc'']\<rparr> =
      [lit ''   Client offers: graphql, grpc'', (lit ''   '') @ [check_mark] @ (lit '' No match found (as expected)''),
       lit ''   Server should either:'', lit ''     - Accept connection without subprotocol'',
       lit ''     - Reject connection with HTTP 426'', lit ''   Server configured to reject on no match'']"
    by (simp add: no_match_lines_def program_choice should_reject_def list_is_empty_def to_header_value_def)
      (simp add: lit_def)
  have wildcard: "wildcard_lines \<lparr>sl_protocols = [lit ''graphql'', lit ''grpc'']\<rparr> =
      [[10] @ (lit ''6. Alternative Scenario: Wildcard (proxy server)''),
       lit ''   Server has wildcard enabled (accepts any protocol)'',
       (lit ''   Selected: Some('') @ in_quotes (lit ''graphql'') @ (lit '')''),
       lit ''   (Useful for proxy servers that forward any subprotocol)'']"
    by (simp add: wildcard_lines_def Let_def program_choice show_option_def) (simp add: lit_def)
  show ?thesis
    by (simp add: subprotocol_main_def op_then_def program_lists program_choice client_lines_eq server_lines_eq
        selection_lines_def validation_lines_def no_match wildcard Let_def
        del: with_protocols.simps negotiator_with_protocols.simps)
qed

end
