(* ===== verification/ExRateLimit.thy ===== *)
theory ExRateLimit
  imports Tests_RateLimit Console
begin

text \<open>
  \<^verbatim>\<open>src/examples/rate_limiting.rs\<close>: the program over the readings of the clock that its calls make,
  and the length of the wait it measures.
\<close>

section \<open>The program\<close>

record limiter_times =
  lt_new :: "rate_limit_type \<Rightarrow> u64"
  lt_tries :: "nat \<Rightarrow> acquire_clock"
  lt_status :: "u64 \<times> u64"
  lt_waits :: "acquire_clock list"
  lt_waited :: duration
  lt_reset :: "rate_limit_type \<Rightarrow> u64"
  lt_after :: "u64 \<times> u64"
  lt_byte_new :: "rate_limit_type \<Rightarrow> u64"
  lt_byte_try :: acquire_clock
  lt_byte_status :: "u64 \<times> u64"
  lt_free_new :: "rate_limit_type \<Rightarrow> u64"
  lt_free_tries :: "nat \<Rightarrow> acquire_clock"

definition example_limits :: rate_limit_config where
  "example_limits =
     with_burst_size 20 (with_operations_per_second 100 (with_bytes_per_second (1024 * 1024)
       (with_messages_per_second 10 rate_limit_config_new)))"

definition limit_lines :: "rate_limit_config \<Rightarrow> rstr list" where
  "limit_lines c =
     [lit ''Configured limits:'',
      (lit ''  Messages: '') @ show_u64 (messages_per_second c) @ (lit '' per second (burst: '') @ show_u64 (burst_size c) @ (lit '')''),
      (lit ''  Bytes: '') @ show_u64 (bytes_per_second c) @ (lit '' per second (burst: '') @ show_u64 (burst_size c) @ (lit '')''),
      (lit ''  Operations: '') @ show_u64 (operations_per_second c) @ (lit '' per second (burst: '') @ show_u64 (burst_size c) @ (lit '')''),
      []]"

fun try_messages :: "(nat \<Rightarrow> acquire_clock) \<Rightarrow> nat \<Rightarrow> nat \<Rightarrow> (rate_limiter app, unit) op" where
  "try_messages q i 0 = op_return ()"
| "try_messages q i (Suc n) =
     op_then (in_world (try_acquire (q i) RL_Message 1)) (\<lambda>r.
     op_then (println ((lit ''  Message '') @ show_nat (i + 1) @
       (case r of Inr _ \<Rightarrow> (lit '' allowed'') | Inl _ \<Rightarrow> (lit '' blocked (rate limit exceeded)'')))) (\<lambda>_.
     try_messages q (i + 1) n))"

definition query_status :: "u64 \<times> u64 \<Rightarrow> rate_limit_type \<Rightarrow> (rate_limiter app, rate_limit_status) op" where
  "query_status t ty = in_world (limiter_status (fst t) (snd t) ty)"

definition await_permit :: "acquire_clock list \<Rightarrow> (rate_limiter app, unit result option) op" where
  "await_permit qs =
     in_world (\<lambda>l. case acquire qs RL_Message 1 l of
       (l1, None, _) \<Rightarrow> (l1, Ret None)
     | (l1, Some r, _) \<Rightarrow> (l1, bind_outcome r (\<lambda>x. Ret (Some x))))"

definition byte_section :: "limiter_times \<Rightarrow> (rate_limiter app, unit) op" where
  "byte_section T =
     op_then (println (lit ''Example 6: Byte rate limiting'')) (\<lambda>_.
     with_own (rate_limiter_new (lt_byte_new T) (with_burst_size 4096 (with_bytes_per_second 2048 rate_limit_config_new)))
       (op_then (in_world (try_acquire (lt_byte_try T) RL_Byte 3000)) (\<lambda>r.
        op_then (println (case r of Inr _ \<Rightarrow> (lit ''  3000 bytes allowed'') | Inl _ \<Rightarrow> (lit ''  3000 bytes blocked''))) (\<lambda>_.
        op_then (query_status (lt_byte_status T) RL_Byte) (\<lambda>status.
        print_lines [(lit ''  Remaining bytes: '') @ show_u64 (rs_remaining status), []])))))"

fun free_messages :: "(nat \<Rightarrow> acquire_clock) \<Rightarrow> nat \<Rightarrow> nat \<Rightarrow> (rate_limiter app, unit) op" where
  "free_messages q i 0 = op_return ()"
| "free_messages q i (Suc n) =
     op_then (in_world (try_acquire (q i) RL_Message 1)) (\<lambda>r.
     case r of
       Inl _ \<Rightarrow> println (lit ''  ERROR: Should not be rate limited!'')
     | Inr _ \<Rightarrow> free_messages q (i + 1) n)"

definition free_section :: "limiter_times \<Rightarrow> (rate_limiter app, unit) op" where
  "free_section T =
     op_then (println (lit ''Example 7: Disabled rate limiting'')) (\<lambda>_.
     with_own (rate_limiter_disabled (lt_free_new T)) (\<lambda>s.
       op_then (println ((lit ''  Rate limiting enabled: '') @ show_bool (limiter_is_enabled (world s)))) (\<lambda>_.
       op_then (free_messages (lt_free_tries T) 0 10000) (\<lambda>_.
       print_lines [lit ''  Successfully acquired 10000 message permits (no limit)'', []])) s))"

definition rate_limiting_main :: "(duration \<Rightarrow> rstr) \<Rightarrow> limiter_times \<Rightarrow> rate_limiter main" where
  "rate_limiting_main dd T =
     op_then (print_lines [(lit ''=== WebSocket Fabric Rate Limiting Example ==='') @ [10], lit ''Example 1: Basic rate limiting'']) (\<lambda>_.
     op_then (meanwhile (\<lambda>_. rate_limiter_new (lt_new T) example_limits)) (\<lambda>_.
     op_then (print_lines (limit_lines example_limits @ [lit ''Example 2: Non-blocking acquire''])) (\<lambda>_.
     op_then (try_messages (lt_tries T) 0 25) (\<lambda>_.
     op_then (print_lines [[], lit ''Example 3: Check rate limit status'']) (\<lambda>_.
     op_then (query_status (lt_status T) RL_Message) (\<lambda>status.
     op_then (print_lines
       [(lit ''  Remaining messages: '') @ show_u64 (rs_remaining status), (lit ''  Capacity: '') @ show_u64 (rs_capacity status),
        (lit ''  Limit per second: '') @ show_u64 (rs_limit status), (lit ''  Resets in: '') @ dd (rs_resets_in status), [],
        lit ''Example 4: Blocking acquire (waits for tokens)'', lit ''  Attempting to acquire 1 message permit...'']) (\<lambda>_.
     await_ok (await_permit (lt_waits T)) (\<lambda>_.
     op_then (print_lines [(lit ''  Permit acquired after '') @ dd (lt_waited T), [], lit ''Example 5: Reset rate limits'']) (\<lambda>_.
     op_then (in_world (op_update (reset_limiter (lt_reset T)))) (\<lambda>_.
     op_then (query_status (lt_after T) RL_Message) (\<lambda>status.
     op_then (print_lines [(lit ''  After reset, remaining messages: '') @ show_u64 (rs_remaining status), []]) (\<lambda>_.
     op_then (byte_section T) (\<lambda>_.
     op_then (free_section T) (\<lambda>_.
     op_then (println (lit ''=== Example Complete ==='')) (\<lambda>_.
     finished)))))))))))))))"

section \<open>What it prints\<close>

text \<open>The limiter of the program, its bucket of messages apart.\<close>

definition example_limiter :: "u64 \<Rightarrow> token_bucket \<Rightarrow> rate_limiter" where
  "example_limiter now b =
     \<lparr>rl_config = example_limits,
      buckets = [(RL_Message, b), (RL_Byte, token_bucket_new now 1024 (1024 * 1024)),
                 (RL_Operation, token_bucket_new now 20 100)]\<rparr>"

definition message_bucket :: "u64 \<Rightarrow> u64 \<Rightarrow> token_bucket" where
  "message_bucket now n = \<lparr>tokens = n, last_refill = now, capacity = 20, refill_rate = 10\<rparr>"

lemma example_limiter_new:
  "rate_limiter_new (\<lambda>_. now) example_limits = example_limiter now (message_bucket now 20)"
  by (simp add: limiter_eval example_limits_def example_limiter_def message_bucket_def)

lemma example_bucket [simp]:
  "hm_get (buckets (example_limiter now b)) RL_Message = Some b"
  "set_bucket RL_Message b' (example_limiter now b) = example_limiter now b'"
  by (simp_all add: example_limiter_def hm_get_def set_bucket_def hm_insert_def)

lemma message_bucket_refill [simp]: "refill now (message_bucket now n) = message_bucket now n"
  by (simp add: refill_at_once message_bucket_def)

lemma fround_2: "fround 2 = Fin 2" "fround 10 = Fin 10" "fround 20 = Fin 20"
  using fround_normal [of 1 2] fround_normal [of 3 10] fround_normal [of 4 20]
  by (simp_all add: round_even_eval power_int_minus)

lemma example_doubles: "f64_of_u64 20 = Fin 20" "f64_of_u64 10 = Fin 10" "f64_of_u64 2000000000 = Fin 2000000000"
  using f64_of_int_exact [of 20] f64_of_int_exact [of 10] f64_of_int_exact [of 2000000000]
  by (simp_all add: f64_of_u64_def)

lemma empty_waits: "time_until_full now (message_bucket now 0) = (message_bucket now 0, Ret (secs 2))"
  by (simp add: time_until_full_def available_def Let_def)
    (simp add: message_bucket_def duration_from_secs_f64_def example_doubles fround_2 round_even_def)

lemma exhausted_acquire:
  "try_acquire (clock_at now) RL_Message 1 (example_limiter t0 (message_bucket now 0)) =
     (example_limiter t0 (message_bucket now 0), Ret (Err (RateLimitExceeded RL_Message (secs 2))))"
  by (simp add: try_acquire_def try_consume_eq clock_at_def Let_def empty_waits)
    (simp add: message_bucket_def empty_waits [unfolded message_bucket_def])

lemma try_granted:
  "holds n now RL_Message (world s) \<Longrightarrow> try_messages (\<lambda>_. clock_at now) i n s =
     (s\<lparr>world := taken n RL_Message (world s),
        printed := printed s @ map (\<lambda>j. (lit ''  Message '') @ show_nat (j + 1) @ (lit '' allowed'')) [i..<i + n]\<rparr>, Ret ())"
proof (induction n arbitrary: i s)
  case 0
  then show ?case by (simp add: taken_none op_return_def)
next
  case (Suc n)
  show ?case
    using Suc.IH [of "s\<lparr>world := taken (Suc 0) RL_Message (world s),
        printed := printed s @ [(lit ''  Message '') @ show_nat (i + 1) @ (lit '' allowed'')]\<rparr>" "i + 1"]
      acquire_one [OF Suc.prems]
    by (simp add: op_then_def in_world_eq upt_conv_Cons del: upt_Suc)
qed

lemma try_blocked:
  "world s = example_limiter t0 (message_bucket now 0) \<Longrightarrow> try_messages (\<lambda>_. clock_at now) i n s =
     (s\<lparr>printed := printed s @
        map (\<lambda>j. (lit ''  Message '') @ show_nat (j + 1) @ (lit '' blocked (rate limit exceeded)'')) [i..<i + n]\<rparr>, Ret ())"
proof (induction n arbitrary: i s)
  case 0
  then show ?case by (simp add: op_return_def)
next
  case (Suc n)
  show ?case
    using Suc.IH [of "s\<lparr>printed := printed s @ [(lit ''  Message '') @ show_nat (i + 1) @ (lit '' blocked (rate limit exceeded)'')]\<rparr>" "i + 1"]
      exhausted_acquire [of now t0] Suc.prems
    by (cases s) (simp add: op_then_def in_world_eq upt_conv_Cons del: upt_Suc)
qed

lemma try_messages_add:
  "try_messages q i (m + n) s = op_then (try_messages q i m) (\<lambda>_. try_messages q (i + m) n) s"
  by (induction m arbitrary: i s) (auto simp: op_then_def op_return_def split: prod.split outcome.split)

lemma try_25:
  assumes "world s = example_limiter now (message_bucket now 20)"
  shows "try_messages (\<lambda>_. clock_at now) 0 25 s =
    (s\<lparr>world := example_limiter now (message_bucket now 0),
       printed := printed s @ map (\<lambda>j. (lit ''  Message '') @ show_nat (j + 1) @ (lit '' allowed'')) [0..<20] @
         map (\<lambda>j. (lit ''  Message '') @ show_nat (j + 1) @ (lit '' blocked (rate limit exceeded)'')) [20..<25]\<rparr>, Ret ())"
proof -
  have "holds 20 now RL_Message (world s)" using assms by (simp add: holds_def message_bucket_def)
  moreover have "taken 20 RL_Message (world s) = example_limiter now (message_bucket now 0)"
    using assms by (simp add: taken_def message_bucket_def)
  ultimately show ?thesis
    using try_granted [of 20 now s 0] try_messages_add [of "\<lambda>_. clock_at now" 0 20 5 s]
    by (simp add: op_then_def try_blocked del: upt_rec_numeral)
qed


text \<open>The two seconds the limiter announces are what its bucket needs: the permit is granted after one sleep.\<close>

lemma two_seconds: "now \<le> now + 2000000000 \<Longrightarrow> sat_sub (now + 2000000000) now = (2000000000 :: u64)"
  by (simp add: sat_sub_def)

lemma fround_waits: "fround 2000000000 = Fin 2000000000"
  using fround_normal [of 30 2000000000] by (simp add: round_even_eval power_int_minus)

lemma two_seconds_refill:
  assumes "now \<le> now + 2000000000"
  shows "refill (now + 2000000000) (message_bucket now 0) = message_bucket (now + 2000000000) 20"
proof -
  have add: "tokens_to_add 2000000000 10 = 20"
    by (simp add: tokens_to_add_def nanos_per_second_eq example_doubles fround_2 f64_to_u64_def)
  have nanos: "f64_to_u64 (f64_mul (f64_div (f64_of_u64 20) (f64_of_u64 10)) nanos_per_second) = 2000000000"
    by (simp add: nanos_per_second_eq example_doubles fround_2 fround_waits f64_to_u64_def)
  have sat: "sat_add now 2000000000 = now + 2000000000"
    using iffD1 [OF no_olen_add_nat assms] by (simp add: sat_add_def)
  show ?thesis
    using assms by (simp add: refill_def message_bucket_def two_seconds add nanos sat sat_add_def [of 0] sat_sub_def [of 20])
qed

lemma granted_after_wait:
  assumes "now \<le> now + 2000000000"
  shows "acquire [clock_at now, clock_at (now + 2000000000)] RL_Message 1 (example_limiter t0 (message_bucket now 0)) =
    (example_limiter t0 (message_bucket (now + 2000000000) 19), Some (Ret (Ok ())), [secs 2])"
proof -
  have "try_acquire (clock_at (now + 2000000000)) RL_Message 1 (example_limiter t0 (message_bucket now 0)) =
      (example_limiter t0 (message_bucket (now + 2000000000) 19), Ret (Ok ()))"
    by (simp add: try_acquire_def try_consume_eq clock_at_def Let_def two_seconds_refill [OF assms])
      (simp add: message_bucket_def)
  then show ?thesis by (simp add: acquire_def exhausted_acquire)
qed


section \<open>The run\<close>

definition limiter_run :: "u64 \<Rightarrow> u64 \<Rightarrow> duration \<Rightarrow> limiter_times" where
  "limiter_run now later waited =
     \<lparr>lt_new = (\<lambda>_. now), lt_tries = (\<lambda>_. clock_at now), lt_status = (now, now),
      lt_waits = [clock_at now, clock_at later], lt_waited = waited, lt_reset = (\<lambda>_. later),
      lt_after = (later, later), lt_byte_new = (\<lambda>_. later), lt_byte_try = clock_at later,
      lt_byte_status = (later, later), lt_free_new = (\<lambda>_. later), lt_free_tries = (\<lambda>_. clock_at later)\<rparr>"

lemma message_bucket_status:
  "limiter_status now now RL_Message (example_limiter t0 (message_bucket now 0)) =
     (example_limiter t0 (message_bucket now 0),
      Ret \<lparr>rs_remaining = 0, rs_resets_in = secs 2, rs_limit = 10, rs_capacity = 20\<rparr>)"
  by (simp add: limiter_status_def available_def Let_def empty_waits)
    (simp add: message_bucket_def)

lemma reset_status:
  "limiter_status now now RL_Message (reset_limiter (\<lambda>_. now) (example_limiter t0 (message_bucket t n))) =
     (reset_limiter (\<lambda>_. now) (example_limiter t0 (message_bucket t n)),
      Ret \<lparr>rs_remaining = 20, rs_resets_in = 0, rs_limit = 10, rs_capacity = 20\<rparr>)"
  by (simp add: limiter_eval example_limiter_def message_bucket_def)

lemma byte_doubles: "f64_of_u64 3000 = Fin 3000" "fround (375 / 256) = Fin (375 / 256)"
  using f64_of_int_exact [of 3000] fround_normal [of 0 "375 / 256"]
  by (simp_all add: f64_of_u64_def round_even_eval power_int_minus)

lemma byte_section_prints:
  "byte_section (limiter_run now later w) s =
     (s\<lparr>printed := printed s @ [lit ''Example 6: Byte rate limiting'', lit ''  3000 bytes allowed'', lit ''  Remaining bytes: 1096'', []]\<rparr>, Ret ())"
  by (simp add: byte_section_def limiter_run_def op_then_def with_own_def in_world_eq query_status_def limiter_eval
        byte_doubles round_even_def show_u64_def show_nat_step is_ok_def)

lemma free_granted:
  "holds n now RL_Message (world s) ==>
     free_messages (\<lambda>_. clock_at now) i n s = (s\<lparr>world := taken n RL_Message (world s)\<rparr>, Ret ())"
  by (induction n arbitrary: i s)
    (simp_all add: taken_none op_return_def op_then_def in_world_eq acquire_one)

declare free_messages.simps [simp del]

lemma free_section_prints:
  "free_section (limiter_run now later w) s =
     (s\<lparr>printed := printed s @ [lit ''Example 7: Disabled rate limiting'', lit ''  Rate limiting enabled: false'',
        lit ''  Successfully acquired 10000 message permits (no limit)'', []]\<rparr>, Ret ())"
proof -
  have "holds 10000 later RL_Message (rate_limiter_disabled (\<lambda>_. later))"
    by (simp add: limiter_eval)
  then show ?thesis
    by (simp add: free_section_def limiter_run_def op_then_def with_own_def free_granted)
      (simp add: limiter_eval show_bool_def)
qed

theorem rate_limiting_example:
  assumes "now \<le> now + 2000000000"
  shows "rate_limiting_main dd (limiter_run now (now + 2000000000) waited) \<lparr>world = l0, printed = []\<rparr> =
    (\<lparr>world = reset_limiter (\<lambda>_. now + 2000000000) (example_limiter now (message_bucket (now + 2000000000) 19)),
      printed =
        [(lit ''=== WebSocket Fabric Rate Limiting Example ==='') @ [10], lit ''Example 1: Basic rate limiting'',
         lit ''Configured limits:'', lit ''  Messages: 10 per second (burst: 20)'',
         lit ''  Bytes: 1048576 per second (burst: 20)'', lit ''  Operations: 100 per second (burst: 20)'', [],
         lit ''Example 2: Non-blocking acquire''] @
        map (\<lambda>j. (lit ''  Message '') @ show_nat (j + 1) @ (lit '' allowed'')) [0..<20] @
        map (\<lambda>j. (lit ''  Message '') @ show_nat (j + 1) @ (lit '' blocked (rate limit exceeded)'')) [20..<25] @
        [[], lit ''Example 3: Check rate limit status'', lit ''  Remaining messages: 0'', lit ''  Capacity: 20'',
         lit ''  Limit per second: 10'', (lit ''  Resets in: '') @ dd (secs 2), [],
         lit ''Example 4: Blocking acquire (waits for tokens)'', lit ''  Attempting to acquire 1 message permit...'',
         (lit ''  Permit acquired after '') @ dd waited, [], lit ''Example 5: Reset rate limits'',
         lit ''  After reset, remaining messages: 20'', [],
         lit ''Example 6: Byte rate limiting'', lit ''  3000 bytes allowed'', lit ''  Remaining bytes: 1096'', [],
         lit ''Example 7: Disabled rate limiting'', lit ''  Rate limiting enabled: false'',
         lit ''  Successfully acquired 10000 message permits (no limit)'', [],
         lit ''=== Example Complete ==='']\<rparr>, Ret (Some (Ok ())))"
proof -
  let ?w = "example_limiter now (message_bucket now 20)"
  note steps = op_then_def limiter_run_def query_status_def in_world_eq await_ok_def await_permit_def
  show ?thesis
    unfolding rate_limiting_main_def
    by (simp add: steps try_25 example_limiter_new message_bucket_status granted_after_wait [OF assms] reset_status
        byte_section_prints [unfolded limiter_run_def] free_section_prints [unfolded limiter_run_def] op_update_def)
      (simp add: limit_lines_def example_limits_def rate_config_eval show_u64_def show_nat_step)
qed

end
