(* ===== verification/ExServers.thy ===== *)
theory ExServers
  imports Accepting Delivery Console "HOL-Library.Sublist"
begin

text \<open>
  \<^verbatim>\<open>src/examples/echo_server.rs\<close> and \<^verbatim>\<open>src/examples/basic_server.rs\<close>: programs over the state of a
  server that its other tasks change while the program sleeps and between its readings.
\<close>

section \<open>What a server writes on its own\<close>

text \<open>The events of the accept loop and of the tasks of the clients, as against calls of a handle.\<close>

fun own_event :: "server_event \<Rightarrow> bool" where
  "own_event (Accepts a) = True"
| "own_event (Registers failed u addr) = True"
| "own_event (HWrites u held failed) = True"
| "own_event (HArrives u item) = True"
| "own_event _ = False"

fun output_to :: "bool \<Rightarrow> uuid \<Rightarrow> (instant \<times> server_event) list \<Rightarrow> ws_server \<Rightarrow> tungstenite list" where
  "output_to ck u [] s = []"
| "output_to ck u (ev # es) s =
     serve_written ck u ev s @ serve_replied ck u ev s @ output_to ck u es (server_step ck ev s)"

fun pings_of :: "uuid \<Rightarrow> (instant \<times> server_event) list \<Rightarrow> bytes list" where
  "pings_of u [] = []"
| "pings_of u ((now, e) # es) =
     (case e of HArrives v (Inr (TPing b)) \<Rightarrow> if v = u then b # pings_of u es else pings_of u es | _ \<Rightarrow> pings_of u es)"

definition silent :: "ws_server \<Rightarrow> bool" where
  "silent s = ((\<forall>u. queue_of s u = []) \<and> messages_sent (sv_metrics s) = 0)"

lemma silent_new: "silent (server_new cfg)"
  by (simp add: silent_def server_new_def queue_of_def hm_get_def hm_empty_def metrics_new_def)

lemma silent_started: "silent s \<Longrightarrow> silent (fst (start_listening failed ch s))"
  by (simp add: silent_def start_listening_def queue_of_def split: option.split)

lemma metrics_sent [simp]:
  "messages_sent (fst (record_message_received ck now n m)) = messages_sent m"
  "messages_sent (fst (record_connection ck now m)) = messages_sent m"
  "messages_sent (fst (record_disconnection ck now m)) = messages_sent m"
  "messages_sent (fst (record_connection_error ck m)) = messages_sent m"
  "messages_sent (fst (record_receive_error ck m)) = messages_sent m"
  by (simp_all add: metrics_ops op_then_fst op_add_def op_update_def split: outcome.splits)

text \<open>A step that keeps the channels and the count of messages sent.\<close>

lemma silent_cong:
  "sv_handlers s' = sv_handlers s \<Longrightarrow> messages_sent (sv_metrics s') = messages_sent (sv_metrics s) \<Longrightarrow> silent s \<Longrightarrow> silent s'"
  by (simp add: silent_def queue_of_def)

lemma serve_end_sent: "messages_sent (sv_metrics (fst (serve_end ck now u s))) = messages_sent (sv_metrics s)"
  by (simp add: serve_end_def op_then_fst op_on_fst op_update_def op_return_def split: outcome.split)

lemma serve_incoming_sent:
  "messages_sent (sv_metrics (fst (serve_incoming ck now item s))) = messages_sent (sv_metrics s)"
  by (cases item; (cases "projr item")?;
      simp add: serve_incoming_def serve_received_def op_then_fst op_on_fst op_return_def op_update_def
        split: outcome.split)

lemma accept_turn_sent: "messages_sent (sv_metrics (fst (accept_turn ck a s))) = messages_sent (sv_metrics s)"
  by (simp add: accept_turn_def op_then_fst op_on_fst op_return_def split: sum.split outcome.split)

lemma registered_queue: "queue_of (fst (handle_connection ck now failed v addr s)) u \<in> {queue_of s u, []}"
  by (auto simp: handle_connection_def Let_def op_then_fst op_on_fst op_update_def op_return_def
      queue_of_def set_handler_def hm.lookup_insert split: option.split outcome.split)

lemma registered_sent:
  "messages_sent (sv_metrics (fst (handle_connection ck now failed v addr s))) = messages_sent (sv_metrics s)"
  by (simp add: handle_connection_def Let_def op_then_fst op_on_fst op_update_def op_return_def set_handler_def
      split: option.split outcome.split)

lemma silent_set_task: "silent s \<Longrightarrow> silent (set_task u t s)"
  by (simp add: silent_def set_task_handlers) (simp add: set_task_def set_handler_def split: option.split)

lemma silent_turn:
  assumes "silent s" and "\<not> (\<exists>h. hm_get (sv_handlers s) u = Some h \<and> \<not> silent (fst (f h s)))"
  shows "silent (client_turn ck now u f s)"
proof (cases "hm_get (sv_handlers s) u")
  case (Some h)
  obtain s1 r where r: "f h s = (s1, r)" by (cases "f h s")
  obtain s2 r2 where r2: "serve_end ck now u s1 = (s2, r2)" by (cases "serve_end ck now u s1")
  have s1: "silent s1" using assms(2) Some r by simp
  with r2 serve_end_handlers [of ck now u s1] serve_end_sent [of ck now u s1]
  have "silent s2" by (auto intro: silent_cong)
  with assms(1) Some r r2 s1 show ?thesis
    by (auto simp: client_turn_def silent_set_task split: outcome.split turn.split)
qed (simp add: client_turn_def assms(1))

lemma silent_outgoing:
  assumes "silent s" and "hm_get (sv_handlers s) u = Some h"
  shows "serve_outgoing ck held failed u h s =
    (s, Ret (None, if held \<or> hm_get (sv_connections s) u \<noteq> None then Continue else Break))"
proof -
  have "hd_queue h = []" using assms by (auto simp: silent_def queue_of_def dest: spec [of _ u])
  then show ?thesis by (simp add: serve_outgoing_def)
qed

lemma silent_step:
  assumes "silent s" and "own_event e"
  shows "silent (server_step ck (now, e) s)"
proof (cases e)
  case (Accepts a)
  then show ?thesis using silent_cong [OF accept_turn_handlers accept_turn_sent assms(1)] by simp
next
  case (Registers failed v addr)
  with assms(1) show ?thesis
    using registered_queue [of ck now failed v addr s] by (auto simp: silent_def registered_sent)
next
  case (HWrites v held failed)
  with assms(1) show ?thesis by (auto intro!: silent_turn simp: silent_outgoing)
next
  case (HArrives v item)
  with assms(1) show ?thesis
    by (auto intro!: silent_turn intro: silent_cong [OF serve_incoming_handlers serve_incoming_sent])
qed (use assms(2) in simp_all)

lemma silent_steps:
  assumes "silent s" and "\<forall>ev \<in> set es. own_event (snd ev)"
  shows "silent (fold (server_step ck) es s)"
  using assms
proof (induction es arbitrary: s)
  case (Cons ev es)
  then show ?case using silent_step [of s "snd ev" ck "fst ev"] by simp
qed simp

text \<open>A turn of the loop writes nothing of its own, and answers a ping only.\<close>

lemma silent_writes: "silent s \<Longrightarrow> serve_written ck u ev s = []"
  by (cases ev) (auto simp: serve_written_def turn_output_def silent_outgoing split: server_event.split option.split)

lemma reply_to_ping:
  "serve_replied ck u (now, HArrives u item) s \<in> {[], map TPong (pings_of u [(now, HArrives u item)])}"
  by (cases item; (cases "projr item")?;
      auto simp: serve_replied_def turn_output_def serve_incoming_def serve_received_def op_then_def op_return_def
        handle_ping_def message_pong_def split: option.split prod.split outcome.split)

lemma replies_to_pings: "subseq (serve_replied ck u ev s) (map TPong (pings_of u [ev]))"
proof (cases "\<exists>now item. ev = (now, HArrives u item)")
  case True
  then obtain now item where ev: "ev = (now, HArrives u item)" by blast
  have "subseq xs ys" if "xs \<in> {[], ys}" for xs ys :: "tungstenite list"
    using that by auto
  from this [OF reply_to_ping] show ?thesis unfolding ev .
next
  case False
  then have "serve_replied ck u ev s = []"
    by (cases ev) (auto simp: serve_replied_def split: server_event.split)
  then show ?thesis by simp
qed

lemma pings_of_Cons: "pings_of u (ev # es) = pings_of u [ev] @ pings_of u es"
  by (cases ev) (auto split: server_event.split sum.split tungstenite.split)

text \<open>C15: The server never passes on what it receives: unless the program that owns it sends, broadcasts or
  shuts down, all a client ever reads from it is the pongs to its own pings, in their order; no
  channel holds a message and the count of messages sent stays zero, whatever data arrives.\<close>

theorem server_only_pongs:
  assumes "\<forall>ev \<in> set es. own_event (snd ev)"
    and "s = fst (start_listening failed ch (server_new cfg))"
  shows "subseq (output_to ck u es s) (map TPong (pings_of u es)) \<and>
    queue_of (fold (server_step ck) es s) u = [] \<and>
    messages_sent (sv_metrics (fold (server_step ck) es s)) = 0"
proof -
  have s: "silent s" by (simp add: assms(2) silent_started silent_new)
  with assms(1) have "subseq (output_to ck u es s) (map TPong (pings_of u es))"
  proof (induction es arbitrary: s)
    case (Cons ev es)
    then have "subseq (output_to ck u es (server_step ck ev s)) (map TPong (pings_of u es))"
      using silent_step [of s "snd ev" ck "fst ev"] by simp
    then show ?case
      unfolding pings_of_Cons [of u ev es]
      using list_emb_append_mono [OF replies_to_pings] Cons.prems(2) by (simp add: silent_writes)
  qed simp
  with silent_steps [OF s assms(1), of ck] show ?thesis by (simp add: silent_def)
qed

definition chatting :: "(instant \<times> server_event) list" where
  "chatting =
     [(1, Accepts (Inr [])), (2, Registers None 7 []), (3, HArrives 7 (Inr (TText [104, 105]))),
      (4, HArrives 7 (Inr (TPing [9]))), (5, HWrites 7 False None)]"

theorem server_only_pongs_witness:
  "subseq (output_to True 7 chatting (fst (start_listening None 0 (server_new (server_config_new (lit ''127.0.0.1:8081''))))))
     [TPong [9]]"
proof -
  have "\<forall>ev \<in> set chatting. own_event (snd ev)" and "pings_of 7 chatting = [[9]]"
    by (simp_all add: chatting_def)
  then show ?thesis
    using server_only_pongs [OF _ refl, of chatting True 7 None 0 "server_config_new (lit ''127.0.0.1:8081'')"] by simp
qed

section \<open>The echo server\<close>

text \<open>What the other tasks do while the program does not run.\<close>

definition others :: "bool \<Rightarrow> (instant \<times> server_event) list \<Rightarrow> (ws_server app, unit) op" where
  "others ck es = meanwhile (fold (server_step ck) es)"

definition echo_config :: server_config where
  "echo_config =
     server_with_max_message_size (1024 * 1024) (server_with_max_connections 50 (server_config_new (lit ''127.0.0.1:8081'')))"

text \<open>A turn of the loop with what happens before each of its three readings; \<open>None\<close> is a program that
  still runs when the turns end.\<close>

type_synonym idle_times = "(instant \<times> server_event) list \<times> (instant \<times> server_event) list \<times> (instant \<times> server_event) list"

definition status_line :: "nat \<Rightarrow> u64 \<Rightarrow> u64 \<Rightarrow> rstr" where
  "status_line count sent received =
     (lit ''Status: '') @ show_nat count @ (lit '' clients | Sent: '') @ show_u64 sent @ (lit '' msgs | Recv: '') @ show_u64 received @ (lit '' msgs'')"

definition client_change :: "nat \<Rightarrow> nat \<Rightarrow> rstr list" where
  "client_change count last_count =
     (if count = last_count then []
      else if last_count < count then [(lit ''Client connected (total: '') @ show_nat count @ (lit '')'')]
      else [(lit ''Client disconnected (total: '') @ show_nat count @ (lit '')'')])"

fun echo_loop :: "bool \<Rightarrow> idle_times list \<Rightarrow> nat \<Rightarrow> ws_server main" where
  "echo_loop ck [] last_count = op_return None"
| "echo_loop ck ((es1, es2, es3) # turns) last_count =
     op_then (others ck es1) (\<lambda>_.
     op_then (read_world Server.connection_count) (\<lambda>count.
     op_then (print_lines (client_change count last_count)) (\<lambda>_.
     op_then (others ck es2) (\<lambda>_.
     op_then (read_world (\<lambda>s. read_messages_sent (sv_metrics s))) (\<lambda>sent.
     op_then (others ck es3) (\<lambda>_.
     op_then (read_world (\<lambda>s. read_messages_received (sv_metrics s))) (\<lambda>received.
     op_then (println (status_line count sent received)) (\<lambda>_.
     echo_loop ck turns count))))))))"

text \<open>The spawned task starts listening on the shutdown channel \<open>ch\<close>, or fails to bind its address.\<close>

definition echo_server_main ::
  "bool \<Rightarrow> nat \<Rightarrow> rstr option \<Rightarrow> (instant \<times> server_event) list \<Rightarrow> idle_times list \<Rightarrow> ws_server main" where
  "echo_server_main ck ch failed es turns =
     op_then (meanwhile (\<lambda>_. server_new echo_config)) (\<lambda>_.
     op_then (print_lines
       [lit ''Echo Server Example'', lit ''=================='', lit ''Connect with: ws://127.0.0.1:8081'', []]) (\<lambda>_.
     op_then (meanwhile (\<lambda>s. fst (start_listening failed ch s))) (\<lambda>_.
     op_then (others ck es) (\<lambda>_.
     op_then (print_lines [lit ''Echo server is running!'', lit ''Press Ctrl+C to stop'', []]) (\<lambda>_.
     echo_loop ck turns 0)))))"

lemma others_eq [simp]: "others ck es s = (s\<lparr>world := fold (server_step ck) es (world s)\<rparr>, Ret ())"
  by (simp add: others_def)

text \<open>The lines of the loop: changes, and reports of nothing sent.\<close>

definition echo_line :: "rstr \<Rightarrow> bool" where
  "echo_line l = ((\<exists>n. l = (lit ''Client connected (total: '') @ show_nat n @ (lit '')'')) \<or>
     (\<exists>n. l = (lit ''Client disconnected (total: '') @ show_nat n @ (lit '')'')) \<or> (\<exists>n received. l = status_line n 0 received))"

definition idle_own :: "idle_times \<Rightarrow> bool" where
  "idle_own t = (case t of (es1, es2, es3) \<Rightarrow> \<forall>ev \<in> set (es1 @ es2 @ es3). own_event (snd ev))"

lemma echo_loop_lines:
  assumes "silent (world s)" and "\<forall>t \<in> set turns. idle_own t"
  shows "\<exists>w ls. echo_loop ck turns n s = (\<lparr>world = w, printed = printed s @ ls\<rparr>, Ret None) \<and>
    silent w \<and> (\<forall>l \<in> set ls. echo_line l)"
  using assms
proof (induction turns arbitrary: n s)
  case Nil
  then show ?case by (cases s) (auto simp: op_return_def)
next
  case (Cons t turns)
  obtain es1 es2 es3 where t: "t = (es1, es2, es3)" by (cases t)
  define s1 s2 s3 where "s1 = fold (server_step ck) es1 (world s)"
    and "s2 = fold (server_step ck) es2 s1" and "s3 = fold (server_step ck) es3 s2"
  have silent: "silent s1" "silent s2" "silent s3"
    using Cons.prems by (auto simp: s1_def s2_def s3_def t idle_own_def intro!: silent_steps)
  let ?count = "Server.connection_count s1"
  let ?line = "status_line ?count 0 (read_messages_received (sv_metrics s3))"
  let ?s = "\<lparr>world = s3, printed = printed s @ client_change ?count n @ [?line]\<rparr>"
  have "echo_loop ck (t # turns) n s = echo_loop ck turns ?count ?s"
    using silent(2) by (cases s) (simp add: t op_then_def s1_def s2_def s3_def read_messages_sent_def silent_def)
  moreover have "\<forall>l \<in> set (client_change ?count n @ [?line]). echo_line l"
    by (auto simp: client_change_def echo_line_def)
  ultimately show ?case
    using Cons.IH [of ?s ?count] silent(3) Cons.prems(2) by fastforce
qed

text \<open>The echo server echoes nothing: whoever connects and whatever arrives, every status line of the
  program says that no message was sent.\<close>

theorem echo_server_never_echoes:
  assumes "\<forall>ev \<in> set es. own_event (snd ev)" and "\<forall>t \<in> set turns. idle_own t"
  shows "\<exists>w ls. echo_server_main ck ch failed es turns s =
      (\<lparr>world = w, printed = printed s @
         [lit ''Echo Server Example'', lit ''=================='', lit ''Connect with: ws://127.0.0.1:8081'', [],
          lit ''Echo server is running!'', lit ''Press Ctrl+C to stop'', []] @ ls\<rparr>, Ret None) \<and>
    (\<forall>l \<in> set ls. echo_line l) \<and> (\<forall>u. queue_of w u = [])"
proof -
  let ?w = "fold (server_step ck) es (fst (start_listening failed ch (server_new echo_config)))"
  have "silent ?w" by (rule silent_steps [OF silent_started [OF silent_new] assms(1)])
  from echo_loop_lines [OF _ assms(2), of "\<lparr>world = ?w, printed = printed s @
      [lit ''Echo Server Example'', lit ''=================='', lit ''Connect with: ws://127.0.0.1:8081'', [],
       lit ''Echo server is running!'', lit ''Press Ctrl+C to stop'', []]\<rparr>" ck 0] this
  show ?thesis
    by (cases s) (force simp: echo_server_main_def op_then_def silent_def)
qed

section \<open>The broadcasting server\<close>

definition basic_config :: server_config where
  "basic_config =
     server_with_buffer_size 1000 (server_with_max_message_size (1024 * 1024)
       (server_with_max_connections 100 (server_config_new (lit ''127.0.0.1:8080''))))"

definition broadcast_message :: "nat \<Rightarrow> rstr" where
  "broadcast_message counter = (lit ''Broadcast message #'') @ show_nat counter"

definition broadcast_line :: "nat \<Rightarrow> nat \<Rightarrow> rstr" where
  "broadcast_line count counter =
     (if 0 < count then (lit ''Broadcast to '') @ show_nat count @ (lit '' clients: '') @ broadcast_message counter
      else (lit ''No clients connected (message: '') @ broadcast_message counter @ (lit '')''))"

definition statistics_line :: "nat \<Rightarrow> u64 \<Rightarrow> u64 \<Rightarrow> rstr" where
  "statistics_line count sent received =
     (lit ''Connections: '') @ show_nat count @ (lit '' | Sent: '') @ show_u64 sent @ (lit '' | Recv: '') @ show_u64 received"

text \<open>A turn has the instant of its broadcast and what happens before it and before each reading. A
  broadcast answers a number or waits, never an error; \<open>None\<close> is a program that has not ended.\<close>

type_synonym broadcast_turn = "instant \<times> (instant \<times> server_event) list \<times> idle_times"

definition shut_and_finish :: "ws_server main" where
  "shut_and_finish =
     op_then (println (lit ''Demo complete, shutting down...'')) (\<lambda>_.
     op_then (in_world (\<lambda>s. case server_shutdown s of (s1, done) \<Rightarrow> (s1, Ret done))) (\<lambda>done.
     if done then finished else op_return None))"

fun basic_loop :: "bool \<Rightarrow> broadcast_turn list \<Rightarrow> nat \<Rightarrow> ws_server main" where
  "basic_loop ck [] counter = op_return None"
| "basic_loop ck ((now, es, es1, es2, es3) # turns) counter =
     op_then (others ck es) (\<lambda>_.
     op_then (in_world (broadcast_text ck now (broadcast_message (counter + 1)))) (\<lambda>r.
     case r of
       None \<Rightarrow> op_return None
     | Some n \<Rightarrow>
         op_then (println (broadcast_line n (counter + 1))) (\<lambda>_.
         op_then (others ck es1) (\<lambda>_.
         op_then (read_world Server.connection_count) (\<lambda>count.
         op_then (others ck es2) (\<lambda>_.
         op_then (read_world (\<lambda>s. read_messages_sent (sv_metrics s))) (\<lambda>sent.
         op_then (others ck es3) (\<lambda>_.
         op_then (read_world (\<lambda>s. read_messages_received (sv_metrics s))) (\<lambda>received.
         op_then (print_lines [statistics_line count sent received, []]) (\<lambda>_.
         if 10 \<le> counter + 1 then shut_and_finish
         else basic_loop ck turns (counter + 1)))))))))))"

definition basic_server_main ::
  "bool \<Rightarrow> nat \<Rightarrow> rstr option \<Rightarrow> (instant \<times> server_event) list \<Rightarrow> broadcast_turn list \<Rightarrow> ws_server main" where
  "basic_server_main ck ch failed es turns =
     op_then (meanwhile (\<lambda>_. server_new basic_config)) (\<lambda>_.
     op_then (print_lines [lit ''WebSocket Server Example'', lit ''======================='', []]) (\<lambda>_.
     op_then (meanwhile (\<lambda>s. fst (start_listening failed ch s))) (\<lambda>_.
     op_then (others ck es) (\<lambda>_.
     op_then (print_lines [lit ''Server started on ws://127.0.0.1:8080'', []]) (\<lambda>_.
     basic_loop ck turns 0)))))"

text \<open>The program ends after ten broadcasts: with nobody connected it prints and does the following, whether
  or not its server ever came to listen.\<close>

definition lonely_turn :: "nat \<Rightarrow> rstr list" where
  "lonely_turn counter = [broadcast_line 0 counter, statistics_line 0 0 0, []]"

definition nobody :: "ws_server \<Rightarrow> bool" where
  "nobody s = (sv_connections s = [] \<and> messages_sent (sv_metrics s) = 0 \<and> messages_received (sv_metrics s) = 0)"

lemma shut_alone:
  "nobody (world s) \<Longrightarrow> shut_and_finish s =
     (\<lparr>world = (world s)\<lparr>sv_running := False\<rparr>, printed = printed s @ [lit ''Demo complete, shutting down...'']\<rparr>,
      Ret (Some (Ok ())))"
  by (cases s; cases "world s")
    (simp add: shut_and_finish_def nobody_def op_then_def in_world_eq server_shutdown_def hm_values_def hm_empty_def)

lemma basic_loop_alone:
  assumes "nobody (world s)" and "counter + length nows = 10" and "nows \<noteq> []"
  shows "basic_loop ck (map (\<lambda>now. (now, [], [], [], [])) nows) counter s =
    (\<lparr>world = (world s)\<lparr>sv_running := False\<rparr>,
      printed = printed s @ concat (map lonely_turn [counter + 1..<11]) @ [lit ''Demo complete, shutting down...'']\<rparr>,
     Ret (Some (Ok ())))"
  using assms
proof (induction nows arbitrary: counter s)
  case (Cons now nows)
  let ?s = "s\<lparr>printed := printed s @ lonely_turn (counter + 1)\<rparr>"
  have turn: "basic_loop ck (map (\<lambda>now. (now, [], [], [], [])) (now # nows)) counter s =
      (if 10 \<le> counter + 1 then shut_and_finish ?s
       else basic_loop ck (map (\<lambda>now. (now, [], [], [], [])) nows) (counter + 1) ?s)"
    using Cons.prems(1)
    by (cases s) (simp add: op_then_def in_world_eq broadcast_text_def broadcast_def nobody_def hm_values_def
        Server.connection_count_def hm_len_def read_messages_sent_def read_messages_received_def lonely_turn_def)
  show ?case
  proof (cases "nows = []")
    case True
    with Cons.prems show ?thesis unfolding turn by (simp add: shut_alone)
  next
    case False
    then have "counter < 9" using Cons.prems(2) by (cases nows) auto
    with False Cons.prems Cons.IH [of ?s "counter + 1"] show ?thesis
      unfolding turn by (simp add: upt_conv_Cons [of "Suc counter" 11] del: upt_Suc)
  qed
qed simp

theorem basic_server_alone:
  assumes "length nows = 10"
  shows "basic_server_main ck ch failed [] (map (\<lambda>now. (now, [], [], [], [])) nows) s =
    (\<lparr>world = (fst (start_listening failed ch (server_new basic_config)))\<lparr>sv_running := False\<rparr>,
      printed = printed s @
        [lit ''WebSocket Server Example'', lit ''======================='', [], lit ''Server started on ws://127.0.0.1:8080'', []] @
        concat (map lonely_turn [1..<11]) @ [lit ''Demo complete, shutting down...'']\<rparr>,
     Ret (Some (Ok ())))"
proof -
  let ?w = "fst (start_listening failed ch (server_new basic_config))"
  have "nobody ?w"
    by (simp add: nobody_def start_listening_def server_new_def metrics_new_def hm_empty_def split: option.split)
  moreover have "nows \<noteq> []" using assms by auto
  ultimately show ?thesis
    using assms basic_loop_alone [where s = "\<lparr>world = ?w, printed = printed s @ [lit ''WebSocket Server Example'',
        lit ''======================='', [], lit ''Server started on ws://127.0.0.1:8080'', []]\<rparr>" and counter = 0 and nows = nows and ck = ck]
    by (cases s) (simp add: basic_server_main_def op_then_def)
qed

end
