(* ===== verification/ExClients.thy ===== *)
theory ExClients
  imports Client Console
begin

text \<open>
  \<^verbatim>\<open>src/examples/basic_client.rs\<close> and \<^verbatim>\<open>src/examples/configured_client.rs\<close>: programs over the state of
  a client that its tasks, the network and the heartbeat change between the calls.
\<close>

section \<open>What the tasks do in between\<close>

definition background :: "bool \<Rightarrow> (instant \<times> client_event) list \<Rightarrow> (ws_client app, unit) op" where
  "background ck es = meanwhile (fold (client_step ck) es)"

text \<open>A line with a reading, each reading one critical section.\<close>

definition report :: "bool \<Rightarrow> (instant \<times> client_event) list \<Rightarrow> rstr \<Rightarrow> (ws_client \<Rightarrow> rstr) \<Rightarrow> (ws_client app, unit) op" where
  "report ck es label f =
     op_then (background ck es) (\<lambda>_. op_then (read_world f) (\<lambda>v. println (label @ v)))"

definition on_client :: "(ws_client, 'a) op \<Rightarrow> (ws_client app, 'a) op" where
  "on_client f = in_world f"

definition metric :: "(metrics \<Rightarrow> u64) \<Rightarrow> ws_client \<Rightarrow> rstr" where
  "metric f c = show_u64 (f (wc_metrics c))"

text \<open>The sign of a microsecond is the character 181.\<close>

definition show_micros :: "u64 \<Rightarrow> rstr" where
  "show_micros n = show_u64 n @ [181, 115]"

definition latency_line :: "rstr \<Rightarrow> u64 \<Rightarrow> rstr" where
  "latency_line name n = (lit ''  Latency '') @ name @ (lit '': '') @ show_micros n"

definition report_latencies ::
  "bool \<Rightarrow> (instant \<times> client_event) list \<Rightarrow> (rstr \<times> (percentiles \<Rightarrow> u64)) list \<Rightarrow> (ws_client app, unit) op" where
  "report_latencies ck es which =
     op_then (background ck es) (\<lambda>_.
     op_then (read_world (\<lambda>c. latency_percentiles (wc_metrics c))) (\<lambda>p.
     print_lines (map (\<lambda>(name, f). latency_line name (f p)) which)))"

section \<open>The basic client\<close>

definition echo_url :: rstr where
  "echo_url = (lit ''ws://echo.websocket.org'')"

definition basic_client_config :: client_config where
  "basic_client_config =
     client_with_auto_reconnect True (client_with_connection_timeout (secs 5) (client_config_new echo_url))"

text \<open>\<^verbatim>\<open>connect_with_config\<close> and \<^verbatim>\<open>?\<close>: the client takes the place of the state.\<close>

definition connecting ::
  "bool \<Rightarrow> instant \<Rightarrow> rstr option \<Rightarrow> client_config \<Rightarrow> ws_client main \<Rightarrow> ws_client main" where
  "connecting ck now failed cfg rest =
     op_then (of_outcome (connect_with_config ck now failed cfg)) (\<lambda>r.
     try_ok r (\<lambda>c. op_then (meanwhile (\<lambda>_. c)) (\<lambda>_. rest)))"

text \<open>\<open>clock\<close> has the instants of the calls and \<open>bg\<close> what happens before each of them.\<close>

definition basic_client_main ::
  "bool \<Rightarrow> (nat \<Rightarrow> instant) \<Rightarrow> (nat \<Rightarrow> (instant \<times> client_event) list) \<Rightarrow> rstr option \<Rightarrow> ws_client main" where
  "basic_client_main ck clock bg failed =
     op_then (print_lines
       [lit ''WebSocket Basic Client Example'', (lit ''=============================='') @ [10],
        (lit ''Connecting to '') @ echo_url @ (lit ''...'')]) (\<lambda>_.
     connecting ck (clock 0) failed basic_client_config (
     op_then (print_lines [(lit ''Connected successfully!'') @ [10], lit ''Sending text message...'']) (\<lambda>_.
     op_then (background ck (bg 0)) (\<lambda>_.
     await_ok (on_client (client_send_text ck (clock 1) (lit ''Hello, WebSocket!''))) (\<lambda>_.
     op_then (println ((lit ''Text message sent!'') @ [10])) (\<lambda>_.
     op_then (background ck (bg 1)) (\<lambda>_.
     op_then (println (lit ''Sending binary message...'')) (\<lambda>_.
     await_ok (on_client (client_send_binary ck (clock 2) [1, 2, 3, 4, 5])) (\<lambda>_.
     op_then (println ((lit ''Binary message sent!'') @ [10])) (\<lambda>_.
     op_then (background ck (bg 2)) (\<lambda>_.
     op_then (println (lit ''Connection Metrics:'')) (\<lambda>_.
     op_then (report ck (bg 3) (lit ''  Messages sent: '') (metric read_messages_sent)) (\<lambda>_.
     op_then (report ck (bg 4) (lit ''  Messages received: '') (metric read_messages_received)) (\<lambda>_.
     op_then (report ck (bg 5) (lit ''  Bytes sent: '') (metric read_bytes_sent)) (\<lambda>_.
     op_then (report ck (bg 6) (lit ''  Bytes received: '') (metric read_bytes_received)) (\<lambda>_.
     op_then (report_latencies ck (bg 7) [(lit ''P50'', p50), (lit ''P95'', p95)]) (\<lambda>_.
     op_then (println ([10] @ (lit ''Closing connection...''))) (\<lambda>_.
     op_then (background ck (bg 8)) (\<lambda>_.
     await_ok (on_client (client_close ck (clock 3) (Some (lit ''Example completed'')))) (\<lambda>_.
     op_then (println (lit ''Connection closed.'')) (\<lambda>_.
     finished)))))))))))))))))))))"

section \<open>The configured client\<close>

text \<open>The assertions on the thresholds make the configuration an outcome.\<close>

definition configured_backpressure :: "backpressure_config outcome" where
  "configured_backpressure =
     bind_outcome (with_backpressure_threshold (f64_lit (75/100)) (with_max_buffer_size 5000 backpressure_config_new))
       (with_recovery_threshold (f64_lit (50/100)))"

definition configured_client_config :: "client_config outcome" where
  "configured_client_config =
     bind_outcome configured_backpressure (\<lambda>b. Ret
       (client_with_connection_timeout (secs 10)
       (client_with_backpressure_config b
       (client_with_heartbeat_config (with_ping_timeout (secs 10) (with_ping_interval (secs 20) heartbeat_config_new))
       (client_with_reconnect_config
         (with_backoff_multiplier (f64_lit 2) (with_max_delay (secs 30) (with_initial_delay (millis 100)
           (with_max_attempts 10 reconnect_config_new))))
       (client_with_max_message_size (16 * 1024 * 1024) (client_config_new echo_url)))))))"

text \<open>Sending is refused above 3750 bytes in flight, whatever the number of messages: the buffer that the
  program describes as one of 5000 messages is counted in bytes.\<close>

lemma fround_halves: "fround (3 / 4) = Fin (3 / 4)" "fround (1 / 2) = Fin (1 / 2)" "fround 3750 = Fin 3750"
  using fround_normal [of "- 1" "3 / 4"] fround_normal [of "- 1" "1 / 2"] fround_normal [of 11 3750]
  by (simp_all add: round_even_eval power_int_minus)

lemma f64_5000: "f64_of_u64 5000 = Fin 5000"
  using f64_of_int_exact [of 5000] by (simp add: f64_of_u64_def)

lemma configured_activation:
  "\<exists>cfg. configured_client_config = Ret cfg \<and> activation_size (cl_backpressure_config cfg) = 3750"
  by (simp add: configured_client_config_def configured_backpressure_def with_backpressure_threshold_def
      with_recovery_threshold_def threshold_ok_def fround_halves with_max_buffer_size_def f64_5000
      client_with_connection_timeout_def client_with_backpressure_config_def activation_size_def f64_to_u64_def)

section \<open>What the basic client prints\<close>

text \<open>The server echoes what it gets before the program looks.\<close>

definition echoed :: "tungstenite \<Rightarrow> (instant \<times> client_event) list" where
  "echoed t = [(0, Writes None), (0, Arrives (Inr t))]"

definition echo_run :: "nat \<Rightarrow> (instant \<times> client_event) list" where
  "echo_run i = (if i = 1 then echoed (TText (lit ''Hello, WebSocket!''))
     else if i = 2 then echoed (TBinary [1, 2, 3, 4, 5]) else [])"

text \<open>The client of the program: last activity, sent and received messages and bytes, bytes in flight, channel.\<close>

definition working ::
  "instant \<Rightarrow> u64 \<times> u64 \<Rightarrow> u64 \<times> u64 \<Rightarrow> u64 \<Rightarrow> message list \<Rightarrow> ws_client" where
  "working t sent received held q =
     (client_fresh basic_client_config)
       \<lparr>wc_queue := q,
        wc_metrics := metrics_new
          \<lparr>active_connections := 1, total_connections := 1, messages_sent := fst sent, bytes_sent := snd sent,
           messages_received := fst received, bytes_received := snd received, last_activity := Some t\<rparr>,
        wc_backpressure := (backpressure_new backpressure_config_default)\<lparr>bp_current_size := held\<rparr>\<rparr>"

lemmas working_eval =
  working_def client_fresh_def basic_client_config_def client_with_auto_reconnect_def
  client_with_connection_timeout_def client_config_new_def metrics_new_def backpressure_new_def

definition small :: "u64 \<Rightarrow> bool" where
  "small n = (unat n < 2 ^ 62)"

lemma small_numeral [simp]: "small 0" "small 1" "small 2" "small 5" "small 17" "small 22"
  by (simp_all add: small_def)

lemma small_add:
  assumes "small a" and "small b"
  shows "unat a + unat b < 18446744073709551616"
  using assms by (simp add: small_def)

lemma buffer_default [simp]: "unat (bc_max_buffer_size backpressure_config_default) = 1000"
  by (simp add: backpressure_config_default_def DEFAULT_BUFFER_SIZE_def)

lemma connected_working:
  "connect_with_config ck now None basic_client_config = Ret (Ok (working now (0, 0) (0, 0) 0 []))"
  by (simp add: connect_with_config_def channel_ok_def record_connection_def touch_def working_eval op_then_def
      op_on_def op_update_def op_add_def add_ck_def)

lemma can_send_working:
  "can_send (wc_backpressure (working t sent received held q)) = (held \<le> 800)"
  by (simp add: can_send_def is_backpressure_active_def working_def backpressure_new_def activation_size_default
      not_less) (simp add: backpressure_config_default_def not_less)

lemma send_working:
  assumes "held \<le> 800" and "small (fst sent)" "small (snd sent)" "small (msg_size m)"
  shows "client_send ck now m (working t sent received held []) =
    (working now (fst sent + 1, snd sent + msg_size m) received (held + msg_size m) [m], Ret (Some (Ok ())))"
proof -
  have "unat held + unat (msg_size m) < 2 ^ 64"
    using assms(1,4) by (simp add: small_def word_le_nat_alt)
  moreover have "unat (fst sent) + 1 < 2 ^ 64" "unat (snd sent) + unat (msg_size m) < 2 ^ 64"
    using assms(2-4) by (simp_all add: small_def)
  ultimately show ?thesis
    using assms(1) can_send_working [of t sent received held "[]"]
    by (simp add: client_send_def send_check_def send_enqueue_def)
      (simp add: working_eval record_message_sent_def touch_def op_then_def op_on_def op_update_def op_return_def
        op_add_fits record_send_fits)
qed

lemma echo_working:
  assumes "str_ok x \<and> m = message_text x \<and> t' = TText x \<or> m = message_binary y \<and> t' = TBinary y"
    and "small held" and "small (msg_size m)" and "small (fst received)" "small (snd received)"
  shows "fold (client_step ck) (echoed t') (working t sent received held [m]) =
    working 0 sent (fst received + 1, snd received + msg_size m) held []"
proof -
  let ?n = "msg_size m"
  have fits: "unat held + unat ?n < 2 ^ 64" "unat (fst received) + 1 < 2 ^ 64" "unat (snd received) + unat ?n < 2 ^ 64"
    using assms(2-5) by (simp_all add: small_def)
  have t: "to_tungstenite m = Ok t'" and run: "run_incoming ck 0 (Inr t') = run_received ck 0 m"
    using assms(1) as_text_message_text [of x]
    by (auto simp: to_tungstenite_def run_incoming_def message_text_def message_binary_def)
  have put: "client_step ck (0, Writes None) (working t sent received held [m]) = working t sent received (held + ?n) []"
    using t fits(1)
    by (simp add: task_turn_def run_outgoing_def op_then_def op_on_def op_return_def record_send_fits working_eval)
  have lowered: "sat_sub (held + ?n) ?n = held"
    using fits(1) by (simp add: sat_sub_def word_le_nat_alt unat_add_fits)
  have "client_step ck (0, Arrives (Inr t')) (working t sent received (held + ?n) []) =
      working 0 sent (fst received + 1, snd received + ?n) held []"
    using fits lowered
    by (simp add: task_turn_def run run_received_def record_message_received_def touch_def op_then_def op_on_def
        op_update_def op_return_def op_add_fits record_recv_def working_eval)
  with put show ?thesis by (simp add: echoed_def)
qed

lemma hello_ok: "str_ok (lit ''Hello, WebSocket!'')"
  by (simp add: str_ok_def is_scalar_def lit_def)

lemma close_working:
  assumes "held \<le> 800" and "small (fst sent)" "small (snd sent)" "small (msg_size (close_message r))"
  shows "\<exists>c. client_close ck now r (working t sent received held []) = (c, Ret (Some (Ok ()))) \<and> \<not> is_connected c"
  using assms
  by (simp add: client_close_def op_then_def send_working close_after_def)
    (simp add: working_eval op_then_def op_on_def op_update_def op_return_def record_disconnection_def touch_def
      op_add_def add_ck_def is_connected_def)

lemma message_sizes:
  "msg_size (message_text (lit ''Hello, WebSocket!'')) = 17" "msg_size (message_binary [1, 2, 3, 4, 5]) = 5"
  "small (msg_size (close_message (Some (lit ''Example completed''))))"
  by (simp_all add: msg_size_def message_len_def message_text_def message_binary_def small_def close_message_def
      message_close_def utf8_encode_def utf8_char_def lit_def)

theorem basic_client_example:
  "snd (basic_client_main ck clock echo_run None s) = Ret (Some (Ok ())) \<and>
   printed (fst (basic_client_main ck clock echo_run None s)) = printed s @
     [lit ''WebSocket Basic Client Example'', (lit ''=============================='') @ [10],
      lit ''Connecting to ws://echo.websocket.org...'', (lit ''Connected successfully!'') @ [10],
      lit ''Sending text message...'', (lit ''Text message sent!'') @ [10],
      lit ''Sending binary message...'', (lit ''Binary message sent!'') @ [10],
      lit ''Connection Metrics:'', lit ''  Messages sent: 2'', lit ''  Messages received: 2'', lit ''  Bytes sent: 22'',
      lit ''  Bytes received: 22'', (lit ''  Latency P50: 0'') @ [181, 115], (lit ''  Latency P95: 0'') @ [181, 115],
      [10] @ (lit ''Closing connection...''), lit ''Connection closed.''] \<and>
   \<not> is_connected (world (fst (basic_client_main ck clock echo_run None s)))"
proof -
  have hello: "client_send_text ck n (lit ''Hello, WebSocket!'') (working t (0, 0) (0, 0) 0 []) =
      (working n (1, 17) (0, 0) 17 [message_text (lit ''Hello, WebSocket!'')], Ret (Some (Ok ())))" for n t
    by (simp add: client_send_text_def send_working message_sizes)
  have echo1: "fold (client_step ck) (echo_run 1) (working t (1, 17) (0, 0) 17 [message_text (lit ''Hello, WebSocket!'')]) =
      working 0 (1, 17) (1, 17) 17 []" for t
    using echo_working [of "(lit ''Hello, WebSocket!'')" "message_text (lit ''Hello, WebSocket!'')" "TText (lit ''Hello, WebSocket!'')" "[]" 17 "(0, 0)" ck t "(1, 17)"]
    by (simp add: echo_run_def message_sizes hello_ok)
  have binary: "client_send_binary ck n [1, 2, 3, 4, 5] (working t (1, 17) (1, 17) 17 []) =
      (working n (2, 22) (1, 17) 22 [message_binary [1, 2, 3, 4, 5]], Ret (Some (Ok ())))" for n t
    by (simp add: client_send_binary_def send_working message_sizes)
  have echo2: "fold (client_step ck) (echo_run 2) (working t (2, 22) (1, 17) 22 [message_binary [1, 2, 3, 4, 5]]) =
      working 0 (2, 22) (2, 22) 22 []" for t
    using echo_working [of "[]" "message_binary [1, 2, 3, 4, 5]" "TBinary [1, 2, 3, 4, 5]" "[1, 2, 3, 4, 5]" 22 "(1, 17)" ck t "(2, 22)"]
    by (simp add: echo_run_def message_sizes)
  obtain c where c: "client_close ck (clock 3) (Some (lit ''Example completed'')) (working 0 (2, 22) (2, 22) 22 []) =
      (c, Ret (Some (Ok ())))" "\<not> is_connected c"
    using close_working [of 22 "(2, 22)" "Some (lit ''Example completed'')" ck "clock 3" 0 "(2, 22)"] message_sizes(3) by auto
  note quiet = echo_run_def [of 0] echo_run_def [of 3] echo_run_def [of 4] echo_run_def [of 5] echo_run_def [of 6]
    echo_run_def [of 7] echo_run_def [of 8]
  have readings: "metric read_messages_sent (working 0 (2, 22) (2, 22) 22 []) = [50]"
    "metric read_messages_received (working 0 (2, 22) (2, 22) 22 []) = [50]"
    "metric read_bytes_sent (working 0 (2, 22) (2, 22) 22 []) = [50, 50]"
    "metric read_bytes_received (working 0 (2, 22) (2, 22) 22 []) = [50, 50]"
    "latency_percentiles (wc_metrics (working 0 (2, 22) (2, 22) 22 [])) = \<lparr>p50 = 0, p95 = 0, p99 = 0, p999 = 0\<rparr>"
    by (simp_all add: metric_def working_eval read_messages_sent_def read_messages_received_def read_bytes_sent_def
        read_bytes_received_def latency_percentiles_def show_u64_def show_nat_step)
  show ?thesis
    using c(2)
    by (cases s, simp add: basic_client_main_def connecting_def connected_working op_then_def await_ok_def on_client_def
      in_world_eq background_def report_def report_latencies_def quiet hello echo1 binary echo2 c(1) readings
        del: One_nat_def)
      (simp add: lit_def echo_url_def latency_line_def show_micros_def show_u64_def show_nat_step)
qed

end
