(* ===== verification/ExPool.thy ===== *)
theory ExPool
  imports PoolClient Console
begin

text \<open>
  \<^verbatim>\<open>src/examples/connection_pool.rs\<close>: a program over the pool and the store of the clients it refers
  to. What the health check, the tasks of the clients and the network do between the calls is \<open>bg\<close>.
\<close>

section \<open>The program\<close>

record pool_world =
  pw_pool :: "nat conn_pool"
  pw_clients :: "nat \<Rightarrow> ws_client"

definition pool_url :: rstr where
  "pool_url = (lit ''ws://echo.websocket.org'')"

definition example_pool_config :: "pool_config outcome" where
  "example_pool_config =
     bind_outcome (pool_with_min_connections 1 pool_config_new) (\<lambda>c.
     bind_outcome (pool_with_max_connections 5 c) (\<lambda>c.
     Ret (pool_with_acquire_timeout (secs 5) (pool_with_health_check_interval (secs 30)
       (pool_with_idle_timeout (secs 300) c)))))"

definition alive_in :: "pool_world \<Rightarrow> nat \<Rightarrow> bool" where
  "alive_in w i = Client.is_connected (pw_clients w i)"

text \<open>The answers of the world: the id of a new connection and the place of its client in the store, the
  attempt to connect, the clock, and the turns of a call that must wait for a connection.\<close>

record pool_run =
  pr_id :: conn_id
  pr_ref :: nat
  pr_attempt :: "ws_client result"
  pr_clock :: "nat \<Rightarrow> instant"
  pr_bg :: "nat \<Rightarrow> pool_world \<Rightarrow> pool_world"
  pr_turns :: "(instant \<times> (nat \<Rightarrow> bool) \<times> (nat conn_pool \<Rightarrow> nat conn_pool)) list"

definition get_connection :: "pool_run \<Rightarrow> (pool_world app, nat pooled_client result option) op" where
  "get_connection R =
     in_world (\<lambda>w.
       let w1 = (case pr_attempt R of
                   Inl e \<Rightarrow> w | Inr c \<Rightarrow> w\<lparr>pw_clients := (pw_clients w)(pr_ref R := c)\<rparr>);
           attempt = (\<lambda>cfg. case pr_attempt R of Inl e \<Rightarrow> Inl e | Inr c \<Rightarrow> Inr (pr_ref R))
       in case pool_get (alive_in w1) (pr_clock R 0) (pr_id R) attempt (\<lambda>p. pw_pool (pr_bg R 0 (w1\<lparr>pw_pool := p\<rparr>)))
              (pr_turns R) pool_url (pw_pool w1) of
            (p, r) \<Rightarrow> (w1\<lparr>pw_pool := p\<rparr>, Ret r))"

definition meantime :: "pool_run \<Rightarrow> nat \<Rightarrow> (pool_world app, unit) op" where
  "meantime R n = meanwhile (pr_bg R n)"

text \<open>The arms of the first match; 10003 and 10007 are the check mark and the cross.\<close>

definition use_connection ::
  "(bytes \<Rightarrow> rstr) \<Rightarrow> (duration \<Rightarrow> rstr) \<Rightarrow> bool \<Rightarrow> pool_run \<Rightarrow> nat pooled_client \<Rightarrow>
     (pool_world app, unit option) op" where
  "use_connection um dd ck R h =
     op_then (println ([10003] @ (lit '' Connection acquired: '') @ pcl_connection_id h)) (\<lambda>_.
     op_then (meantime R 1) (\<lambda>_.
     op_then (in_world (op_on pw_clients pw_clients_update
       (pooled_send_text ck (pr_clock R 1) (lit ''Hello from pool!'') h))) (\<lambda>r.
     case r of
       None \<Rightarrow> op_return None
     | Some x \<Rightarrow>
         op_then (println (case x of
             Inl e \<Rightarrow> [10007] @ (lit '' Failed to send: '') @ error_display um dd e
           | Inr u \<Rightarrow> [10003] @ (lit '' Message sent successfully''))) (\<lambda>_.
         op_then (meantime R 2) (\<lambda>_.
         op_then (in_world (op_update (\<lambda>w. w\<lparr>pw_pool := handle_drop (alive_in w) (pr_clock R 2) h (pw_pool w)\<rparr>))) (\<lambda>_.
         op_then (println ([10003] @ (lit '' Connection returned to pool''))) (\<lambda>_.
         op_return (Some ()))))))))"

definition stats_lines :: "pool_stats \<Rightarrow> rstr list" where
  "stats_lines st =
     [[10] @ (lit ''Example 2: Pool statistics...''),
      (lit ''Server pools: '') @ show_nat (ps_server_count st),
      (lit ''Total connections: '') @ show_nat (ps_total_connections st),
      (lit ''Available connections: '') @ show_nat (ps_available_connections st),
      (lit ''In-use connections: '') @ show_nat (ps_in_use_connections st)]"

definition server_stats_lines :: "server_pool_stats option \<Rightarrow> rstr list" where
  "server_stats_lines st =
     (case st of
        None \<Rightarrow> []
      | Some x \<Rightarrow>
          [[10] @ (lit ''Example 3: Server-specific statistics''),
           (lit ''URL: '') @ ss_url x,
           (lit ''Total created: '') @ show_u64 (ss_total_created x),
           (lit ''Total acquired: '') @ show_u64 (ss_total_acquired x),
           (lit ''Total released: '') @ show_u64 (ss_total_released x)])"

definition cleanup_lines :: "cleanup_stats \<Rightarrow> rstr list" where
  "cleanup_lines st =
     [(lit ''Connections removed: '') @ show_nat (cs_connections_removed st),
      (lit ''Servers cleaned: '') @ show_nat (cs_servers_cleaned st)]"

text \<open>The calls of \<^verbatim>\<open>close\<close> outside the lock; their answers are dropped, one that waits is \<open>None\<close>.\<close>

fun close_each :: "bool \<Rightarrow> instant \<Rightarrow> nat list \<Rightarrow> (nat \<Rightarrow> ws_client, unit option) op" where
  "close_each ck now [] = op_return (Some ())"
| "close_each ck now (i # is) =
     op_then (\<lambda>cs. case client_close ck now None (cs i) of (c, r) \<Rightarrow> (cs(i := c), r)) (\<lambda>r.
     case r of None \<Rightarrow> op_return None | Some x \<Rightarrow> close_each ck now is)"

definition close_pool :: "bool \<Rightarrow> pool_run \<Rightarrow> (pool_world app, unit option) op" where
  "close_pool ck R =
     in_world (\<lambda>w. case close_all (pw_pool w) of
       (p, clients) \<Rightarrow>
         op_on pw_clients pw_clients_update (close_each ck (pr_clock R 4) clients) (w\<lparr>pw_pool := p\<rparr>))"

definition pool_examples :: "bool \<Rightarrow> pool_run \<Rightarrow> pool_world main" where
  "pool_examples ck R =
     op_then (meantime R 3) (\<lambda>_.
     op_then (read_world (\<lambda>w. stats (pw_pool w))) (\<lambda>st.
     op_then (print_lines (stats_lines st)) (\<lambda>_.
     op_then (meantime R 4) (\<lambda>_.
     op_then (read_world (\<lambda>w. server_stats pool_url (pw_pool w))) (\<lambda>st.
     op_then (print_lines (server_stats_lines st)) (\<lambda>_.
     op_then (println ([10] @ (lit ''Example 4: Running cleanup...''))) (\<lambda>_.
     op_then (meantime R 5) (\<lambda>_.
     op_then (in_world (\<lambda>w. case cleanup (alive_in w) (pr_clock R 3) (pw_pool w) of
       (p, st) \<Rightarrow> (w\<lparr>pw_pool := p\<rparr>, Ret st))) (\<lambda>st.
     op_then (print_lines (cleanup_lines st)) (\<lambda>_.
     op_then (println ([10] @ (lit ''Example 5: Closing all connections...''))) (\<lambda>_.
     op_then (meantime R 6) (\<lambda>_.
     op_then (close_pool ck R) (\<lambda>r. case r of None \<Rightarrow> op_return None | Some u \<Rightarrow>
     op_then (print_lines [[10003] @ (lit '' All connections closed''), [10] @ [10003] @ (lit '' Example completed successfully'')]) (\<lambda>_.
     finished))))))))))))))"

definition connection_pool_main ::
  "(bytes \<Rightarrow> rstr) \<Rightarrow> (duration \<Rightarrow> rstr) \<Rightarrow> bool \<Rightarrow> pool_run \<Rightarrow> pool_world main" where
  "connection_pool_main um dd ck R =
     op_then (of_outcome example_pool_config) (\<lambda>cfg.
     try_ok (conn_pool_new cfg) (\<lambda>pool.
     op_then (meanwhile (\<lambda>w. w\<lparr>pw_pool := pool\<rparr>)) (\<lambda>_.
     op_then (print_lines
       [lit ''WebSocket Connection Pool Example'', (lit ''=================================='') @ [10],
        lit ''Example 1: Acquiring connection from pool...'']) (\<lambda>_.
     op_then (get_connection R) (\<lambda>r. case r of
       None \<Rightarrow> op_return None
     | Some (Inl e) \<Rightarrow>
         op_then (println ([10007] @ (lit '' Failed to acquire connection: '') @ error_display um dd e)) (\<lambda>_. pool_examples ck R)
     | Some (Inr h) \<Rightarrow>
         op_then (use_connection um dd ck R h) (\<lambda>u. case u of None \<Rightarrow> op_return None | Some _ \<Rightarrow> pool_examples ck R))))))"

section \<open>What it prints\<close>

lemma close_answers:
  assumes "length (wc_queue c) < unat (bc_max_buffer_size (cl_backpressure_config (wc_config c)))"
  shows "\<exists>c' x. client_close False now r c = (c', Ret (Some x))"
proof -
  have "\<exists>c' x. client_send False now m c = (c', Ret (Some x))" for m
    using assms
    by (auto simp: client_send_def send_check_def send_enqueue_def op_then_def op_on_def op_update_def op_return_def
        record_message_sent_def touch_def op_add_release record_send_def)
  then obtain c1 x where "client_send False now (close_message r) c = (c1, Ret (Some x))" by blast
  then show ?thesis
    by (cases x) (auto simp: client_close_def op_then_def close_after_def op_on_def op_update_def op_return_def
        record_disconnection_def touch_def op_add_release)
qed

text \<open>A quiet run: the attempt to connect succeeds and nothing happens in between.\<close>

definition quiet_run :: "pool_run \<Rightarrow> ws_client \<Rightarrow> bool" where
  "quiet_run R c = (pr_attempt R = Inr c \<and> pr_bg R = (\<lambda>n w. w) \<and> Client.is_connected c \<and> open_idle c \<and>
     counters_fit 16 c \<and> 1 < unat (bc_max_buffer_size (cl_backpressure_config (wc_config c))) \<and>
     elapsed (pr_clock R 3) (pr_clock R 2) \<le> secs 300)"

definition the_connection :: "pool_run \<Rightarrow> nat pooled_connection" where
  "the_connection R = (pooled_new (pr_clock R 0) (pr_id R) (pr_ref R) pool_url)\<lparr>pc_in_use := True\<rparr>"

definition the_pool :: "pool_run \<Rightarrow> bool \<Rightarrow> nat conn_pool" where
  "the_pool R returned =
     \<lparr>cp_config = pool_config_default\<lparr>po_max_connections := 5\<rparr>,
      cp_pools = [(pool_url, (server_pool_new pool_url (client_config_new pool_url) 5)
        \<lparr>sp_available := (if returned then [(the_connection R)\<lparr>pc_in_use := False, pc_last_used := pr_clock R 2\<rparr>] else []),
         sp_in_use := (if returned then [] else [the_connection R]),
         sp_total_created := 1, sp_total_acquired := 1, sp_total_released := (if returned then 1 else 0)\<rparr>)],
      cp_metrics = metrics_new\<rparr>"

lemma example_config: "example_pool_config = Ret (pool_config_default\<lparr>po_max_connections := 5\<rparr>)"
  by (simp add: example_pool_config_def pool_with_min_connections_def pool_with_max_connections_def
      pool_with_idle_timeout_def pool_with_health_check_interval_def pool_with_acquire_timeout_def
      pool_config_new_def pool_config_default_def)

lemma example_pool:
  "conn_pool_new (pool_config_default\<lparr>po_max_connections := 5\<rparr>) =
     Ok \<lparr>cp_config = pool_config_default\<lparr>po_max_connections := 5\<rparr>, cp_pools = hm_empty, cp_metrics = metrics_new\<rparr>"
  by (simp add: conn_pool_new_def validate_def pool_config_default_def)

lemma handed_out:
  assumes "quiet_run R c"
    and "pw_pool (world s) = \<lparr>cp_config = pool_config_default\<lparr>po_max_connections := 5\<rparr>, cp_pools = hm_empty, cp_metrics = metrics_new\<rparr>"
  shows "get_connection R s =
    (s\<lparr>world := \<lparr>pw_pool = the_pool R False, pw_clients = (pw_clients (world s))(pr_ref R := c)\<rparr>\<rparr>,
     Ret (Some (Ok (handle_of pool_url (the_connection R)))))"
  using assms
  by (cases s; cases "world s")
    (simp add: quiet_run_def get_connection_def in_world_eq pool_get_def get_with_config_def get_phase1_def get_phase2_def
      hm_get_def hm_empty_def set_pool_def hm_insert_def the_pool_def the_connection_def add_in_use_def server_pool_new_def
      handle_of_def Let_def)

lemma given_back:
  assumes "Client.is_connected (pw_clients w (pr_ref R))"
  shows "handle_drop (alive_in w) (pr_clock R 2) (handle_of pool_url (the_connection R)) (the_pool R False) = the_pool R True"
  using assms
  by (simp add: handle_drop_def release_def handle_of_def the_connection_def the_pool_def hm_get_def remove_in_use_def
      pooled_new_def server_pool_new_def is_healthy_def alive_in_def sp_total_connections_def pool_config_default_def
      add_available_def mark_used_def set_pool_def hm_insert_def Let_def)

lemma pool_readings:
  "stats (the_pool R True) =
     \<lparr>ps_server_count = 1, ps_total_connections = 1, ps_available_connections = 1, ps_in_use_connections = 0, ps_total_created = 1\<rparr>"
  "server_stats pool_url (the_pool R True) =
     Some \<lparr>ss_url = pool_url, ss_available = 1, ss_in_use = 0, ss_total = 1, ss_total_created = 1, ss_total_acquired = 1,
            ss_total_released = 1\<rparr>"
  "close_all (the_pool R True) = ((the_pool R True)\<lparr>cp_pools := hm_empty\<rparr>, [pr_ref R])"
  by (simp_all add: stats_def server_stats_def close_all_def the_pool_def hm_values_def hm_len_def hm_get_def
      server_pool_new_def the_connection_def pooled_new_def)

lemma nothing_cleaned:
  assumes "quiet_run R c" and "Client.is_connected (pw_clients w (pr_ref R))"
  shows "cleanup (alive_in w) (pr_clock R 3) (the_pool R True) =
    (the_pool R True, \<lparr>cs_connections_removed = 0, cs_servers_cleaned = 0\<rparr>)"
  using assms
  by (simp add: quiet_run_def cleanup_def server_cleanup_def should_evict_def conn_is_idle_def is_healthy_def alive_in_def
      the_pool_def the_connection_def pooled_new_def hm_values_def server_pool_new_def pool_config_default_def Let_def)

lemma hello_size: "msg_size (message_text (lit ''Hello from pool!'')) = 16"
  by (simp add: msg_size_def message_len_def message_text_def utf8_encode_def utf8_char_def lit_def)

text \<open>The client after the message was queued.\<close>

lemma hello_sent:
  assumes "quiet_run R c" and "cs (pr_ref R) = c"
  shows "\<exists>c1. pooled_send_text False now (lit ''Hello from pool!'') (handle_of pool_url (the_connection R)) cs =
      (cs(pr_ref R := c1), Ret (Some (Ok ()))) \<and> Client.is_connected c1 \<and>
    length (wc_queue c1) < unat (bc_max_buffer_size (cl_backpressure_config (wc_config c1)))"
proof -
  let ?m = "message_text (lit ''Hello from pool!'')"
  define c1 where "c1 = fst (client_send False now ?m c)"
  have "client_send False now ?m c = (c1, Ret (Some (Ok ())))" and "Client.is_connected c1"
    and "length (wc_queue c1) < unat (bc_max_buffer_size (cl_backpressure_config (wc_config c1)))"
    using assms client_send_accepts [of c ?m False now]
    by (simp_all add: quiet_run_def hello_size Client.is_connected_def c1_def)
  then show ?thesis
    by (intro exI [of _ c1])
      (simp add: pooled_send_text_def on_pooled_def handle_of_def the_connection_def pooled_new_def
        client_send_text_def assms(2))
qed

definition opening_lines :: "rstr list" where
  "opening_lines =
     [lit ''WebSocket Connection Pool Example'', (lit ''=================================='') @ [10],
      lit ''Example 1: Acquiring connection from pool...'']"

definition connection_lines :: "conn_id \<Rightarrow> rstr list" where
  "connection_lines i =
     [[10003] @ (lit '' Connection acquired: '') @ i, [10003] @ (lit '' Message sent successfully''),
      [10003] @ (lit '' Connection returned to pool'')]"

definition later_lines :: "rstr list" where
  "later_lines =
     [[10] @ (lit ''Example 2: Pool statistics...''), lit ''Server pools: 1'', lit ''Total connections: 1'',
      lit ''Available connections: 1'', lit ''In-use connections: 0'',
      [10] @ (lit ''Example 3: Server-specific statistics''), lit ''URL: ws://echo.websocket.org'', lit ''Total created: 1'',
      lit ''Total acquired: 1'', lit ''Total released: 1'',
      [10] @ (lit ''Example 4: Running cleanup...''), lit ''Connections removed: 0'', lit ''Servers cleaned: 0'',
      [10] @ (lit ''Example 5: Closing all connections...''), [10003] @ (lit '' All connections closed''),
      [10] @ [10003] @ (lit '' Example completed successfully'')]"

lemma used:
  assumes "quiet_run R c" and "world s = \<lparr>pw_pool = the_pool R False, pw_clients = cs\<rparr>" and "cs (pr_ref R) = c"
  shows "\<exists>c1. use_connection um dd False R (handle_of pool_url (the_connection R)) s =
      (\<lparr>world = \<lparr>pw_pool = the_pool R True, pw_clients = cs(pr_ref R := c1)\<rparr>,
        printed = printed s @ connection_lines (pr_id R)\<rparr>, Ret (Some ())) \<and>
    Client.is_connected c1 \<and>
    length (wc_queue c1) < unat (bc_max_buffer_size (cl_backpressure_config (wc_config c1)))"
proof -
  obtain c1 where c1: "pooled_send_text False (pr_clock R 1) (lit ''Hello from pool!'') (handle_of pool_url (the_connection R)) cs =
      (cs(pr_ref R := c1), Ret (Some (Ok ())))" "Client.is_connected c1"
      "length (wc_queue c1) < unat (bc_max_buffer_size (cl_backpressure_config (wc_config c1)))"
    using hello_sent [OF assms(1), of cs "pr_clock R 1"] assms(3) by blast
  have returned: "handle_drop (alive_in \<lparr>pw_pool = the_pool R False, pw_clients = cs(pr_ref R := c1)\<rparr>) (pr_clock R 2)
      (handle_of pool_url (the_connection R)) (the_pool R False) = the_pool R True"
    by (rule given_back) (simp add: c1(2))
  have bg: "pr_bg R = (\<lambda>n w. w)" using assms(1) by (simp add: quiet_run_def)
  have i: "pcl_connection_id (handle_of pool_url (the_connection R)) = pr_id R"
    by (simp add: handle_of_def the_connection_def pooled_new_def)
  show ?thesis
    using assms(2) c1(2,3)
    by (intro exI [of _ c1], cases s) (simp add: use_connection_def meantime_def op_then_def in_world_eq op_on_def c1(1) returned bg i
        op_update_def op_return_def connection_lines_def del: One_nat_def)
qed

lemma examples_printed:
  assumes "quiet_run R c" and "world s = \<lparr>pw_pool = the_pool R True, pw_clients = cs\<rparr>"
    and "Client.is_connected (cs (pr_ref R))"
    and "length (wc_queue (cs (pr_ref R))) < unat (bc_max_buffer_size (cl_backpressure_config (wc_config (cs (pr_ref R)))))"
  shows "\<exists>w. pool_examples False R s =
      (\<lparr>world = w, printed = printed s @
         later_lines\<rparr>, Ret (Some (Ok ()))) \<and>
    cp_pools (pw_pool w) = hm_empty"
proof -
  have bg: "pr_bg R = (\<lambda>n w. w)" using assms(1) by (simp add: quiet_run_def)
  have clean: "cleanup (alive_in \<lparr>pw_pool = the_pool R True, pw_clients = cs\<rparr>) (pr_clock R 3) (the_pool R True) =
      (the_pool R True, \<lparr>cs_connections_removed = 0, cs_servers_cleaned = 0\<rparr>)"
    by (rule nothing_cleaned [OF assms(1)]) (simp add: assms(3))
  obtain c' x where c': "client_close False (pr_clock R 4) None (cs (pr_ref R)) = (c', Ret (Some x))"
    using close_answers [OF assms(4)] by blast
  have close: "close_pool False R \<lparr>world = \<lparr>pw_pool = the_pool R True, pw_clients = cs\<rparr>, printed = ls\<rparr> =
      (\<lparr>world = \<lparr>pw_pool = (the_pool R True)\<lparr>cp_pools := hm_empty\<rparr>, pw_clients = cs(pr_ref R := c')\<rparr>, printed = ls\<rparr>,
       Ret (Some ()))" for ls
    by (simp add: close_pool_def in_world_eq pool_readings op_on_def op_then_def c' op_return_def)
  show ?thesis
    using assms(2)
    by (cases s, simp add: pool_examples_def meantime_def op_then_def in_world_eq bg pool_readings clean close)
      (simp add: later_lines_def stats_lines_def server_stats_lines_def cleanup_lines_def show_u64_def show_nat_step pool_url_def lit_def)
qed

text \<open>One connection is made, used, given back and found healthy; closing empties the pool.\<close>

theorem connection_pool_example:
  assumes "quiet_run R c"
  shows "\<exists>w. connection_pool_main um dd False R s =
      (\<lparr>world = w, printed = printed s @ opening_lines @ connection_lines (pr_id R) @ later_lines\<rparr>, Ret (Some (Ok ()))) \<and>
    cp_pools (pw_pool w) = hm_empty"
proof -
  obtain p cs ls where s: "s = \<lparr>world = \<lparr>pw_pool = p, pw_clients = cs\<rparr>, printed = ls\<rparr>"
    by (metis app.cases_scheme pool_world.cases_scheme unit_eq)
  let ?cs = "cs(pr_ref R := c)"
  let ?s1 = "\<lparr>world = \<lparr>pw_pool = the_pool R False, pw_clients = ?cs\<rparr>, printed = ls @ opening_lines\<rparr>"
  obtain c1 where c1: "use_connection um dd False R (handle_of pool_url (the_connection R)) ?s1 =
      (\<lparr>world = \<lparr>pw_pool = the_pool R True, pw_clients = ?cs(pr_ref R := c1)\<rparr>,
        printed = printed ?s1 @ connection_lines (pr_id R)\<rparr>, Ret (Some ()))"
      "Client.is_connected c1"
      "length (wc_queue c1) < unat (bc_max_buffer_size (cl_backpressure_config (wc_config c1)))"
    using used [OF assms, of ?s1 ?cs um dd] by auto
  let ?s2 = "\<lparr>world = \<lparr>pw_pool = the_pool R True, pw_clients = ?cs(pr_ref R := c1)\<rparr>,
      printed = printed ?s1 @ connection_lines (pr_id R)\<rparr>"
  have "Client.is_connected ((?cs(pr_ref R := c1)) (pr_ref R))"
    and "length (wc_queue ((?cs(pr_ref R := c1)) (pr_ref R))) <
      unat (bc_max_buffer_size (cl_backpressure_config (wc_config ((?cs(pr_ref R := c1)) (pr_ref R)))))"
    using c1(2,3) by simp_all
  then obtain w where w: "pool_examples False R ?s2 =
      (\<lparr>world = w, printed = printed ?s2 @ later_lines\<rparr>, Ret (Some (Ok ())))" "cp_pools (pw_pool w) = hm_empty"
    using examples_printed [OF assms, of ?s2 "?cs(pr_ref R := c1)"] by auto
  have get: "get_connection R \<lparr>world = \<lparr>pw_pool = \<lparr>cp_config = pool_config_default\<lparr>po_max_connections := 5\<rparr>,
        cp_pools = hm_empty, cp_metrics = metrics_new\<rparr>, pw_clients = cs\<rparr>, printed = ls\<rparr> =
      (\<lparr>world = \<lparr>pw_pool = the_pool R False, pw_clients = ?cs\<rparr>, printed = ls\<rparr>,
       Ret (Some (Ok (handle_of pool_url (the_connection R)))))" for ls
    using handed_out [OF assms, of "\<lparr>world = \<lparr>pw_pool = \<lparr>cp_config = pool_config_default\<lparr>po_max_connections := 5\<rparr>,
        cp_pools = hm_empty, cp_metrics = metrics_new\<rparr>, pw_clients = cs\<rparr>, printed = ls\<rparr>"] by simp
  show ?thesis
    using c1(1) w
    by (simp add: connection_pool_main_def op_then_def example_config example_pool s get opening_lines_def [symmetric])
qed

end
