(* ===== verification/Spec2Isabelle.thy ===== *)
theory Spec2Isabelle
  imports Messages Fragmentation Subprotocol Headers RateLimit Backpressure Heartbeat Reconnect
    Metrics Compression Config Pool PoolClient Client Server Delivery ServerHeartbeat Accepting System RateBound
    Tests_Errors Tests_Messages Tests_Fragmentation Tests_Subprotocol Tests_Headers Tests_RateLimit Tests_Config
    Tests_Backpressure Tests_Heartbeat Tests_Reconnect Tests_Metrics Tests_Compression Tests_Pool Tests_Client
    Tests_Server Tests_Zlib Tests_Http Tests_Waiting
    Latency ExFragmentation ExSubprotocol ExRateLimit ExServers ExClients ExPool
begin

text \<open>
  \<^bold>\<open>A verification library for the crate\<close> \<^verbatim>\<open>websocket-fabric\<close> (\<^verbatim>\<open>src/src/*.rs\<close>): a WebSocket client and
  server over \<^verbatim>\<open>tokio-tungstenite\<close> with a connection pool, fragmentation, sub-protocol
  negotiation, headers, rate limiting, compression, heartbeat, reconnection, backpressure and
  metrics.

  \<^bold>\<open>Theories and files.\<close>
  \<^item> \<open>WsPrelude\<close>: machine integers, checked and saturating arithmetic, panics as values
    (\<open>outcome\<close>), operations that can panic half way (\<open>op\<close>, \<open>op_then\<close>, \<open>op_on\<close>), slices in
    chunks, big-endian bytes, the contract of \<^verbatim>\<open>HashMap\<close>; the locales \<open>key_value_map\<close>,
    \<open>invariant_machine\<close>, \<open>keyed_machine\<close> and \<open>codec\<close> that the components interpret.
  \<^item> \<open>F64\<close>: IEEE double arithmetic on exact rationals with rounding to nearest even, the casts
    of Rust, and bounds on its error. \<open>RustStr\<close>: strings as lists of scalar values, UTF-8 with
    its exact inverse, byte slices that panic, case conversion, trimming, splitting, numerals.
  \<^item> \<open>Errors\<close> (\<^verbatim>\<open>error.rs\<close>), \<open>Messages\<close> (\<^verbatim>\<open>message.rs\<close>), \<open>Fragmentation\<close> (\<^verbatim>\<open>fragmentation.rs\<close>),
    \<open>Subprotocol\<close> (\<^verbatim>\<open>subprotocol.rs\<close>), \<open>Headers\<close> (\<^verbatim>\<open>headers.rs\<close>), \<open>RateLimit\<close> (\<^verbatim>\<open>ratelimit.rs\<close>).
  \<^item> \<open>Settings\<close> and \<open>Config\<close> (\<^verbatim>\<open>config.rs\<close> and the constants of \<^verbatim>\<open>lib.rs\<close>), \<open>Backpressure\<close>
    (\<^verbatim>\<open>backpressure.rs\<close>), \<open>Heartbeat\<close> (\<^verbatim>\<open>heartbeat.rs\<close>), \<open>Reconnect\<close> (\<^verbatim>\<open>reconnect.rs\<close>), \<open>Metrics\<close>
    (\<^verbatim>\<open>metrics.rs\<close>), \<open>Compression\<close> (\<^verbatim>\<open>compression.rs\<close>).
  \<^item> \<open>Pool\<close> (\<^verbatim>\<open>pool.rs\<close>) and \<open>PoolClient\<close> (what a holder of a pooled client does), \<open>Transport\<close> (what
    the tasks of client and server share, the locale \<open>fifo_channel\<close>), \<open>Client\<close> (\<^verbatim>\<open>client.rs\<close>),
    \<open>Server\<close> and \<open>Accepting\<close> (\<^verbatim>\<open>server.rs\<close>, its accept loop in the second).
  \<^item> \<open>Delivery\<close> (what the server sends to a client), \<open>System\<close> (one client, the server and the
    wires between them), \<open>ServerHeartbeat\<close> and \<open>RateBound\<close>: properties that need several
    operations or components. This theory holds the remaining ones.
  \<^item> \<open>UnitTest\<close> and the theories \<open>Tests_\<close>\<^emph>\<open>X\<close>: the unit tests of the crate as definitions on the model,
    with the lemmas that they pass. They check the model against what the authors of the code
    expect of it. Where a test exercises \<^verbatim>\<open>zlib\<close>, \<^verbatim>\<open>http\<close> or \<^verbatim>\<open>serde_json\<close> (\<open>Tests_Zlib\<close>, \<open>Tests_Http\<close>,
    \<open>Tests_Waiting\<close>) its lemma assumes what these promise, and a concrete instance satisfies it.
  \<^item> \<open>Latency\<close>: what the metrics of client and server never contain. \<open>Console\<close> (programs that print) and the
    theories \<open>Ex\<close>\<^emph>\<open>X\<close>: the example programs of \<^verbatim>\<open>src/examples\<close>, each main function as an operation on the state
    of the library that it uses, with the theorem that says what it prints: \<open>ExFragmentation\<close>,
    \<open>ExSubprotocol\<close>, \<open>ExRateLimit\<close>, \<open>ExServers\<close> (\<^verbatim>\<open>echo_server.rs\<close>, \<^verbatim>\<open>basic_server.rs\<close>), \<open>ExClients\<close>
    (\<^verbatim>\<open>basic_client.rs\<close>), \<open>ExPool\<close> (\<^verbatim>\<open>connection_pool.rs\<close>).

  \<^bold>\<open>State and operations.\<close> A struct is a record with its fields in the order of the code and an
  enum a datatype with its constructors; a method is a definition that takes the state and
  returns it updated. The clock, the fresh ids and the answers of the network are arguments.
  A struct shared under a lock is one state whose critical sections are single definitions;
  where a method takes its lock several times (\<^verbatim>\<open>get_with_config\<close>, \<^verbatim>\<open>ping\<close>, \<^verbatim>\<open>add_connection\<close>,
  accepting and registering a client) each critical section is a definition of its own, so
  that the traces (\<open>pool_step\<close>, \<open>client_step\<close>, \<open>server_step\<close> and others) interleave between them.
  Coarser than the code are three steps: a client's close that queues its message also marks it as
  shut down, and entering a client in the registry or removing it also counts it. The
  two branches of a \<^verbatim>\<open>select!\<close> are two events. Machine integers have their width; the flag \<open>ck\<close>
  distinguishes builds with overflow checks, where an overflow panics, from release builds,
  where it wraps. Lengths and instants are natural numbers, except where the code adds to a
  counter. A call that waits for room in a channel answers \<open>None\<close>.

  \<^bold>\<open>What the lemmas show.\<close> \<open>Fragmentation\<close>: splitting and reassembling are inverse under any
  interleaving of connections. \<open>RateLimit\<close>: the accounting of the token buckets in double
  arithmetic, and the limit on connections under interleaved atomic steps. \<open>Headers\<close>: a
  multi-map over case-insensitive names without header injection. \<open>Subprotocol\<close>: the
  handshake as a whole. \<open>Backpressure\<close>, \<open>Metrics\<close>: refinement of counters on natural numbers.
  \<open>Heartbeat\<close>, \<open>Reconnect\<close>: matching of pongs, wrap-around, monotone bounded backoff. \<open>Compression\<close>:
  round trips, for any \<^verbatim>\<open>zlib\<close> that inflates what it deflated. \<open>Pool\<close>: ownership of connections,
  the limit with and without overlapping calls, releasing twice, waiting that ends, cleanup.
  \<open>Client\<close>: the queue that the client refines, with the pongs written in between, and what keeps it
  from sending or closing.
  \<open>Server\<close>: the registry against the fate of the tasks, leaks, the limit, broadcast, shutdown.
  \<open>Delivery\<close>: each client's channel is a queue that the server refines while others come and go.
  \<open>Accepting\<close>: the accept loop never returns. \<open>ServerHeartbeat\<close>: it notices nobody. \<open>RateBound\<close>: what
  a limiter grants in the long run, by a potential of the bucket in exact rationals. \<open>ExServers\<close>: a
  server on its own writes pongs only, so that the echo server echoes nothing.

  \<^bold>\<open>The system.\<close> \<open>System\<close> composes the client with the server as the step relation \<open>link_step\<close>. Its
  network keeps the order of a wire and loses nothing while both ends run (TCP); control frames
  may be inserted anywhere, the rest of the server is arbitrary, and every failure that a call
  can report may happen at any time. \<open>link_ok\<close> is its invariant. From it follow that each side
  has read exactly the first messages the other sent (\<open>link_delivery\<close>) and that the turns of the
  tasks alone (\<open>task_step\<close>), in any order, bring everything across to the server (\<open>link_drains\<close>).

  \<^bold>\<open>Loops and bounds.\<close> The loops that wait for the world (\<^verbatim>\<open>get_with_config\<close>, \<^verbatim>\<open>acquire\<close>, the heartbeat
  task) run over the list of what they observe, and \<open>None\<close> is a loop still waiting; that they
  return is a property of its own (\<open>get_returns\<close>). The retry loop of the token bucket has
  fuel, one turn per failed compare-and-swap. The accept loop runs over its turns in the same
  way, and never answers (\<open>start_never_returns\<close>). Everything else is structural.

  \<^bold>\<open>Not modelled.\<close> The sockets, the TLS and the protocol engine of \<^verbatim>\<open>tungstenite\<close>, the scheduler and
  the timers of \<^verbatim>\<open>tokio\<close>, \<^verbatim>\<open>flate2\<close> and \<^verbatim>\<open>serde_json\<close> are not in the repository; what the code uses of
  them is a parameter or written out from their documentation (the capacity of a channel, the
  closing of a channel when one side is gone). Logging has no effect on the state. The
  integration tests and the benchmarks are not modelled, nor are a few unit tests that wait in
  \<^verbatim>\<open>tokio\<close>. Of \<^verbatim>\<open>configured_client.rs\<close> the configuration is modelled; the rest calls methods that
  the crate does not have.
\<close>

section \<open>Pool and client\<close>

text \<open>C20: The pool asks a client whether it is connected, and the client never learns that the server is
  gone: a pooled client whose connection ended while it was in use is put back as healthy and
  handed out again, and the next user cannot send anything.\<close>

theorem pool_hands_out_dead_client:
  assumes "only_held h p" and "wc_task (clients (pcl_client h)) = Running"
    and "Client.is_connected (clients (pcl_client h))" and "item = Inl x \<or> item = Inr (TClose y)"
    and after: "clients' =
      clients(pcl_client h := client_step ck (now, Client.Arrives item) (clients (pcl_client h)))"
  shows "snd (get_phase1 (\<lambda>i. Client.is_connected (clients' i)) t2 (pcl_url h)
      (release (\<lambda>i. Client.is_connected (clients' i)) t1 (pcl_url h) (pcl_connection_id h) p)) = Got h \<and>
    pooled_is_connected clients' h \<and>
    (\<exists>e \<in> {BufferFull, ConnectionClosed}. snd (pooled_send_text ck t3 s h clients') = Ret (Some (Err e)))"
proof -
  let ?c = "clients' (pcl_client h)"
  have dead: "wc_task ?c \<noteq> Running" and conn: "Client.is_connected ?c"
    using stream_end [OF assms(2,4), of ck now] assms(3) by (simp_all add: after)
  have "\<exists>e \<in> {BufferFull, ConnectionClosed}. snd (pooled_send_text ck t3 s h clients') = Ret (Some (Err e))"
    using send_dead [OF dead, of ck t3 "message_text s"]
    by (auto simp: pooled_send_text_def client_send_text_def on_pooled_def)
  with release_get_again(1) [OF assms(1) _ refl, where alive = "\<lambda>i. Client.is_connected (clients' i)"] conn
  show ?thesis by (auto simp: pooled_is_connected_def)
qed

theorem pool_hands_out_dead_client_witness:
  "let clients = (\<lambda>i. client_fresh (client_config_new (lit ''ws'')));
       clients' = clients(() := client_step True (3, Client.Arrives (Inr (TClose None))) (clients ()))
   in snd (get_phase1 (\<lambda>i. Client.is_connected (clients' i)) 5 (lit ''ws'')
       (release (\<lambda>i. Client.is_connected (clients' i)) 4 (lit ''ws'') (lit ''a'') sample_pool)) =
     Got (handle_of (lit ''ws'') sample_conn)"
proof -
  let ?h = "handle_of (lit ''ws'') sample_conn"
  let ?clients = "\<lambda>i :: unit. client_fresh (client_config_new (lit ''ws''))"
  have h: "pcl_url ?h = lit ''ws''" "pcl_connection_id ?h = lit ''a''" "pcl_client ?h = ()"
    by (simp_all add: handle_of_def sample_conn_def pooled_new_def)
  have "only_held ?h sample_pool"
    by (simp add: only_held_def handle_of_def sample_pool_def hm.lookup_insert server_pool_new_def)
  moreover have "wc_task (?clients ()) = Running" and "Client.is_connected (?clients ())"
    by (simp_all add: client_fresh_def is_connected_def)
  ultimately show ?thesis
    using pool_hands_out_dead_client [where h = ?h and p = sample_pool and clients = ?clients
        and item = "Inr (TClose None)" and y = None and ck = True and now = 3 and ?t2.0 = 5 and ?t1.0 = 4,
        OF _ _ _ _ refl]
    unfolding h Let_def by blast
qed

section \<open>Client and server\<close>

text \<open>The size of a message survives the wire.\<close>

lemma received_size:
  assumes "carries_data m" and "to_tungstenite m = Ok t"
  shows "serve_incoming ck now (Inr t) = serve_received ck now (msg_size m)"
proof (cases "msg_type m")
  case Text
  with assms(2) obtain s where s: "as_text m = Ok s" "t = TText s"
    by (auto simp: to_tungstenite_def try_then_Ok_iff)
  then have "m = message_text s" by (simp add: as_text_exact)
  with s show ?thesis by (simp add: serve_incoming_def msg_size_def message_len_def message_text_def)
qed (use assms in \<open>auto simp: carries_data_def to_tungstenite_def serve_incoming_def msg_size_def message_len_def\<close>)

text \<open>What a client writes is what the server counts: when the data messages \<open>ms\<close> arrive in their
  converted form at the task of a client, the server receives as many messages and as many
  bytes as the client sent, and the task keeps running (release build, counters modulo 2^64).\<close>

theorem client_server_accounting:
  assumes "\<forall>m \<in> set ms. carries_data m" and "map to_tungstenite ms = map Ok ts"
    and "task_of s u = Some Running"
    and "s' = fold (server_step False) (map (\<lambda>t. (now, HArrives u (Inr t))) ts) s"
  shows "messages_received (sv_metrics s') = messages_received (sv_metrics s) + of_nat (length ms) \<and>
    bytes_received (sv_metrics s') = bytes_received (sv_metrics s) + sum_list (map msg_size ms) \<and>
    task_of s' u = Some Running"
  using assms
proof (induction ms arbitrary: ts s)
  case (Cons m ms)
  from Cons.prems(2) obtain t ts' where ts: "ts = t # ts'" "to_tungstenite m = Ok t" "map to_tungstenite ms = map Ok ts'"
    by (cases ts) auto
  let ?s = "server_step False (now, HArrives u (Inr t)) s"
  obtain h where h: "hm_get (sv_handlers s) u = Some h" "hd_task h = Running"
    using Cons.prems(3) by (auto simp: task_of_def)
  have s: "?s = fst (serve_received False now (msg_size m) s)"
    using h Cons.prems(1) received_size [OF _ ts(2), of False now]
    by (simp add: client_turn_def serve_received_def op_then_def op_on_def op_update_def op_return_def
        record_message_received_def op_add_release touch_def)
  have "messages_received (sv_metrics ?s) = messages_received (sv_metrics s) + 1"
    and "bytes_received (sv_metrics ?s) = bytes_received (sv_metrics s) + msg_size m"
    and "task_of ?s u = Some Running"
    using h unfolding s
    by (simp_all add: serve_received_def op_then_def op_on_def op_update_def op_return_def
        record_message_received_def op_add_release touch_def task_of_def)
  with Cons.IH [OF _ ts(3), of ?s] Cons.prems(1,4) ts(1) show ?case by (simp add: algebra_simps)
qed simp

theorem client_server_accounting_witness:
  "messages_received (sv_metrics (fold (server_step False)
     (map (\<lambda>t. (3, HArrives 7 (Inr t))) [TBinary [1, 2], TBinary [3]]) (one_client 1))) = 2"
proof -
  have "\<forall>m \<in> set [message_binary [1, 2], message_binary [3]]. carries_data m"
    by (simp add: carries_data_def message_binary_def)
  moreover have "map to_tungstenite [message_binary [1, 2], message_binary [3]] = map Ok [TBinary [1, 2], TBinary [3]]"
    by (simp add: to_tungstenite_def message_binary_def)
  moreover have "task_of (one_client 1) 7 = Some Running"
    by (simp add: task_of_def one_client_def hm.lookup_insert)
  moreover have "messages_received (sv_metrics (one_client 1)) = 0"
    by (simp add: one_client_def server_new_def metrics_new_def)
  ultimately show ?thesis
    using client_server_accounting [OF _ _ _ refl, of "[message_binary [1, 2], message_binary [3]]"
        "[TBinary [1, 2], TBinary [3]]" "one_client 1" 7 3] by simp
qed

end
